(* ===== verification/Torque_Prelude.thy ===== *)
theory Torque_Prelude
  imports Main "HOL-Library.Word" "HOL-Library.Multiset" "HOL-Library.Product_Lexorder"
begin

text \<open>
  Shared vocabulary of the development: the C integer types as words, the
  operating system as an explicit state that answers system calls, the C array
  idioms (\<open>realloc\<close> by one slot, scan, \<open>memmove\<close>, store) and the generic lemmas on
  lists, bytes and words that the component theories use.
\<close>

unbundle bit_operations_syntax

named_theorems io_simps \<open>unfolding rules of the operating system interface\<close>
named_theorems inv_intros \<open>preservation of the component invariants\<close>

type_synonym u8 = "8 word"
type_synonym u16 = "16 word"
type_synonym u32 = "32 word"
type_synonym u64 = "64 word"

section \<open>The operating system\<close>

text \<open>
  Everything the sources obtain from libc or the kernel is an answer to a call.
  A state holds the answers still to come (any list is possible: the theorems
  quantify over it; an exhausted list answers with failure and \<open>EIO\<close>), the calls made so
  far, oldest first, and \<open>errno\<close>, which only a failing call writes.
\<close>

datatype syscall =
    Sys_malloc string
  | Sys_realloc string
  | Sys_strdup
  | Sys_free string
  | Sys_mmap nat
  | Sys_mremap nat nat
  | Sys_munmap nat
  | Sys_getrlimit string
  | Sys_sysconf string
  | Sys_getdtablesize
  | Sys_getaffinity
  | Sys_setaffinity "nat set"
  | Sys_epoll_create
  | Sys_epoll_ctl string int u32
  | Sys_epoll_wait int nat
  | Sys_epoll_pwait int nat "nat set"
  | Sys_signalfd "nat set"
  | Sys_timerfd_create
  | Sys_timerfd_settime int
  | Sys_read int nat
  | Sys_close int
  | Sys_connect int
  | Sys_sigaction nat
  | Sys_sigmask string "nat set"
  | Sys_kill nat
  | Sys_pthread string
  | Sys_join nat
  | Sys_adns string
  | Sys_cuda string
  | Sys_ssl string
  | Sys_accept int
  | Sys_fcntl int
  | Sys_write int nat
  | Sys_send int "u8 list"
  | Sys_printf string
  | Sys_getrusage
  | Sys_kevent "(int \<times> int \<times> u16 \<times> int) list" nat
  | Sys_libc string

text \<open>
  An answer: the returned integer (an address is positive, a null pointer 0), the
  \<open>errno\<close> a failure leaves, and what the call stored through its pointer
  arguments: an integer, bytes, a set of processors or signals, a list of
  descriptors with event bits.
\<close>

record sysret =
  rv :: int
  rerr :: nat
  rout :: int
  rdata :: "u8 list"
  rset :: "nat set"
  revents :: "(int \<times> u32) list"

record sysst =
  answers :: "sysret list"
  calls :: "syscall list"
  errno :: nat

definition failed_ret :: sysret where
  "failed_ret = \<lparr>rv = - 1, rerr = 5, rout = 0, rdata = [], rset = {}, revents = []\<rparr>"

definition sys_call :: "syscall \<Rightarrow> sysst \<Rightarrow> sysret \<times> sysst" where
  "sys_call c s =
     (case answers s of
        [] \<Rightarrow> (failed_ret, s\<lparr>calls := calls s @ [c], errno := rerr failed_ret\<rparr>)
      | a # as \<Rightarrow>
          (a, s\<lparr>answers := as, calls := calls s @ [c],
               errno := (if rv a < 0 then rerr a else errno s)\<rparr>))"

text \<open>An allocation succeeds when the answer is a non-null address.\<close>

definition sys_alloc :: "syscall \<Rightarrow> sysst \<Rightarrow> bool \<times> sysst" where
  "sys_alloc c s =
     (case sys_call c s of
        (a, s') \<Rightarrow>
          if 0 < rv a then (True, s') else (False, s'\<lparr>errno := rerr a\<rparr>))"

text \<open>A call of which only the returned integer is used, and one that returns an address.\<close>

definition sys_int :: "syscall \<Rightarrow> sysst \<Rightarrow> int \<times> sysst" where
  "sys_int c s = (case sys_call c s of (a, s') \<Rightarrow> (rv a, s'))"

definition sys_ptr :: "syscall \<Rightarrow> sysst \<Rightarrow> nat option \<times> sysst" where
  "sys_ptr c s =
     (case sys_call c s of
        (a, s') \<Rightarrow> if 0 < rv a then (Some (nat (rv a)), s') else (None, s'\<lparr>errno := rerr a\<rparr>))"

text \<open>
  \<open>read\<close> of at most \<open>n\<close> bytes: \<open>-1\<close>, or the number of bytes stored with those bytes;
  no bytes means end of file.
\<close>

definition sys_read :: "int \<Rightarrow> nat \<Rightarrow> sysst \<Rightarrow> int \<times> u8 list \<times> sysst" where
  "sys_read fd n s =
     (case sys_call (Sys_read fd n) s of
        (a, s') \<Rightarrow>
          if rv a < 0 then (- 1, [], s')
          else let d = take n (rdata a) in (int (length d), d, s'))"

text \<open>
  \<open>write\<close> of the bytes \<open>bs\<close>: \<open>-1\<close>, or how many of them were accepted. The trace holds the bytes
  accepted, so that \<open>sent\<close> is what has left through a descriptor.
\<close>

definition sys_write :: "int \<Rightarrow> u8 list \<Rightarrow> sysst \<Rightarrow> int \<times> sysst" where
  "sys_write fd bs s =
     (let n = (case answers s of [] \<Rightarrow> 0 | a # _ \<Rightarrow> min (nat (rv a)) (length bs))
      in case sys_call (Sys_send fd (take n bs)) s of
           (a, s') \<Rightarrow> (if rv a < 0 then - 1 else int n, s'))"

fun sent :: "int \<Rightarrow> syscall list \<Rightarrow> u8 list" where
  "sent fd [] = []"
| "sent fd (Sys_send f bs # cs) = (if f = fd then bs @ sent fd cs else sent fd cs)"
| "sent fd (_ # cs) = sent fd cs"

definition sends :: "syscall \<Rightarrow> bool" where
  "sends c = (case c of Sys_send _ _ \<Rightarrow> True | _ \<Rightarrow> False)"

text \<open>The calls that change how the kernel watches a descriptor.\<close>

definition touches :: "int \<Rightarrow> syscall \<Rightarrow> bool" where
  "touches fd c = (case c of Sys_close f \<Rightarrow> f = fd | Sys_epoll_ctl _ f _ \<Rightarrow> f = fd | _ \<Rightarrow> False)"

definition closes :: "int \<Rightarrow> sysst \<Rightarrow> nat" where
  "closes fd s = length (filter (\<lambda>c. c = Sys_close fd) (calls s))"

lemma sent_append [simp]: "sent fd (cs @ ds) = sent fd cs @ sent fd ds"
  by (induction fd cs rule: sent.induct) auto

lemma sent_nothing: "\<forall>c\<in>set cs. \<not> sends c \<Longrightarrow> sent fd cs = []"
  by (induction fd cs rule: sent.induct) (auto simp: sends_def)

text \<open>A call whose result the sources ignore.\<close>

definition sys_note :: "syscall \<Rightarrow> sysst \<Rightarrow> sysst" where
  "sys_note c s = s\<lparr>calls := calls s @ [c]\<rparr>"

definition os_answering :: "sysret list \<Rightarrow> sysst" where
  "os_answering as = \<lparr>answers = as, calls = [], errno = 0\<rparr>"

definition ok_ret :: sysret where
  "ok_ret = \<lparr>rv = 1, rerr = 0, rout = 0, rdata = [], rset = {}, revents = []\<rparr>"

definition zero_ret :: sysret where
  "zero_ret = \<lparr>rv = 0, rerr = 0, rout = 0, rdata = [], rset = {}, revents = []\<rparr>"

lemmas os_defs = sys_call_def sys_alloc_def sys_int_def sys_ptr_def sys_note_def failed_ret_def ok_ret_def
  zero_ret_def os_answering_def

declare os_defs [io_simps]

lemma sys_call_calls: "sys_call c s = (a, s') \<Longrightarrow> calls s' = calls s @ [c]"
  by (auto simp: sys_call_def split: list.splits)

lemma sys_call_answers:
  "sys_call c s = (a, s') \<Longrightarrow> answers s' = tl (answers s)"
  "sys_call c s = (a, s') \<Longrightarrow> answers s = [] \<Longrightarrow> a = failed_ret \<and> errno s' = 5"
  by (auto simp: sys_call_def failed_ret_def split: list.splits)

lemma closes_call:
  "sys_call c s = (a, s') \<Longrightarrow> closes fd s' = closes fd s + (if c = Sys_close fd then 1 else 0)"
  by (auto simp: closes_def dest!: sys_call_calls)

lemma closes_note: "closes fd (sys_note c s) = closes fd s + (if c = Sys_close fd then 1 else 0)"
  by (simp add: closes_def sys_note_def)

lemma sys_write_step:
  assumes "sys_write fd bs s = (r, s')"
  shows "\<exists>n\<le>length bs. calls s' = calls s @ [Sys_send fd (take n bs)] \<and> (if r < 0 then n = 0 \<and> r = - 1 else r = int n) \<and>
    length (answers s') \<le> length (answers s) \<and> (0 \<le> r \<or> errno s' \<noteq> 5 \<longrightarrow> length (answers s') < length (answers s))"
  using assms by (auto simp: sys_write_def Let_def sys_call_def failed_ret_def split: list.splits if_splits)

lemma sys_alloc_calls: "sys_alloc c s = (ok, s') \<Longrightarrow> calls s' = calls s @ [c]"
  by (auto simp: sys_alloc_def split: prod.splits if_splits dest: sys_call_calls)

text \<open>Calls that do not close a descriptor.\<close>

definition sys_quiet :: "int \<Rightarrow> sysst \<Rightarrow> sysst \<Rightarrow> bool" where
  "sys_quiet fd s s' \<longleftrightarrow> (\<exists>n. answers s' = drop n (answers s)) \<and> closes fd s' = closes fd s"

lemma sys_quiet_refl: "sys_quiet fd s s"
  by (auto simp: sys_quiet_def intro: exI [of _ 0])

lemma sys_quiet_trans: "sys_quiet fd s s1 \<Longrightarrow> sys_quiet fd s1 s2 \<Longrightarrow> sys_quiet fd s s2"
  by (auto simp: sys_quiet_def)

lemma sys_quiet_answers:
  assumes "sys_quiet fd s s'"
  shows "length (answers s') \<le> length (answers s)" "set (answers s') \<subseteq> set (answers s)"
  using assms by (auto simp: sys_quiet_def dest: in_set_dropD)

lemma sys_quiet_call: "sys_call c s = (a, s') \<Longrightarrow> c \<noteq> Sys_close fd \<Longrightarrow> sys_quiet fd s s'"
  by (auto simp: sys_quiet_def closes_call sys_call_answers(1) intro: exI [of _ 1] simp: drop_Suc)

lemma sys_quiet_int: "sys_int c s = (r, s') \<Longrightarrow> c \<noteq> Sys_close fd \<Longrightarrow> sys_quiet fd s s'"
  by (auto simp: sys_int_def split: prod.splits dest: sys_quiet_call)

lemma sys_quiet_errno: "sys_quiet fd s (s'\<lparr>errno := e\<rparr>) = sys_quiet fd s s'"
  by (simp add: sys_quiet_def closes_def)

lemma sys_quiet_ptr: "sys_ptr c s = (r, s') \<Longrightarrow> c \<noteq> Sys_close fd \<Longrightarrow> sys_quiet fd s s'"
  by (auto simp: sys_ptr_def sys_quiet_errno split: prod.splits if_splits dest: sys_quiet_call)

lemma sys_quiet_alloc: "sys_alloc c s = (r, s') \<Longrightarrow> c \<noteq> Sys_close fd \<Longrightarrow> sys_quiet fd s s'"
  by (auto simp: sys_alloc_def sys_quiet_errno split: prod.splits if_splits dest: sys_quiet_call)

lemma sys_quiet_note: "c \<noteq> Sys_close fd \<Longrightarrow> sys_quiet fd s (sys_note c s)"
  by (simp add: sys_quiet_def closes_note, rule exI [of _ 0], simp add: sys_note_def)

lemma sys_quiet_after_note: "c \<noteq> Sys_close fd \<Longrightarrow> sys_quiet fd s (sys_note c s') = sys_quiet fd s s'"
  by (simp add: sys_quiet_def closes_note) (simp add: sys_note_def)

section \<open>C arrays that grow by one slot\<close>

text \<open>
  A C array is the list of its slots; a slot is \<open>None\<close> while its contents are
  indeterminate. \<open>realloc_slots\<close> is the array after \<open>realloc\<close> to one slot more.
\<close>

definition realloc_slots :: "'a list \<Rightarrow> 'a option list" where
  "realloc_slots xs = map Some xs @ [None]"

definition memmove_slots :: "'a list \<Rightarrow> nat \<Rightarrow> nat \<Rightarrow> nat \<Rightarrow> 'a list" where
  "memmove_slots arr dst src n = take dst arr @ take n (drop src arr) @ drop (dst + n) arr"

text \<open>
  The loop shared by \<open>add_hwmem\<close>, \<open>add_tlb\<close> and \<open>add_pagesize\<close>: advance \<open>tmp\<close> over the
  \<open>n\<close> used slots until one compares greater than the new element, then shift the
  rest up by one slot and stop.
\<close>

function shift_loop ::
  "('a \<Rightarrow> 'a \<Rightarrow> int) \<Rightarrow> nat \<Rightarrow> 'a \<Rightarrow> 'a option list \<Rightarrow> nat \<Rightarrow> nat \<times> 'a option list" where
  "shift_loop cmp n x arr i =
     (if i < n then
        (if cmp (the (arr ! i)) x > 0 then (i, memmove_slots arr (i + 1) i (n - i))
         else shift_loop cmp n x arr (i + 1))
      else (i, arr))"
  by pat_completeness auto
termination
  by (relation "measure (\<lambda>(cmp, n, x, arr, i). n - i)") auto

declare shift_loop.simps [simp del]

text \<open>The reference: insertion before the first greater element.\<close>

fun cmp_insert :: "('a \<Rightarrow> 'a \<Rightarrow> int) \<Rightarrow> 'a \<Rightarrow> 'a list \<Rightarrow> 'a list" where
  "cmp_insert cmp x [] = [x]"
| "cmp_insert cmp x (y # ys) =
     (if cmp y x > 0 then x # y # ys else y # cmp_insert cmp x ys)"

fun cmp_pos :: "('a \<Rightarrow> 'a \<Rightarrow> int) \<Rightarrow> 'a \<Rightarrow> 'a list \<Rightarrow> nat" where
  "cmp_pos cmp x [] = 0"
| "cmp_pos cmp x (y # ys) = (if cmp y x > 0 then 0 else Suc (cmp_pos cmp x ys))"

lemma cmp_pos_le: "cmp_pos cmp x ys \<le> length ys"
  by (induction ys) auto

lemma cmp_insert_take_drop:
  "cmp_insert cmp x ys = take (cmp_pos cmp x ys) ys @ x # drop (cmp_pos cmp x ys) ys"
  by (induction ys) auto

lemma mset_cmp_insert [simp]: "mset (cmp_insert cmp x ys) = add_mset x (mset ys)"
  by (induction ys) auto

lemma set_cmp_insert [simp]: "set (cmp_insert cmp x ys) = insert x (set ys)"
  by (induction ys) auto

lemma length_cmp_insert [simp]: "length (cmp_insert cmp x ys) = Suc (length ys)"
  by (induction ys) auto

lemma shift_loop_store:
  assumes "shift_loop cmp (length xs) x (realloc_slots xs) i = (j, arr)" "i \<le> length xs"
  shows "j = i + cmp_pos cmp x (drop i xs)
    \<and> map the (arr[j := Some x]) = take i xs @ cmp_insert cmp x (drop i xs)"
  using assms
proof (induction "length xs - i" arbitrary: i)
  case 0
  then show ?case
    by (auto simp: shift_loop.simps [of cmp "length xs"] realloc_slots_def map_update
        list_update_append comp_def)
next
  case (Suc d)
  then have lt: "i < length xs" by simp
  then have dr: "drop i xs = xs ! i # drop (Suc i) xs"
    by (rule Cons_nth_drop_Suc [symmetric])
  have at: "the (realloc_slots xs ! i) = xs ! i"
    using lt by (simp add: realloc_slots_def nth_append)
  show ?case
  proof (cases "cmp (xs ! i) x > 0")
    case True
    then have j: "j = i"
      and a: "arr = memmove_slots (realloc_slots xs) (Suc i) i (length xs - i)"
      using Suc.prems(1) lt by (auto simp: shift_loop.simps [of cmp "length xs" x _ i] at)
    have "arr = map Some (take (Suc i) xs @ drop i xs)"
      using lt by (simp add: a memmove_slots_def realloc_slots_def drop_map take_map)
    then have "map the (arr[j := Some x]) = (take (Suc i) xs @ drop i xs)[i := x]"
      by (simp add: j flip: map_update del: map_append)
    also have "\<dots> = take i xs @ x # drop i xs"
      using lt by (simp add: list_update_append take_Suc_conv_app_nth)
    finally show ?thesis using True by (simp add: j dr)
  next
    case False
    then have "shift_loop cmp (length xs) x (realloc_slots xs) (Suc i) = (j, arr)"
      using Suc.prems(1) lt by (simp add: shift_loop.simps [of cmp "length xs" x _ i] at)
    then have IH: "j = Suc i + cmp_pos cmp x (drop (Suc i) xs) \<and>
        map the (arr[j := Some x]) = take (Suc i) xs @ cmp_insert cmp x (drop (Suc i) xs)"
      using Suc.hyps(2) lt by (intro Suc.hyps(1)) simp_all
    with IH False lt show ?thesis by (simp add: dr take_Suc_conv_app_nth)
  qed
qed

text \<open>The whole idiom: scan from slot 0, shift, store.\<close>

definition array_insert :: "('a \<Rightarrow> 'a \<Rightarrow> int) \<Rightarrow> nat \<Rightarrow> 'a \<Rightarrow> 'a list \<Rightarrow> nat \<times> 'a list" where
  "array_insert cmp n x xs =
     (case shift_loop cmp n x (realloc_slots xs) 0 of
        (i, arr) \<Rightarrow> (i, map the (arr[i := Some x])))"

lemma array_insert_eq:
  "array_insert cmp (length xs) x xs = (cmp_pos cmp x xs, cmp_insert cmp x xs)"
  using shift_loop_store [of cmp xs x 0]
  by (cases "shift_loop cmp (length xs) x (realloc_slots xs) 0") (auto simp: array_insert_def)

section \<open>The contract of a comparator\<close>

text \<open>
  What the sorted arrays rely on: the three-way comparison is a total preorder.
  The clients' facts (an insertion keeps the array ordered, a linear search for
  an equal element is complete) are proved once here.
\<close>

definition cmp_sorted :: "('a \<Rightarrow> 'a \<Rightarrow> int) \<Rightarrow> 'a list \<Rightarrow> bool" where
  "cmp_sorted cmp xs \<longleftrightarrow> sorted_wrt (\<lambda>a b. cmp a b \<le> 0) xs"

lemma cmp_sorted_simps [simp]:
  "cmp_sorted cmp []"
  "cmp_sorted cmp (x # xs) \<longleftrightarrow> (\<forall>y\<in>set xs. cmp x y \<le> 0) \<and> cmp_sorted cmp xs"
  by (simp_all add: cmp_sorted_def)

text \<open>
  What an insertion into an ordered array promises: \<open>xs\<close> before, \<open>ys\<close> of length \<open>n\<close> after,
  and the slot of the new element, or none when the array could not grow.
\<close>

definition inserted :: "('a \<Rightarrow> 'a \<Rightarrow> int) \<Rightarrow> 'a \<Rightarrow> 'a list \<Rightarrow> nat option \<Rightarrow> nat \<Rightarrow> 'a list \<Rightarrow> bool" where
  "inserted cmp x xs r n ys \<longleftrightarrow>
     cmp_sorted cmp ys \<and> n = length ys \<and>
     (case r of
        None \<Rightarrow> ys = xs
      | Some i \<Rightarrow> i < n \<and> ys ! i = x \<and> mset ys = add_mset x (mset xs) \<and>
          (\<forall>y\<in>set (take i ys). cmp y x \<le> 0) \<and> (\<forall>y\<in>set (drop (Suc i) ys). 0 < cmp y x))"

locale comparator =
  fixes cmp :: "'a \<Rightarrow> 'a \<Rightarrow> int"
  assumes cmp_self: "cmp a a = 0"
    and cmp_swap: "0 < cmp a b \<longleftrightarrow> cmp b a < 0"
    and cmp_le_trans: "cmp a b \<le> 0 \<Longrightarrow> cmp b c \<le> 0 \<Longrightarrow> cmp a c \<le> 0"
begin

lemma cmp_total: "cmp a b \<le> 0 \<or> cmp b a \<le> 0"
  using cmp_swap [of a b] by linarith

lemma insert_ordered: "cmp_sorted cmp xs \<Longrightarrow> cmp_sorted cmp (cmp_insert cmp x xs)"
proof (induction xs)
  case Nil
  then show ?case by simp
next
  case (Cons y ys)
  show ?case
  proof (cases "0 < cmp y x")
    case True
    then have xy: "cmp x y \<le> 0" using cmp_swap by (metis less_imp_le)
    moreover have "\<forall>z\<in>set ys. cmp x z \<le> 0"
      using Cons.prems cmp_le_trans [OF xy] by auto
    ultimately show ?thesis using Cons.prems True by simp
  next
    case False
    then show ?thesis using Cons by auto
  qed
qed

lemma insert_after_equals:
  assumes "cmp_sorted cmp xs"
  shows "\<forall>y\<in>set (take (cmp_pos cmp x xs) xs). cmp y x \<le> 0"
    and "\<forall>y\<in>set (drop (cmp_pos cmp x xs) xs). 0 < cmp y x"
proof -
  show "\<forall>y\<in>set (take (cmp_pos cmp x xs) xs). cmp y x \<le> 0"
    by (induction xs) auto
  show "\<forall>y\<in>set (drop (cmp_pos cmp x xs) xs). 0 < cmp y x"
    using assms
  proof (induction xs)
    case Nil
    then show ?case by simp
  next
    case (Cons a xs)
    then show ?case
      by (auto simp: not_less) (meson cmp_le_trans leD not_le_imp_less)
  qed
qed

lemma insertion_meets:
  assumes "cmp_sorted cmp xs"
    and "r = None \<and> n = length xs \<and> ys = xs \<or>
      r = Some (cmp_pos cmp x xs) \<and> n = length ys \<and> ys = cmp_insert cmp x xs"
  shows "inserted cmp x xs r n ys"
  using assms insert_ordered [OF assms(1), of x] insert_after_equals [OF assms(1), of x] cmp_pos_le [of cmp x xs]
    mset_cmp_insert [of cmp x xs]
  by (auto simp: inserted_def cmp_insert_take_drop [of cmp x xs] nth_append min_def)

end

text \<open>
  The \<open>CMP\<close> macro of the sources compares one field and returns \<open>-1\<close> or \<open>1\<close> at the
  first difference. A chain of such tests is the three-way comparison of the tuples
  of the fields in lexicographic order, which meets the contract.
\<close>

definition cmp_key :: "'a::linorder \<Rightarrow> 'a \<Rightarrow> int" where
  "cmp_key a b = (if a < b then - 1 else if a > b then 1 else 0)"

definition cmp_then :: "int \<Rightarrow> int \<Rightarrow> int" where
  "cmp_then c d = (if c \<noteq> 0 then c else d)"

lemma cmp_then_key: "cmp_then (cmp_key a b) (cmp_key c d) = cmp_key (a, c) (b, d)"
  by (auto simp: cmp_then_def cmp_key_def less_prod_def)

lemma cmp_key_le: "cmp_key a b \<le> 0 \<longleftrightarrow> a \<le> b"
  by (auto simp: cmp_key_def)

lemma cmp_key_eq: "cmp_key a b = 0 \<longleftrightarrow> a = b"
  by (auto simp: cmp_key_def)

lemma cmp_key_gt: "0 < cmp_key a b \<longleftrightarrow> b < a"
  by (auto simp: cmp_key_def)

lemma comparator_cmp_key: "comparator (\<lambda>a b. cmp_key (f a) (f b))"
  by unfold_locales (auto simp: cmp_key_def split: if_splits)

section \<open>Words and bytes\<close>

definition word_bytes :: "u32 \<Rightarrow> u8 list" where
  \<comment> \<open>the four bytes of a register in memory order (little endian)\<close>
  "word_bytes w = map (\<lambda>i. ucast (drop_bit (8 * i) w)) [0, 1, 2, 3]"

definition string_bytes :: "string \<Rightarrow> u8 list" where
  "string_bytes cs = map of_char cs"

definition bytes_string :: "u8 list \<Rightarrow> string" where
  "bytes_string bs = map (\<lambda>b. char_of (unat b)) bs"

lemma length_word_bytes [simp]: "length (word_bytes w) = 4"
  by (simp add: word_bytes_def)

lemma and_mask_unat: "unat (w AND mask n) = unat w mod 2 ^ n"
  for w :: "'a::len word"
  by (simp add: unsigned_take_bit_eq flip: take_bit_eq_mask take_bit_eq_mod)

lemma unat_mask_lt: "unat (w AND mask n) < 2 ^ n"
  for w :: "'a::len word"
  by (simp add: and_mask_unat)

lemma drop_bit_unat: "unat (drop_bit n w) = unat w div 2 ^ n"
  for w :: "'a::len word"
  by (simp add: unat_drop_bit_eq flip: drop_bit_eq_div)

lemma unat_pred_less: "w \<noteq> 0 \<Longrightarrow> unat (w - 1) < unat w"
  for w :: "'a::len word"
  by (simp add: unat_minus_one unat_gt_0)

lemma unat_pred_pred_less: "w \<noteq> 1 \<Longrightarrow> unat (w - 2) < unat (w - 1)"
  for w :: "'a::len word"
  using unat_pred_less [of "w - 1"] by (simp add: diff_diff_eq)

section \<open>Numbers as text\<close>

text \<open>The conversions \<open>%u\<close> (and \<open>%ju\<close>, \<open>%tu\<close>) and \<open>%x\<close> of \<open>printf\<close>.\<close>

definition digit_char :: "nat \<Rightarrow> char" where
  "digit_char d = char_of (if d < 10 then 48 + d else 87 + d)"

fun radix_string :: "nat \<Rightarrow> nat \<Rightarrow> string" where
  "radix_string b n =
     (if b < 2 \<or> n < b then [digit_char n] else radix_string b (n div b) @ [digit_char (n mod b)])"

declare radix_string.simps [simp del]

abbreviation dec_string :: "nat \<Rightarrow> string" where
  "dec_string n \<equiv> radix_string 10 n"

abbreviation hex_string :: "nat \<Rightarrow> string" where
  "hex_string n \<equiv> radix_string 16 n"

definition char_digit :: "char \<Rightarrow> nat" where
  "char_digit c = (let k = of_char c in if k < 58 then k - 48 else k - 87)"

definition parse_radix :: "nat \<Rightarrow> string \<Rightarrow> nat" where
  "parse_radix b cs = foldl (\<lambda>a c. a * b + char_digit c) 0 cs"

lemma char_digit_inverse: "d < 16 \<Longrightarrow> char_digit (digit_char d) = d"
  by (auto simp: char_digit_def digit_char_def of_char_of Let_def)

lemma parse_radix_string:
  assumes "2 \<le> b" "b \<le> 16"
  shows "parse_radix b (radix_string b n) = n"
proof (induction n rule: less_induct)
  case (less n)
  show ?case
  proof (cases "n < b")
    case True
    then show ?thesis using assms by (simp add: radix_string.simps [of b n] parse_radix_def char_digit_inverse)
  next
    case False
    have "n div b < n" using False assms by (intro div_less_dividend) auto
    moreover have "n mod b < 16" using mod_less_divisor [of b n] assms by linarith
    ultimately show ?thesis using False assms less
      by (simp add: radix_string.simps [of b n] parse_radix_def char_digit_inverse)
  qed
qed

section \<open>Step relations\<close>

text \<open>
  Three contracts of a step relation, for the interleavings of threads: a predicate that every step keeps holds in
  every state that is reached; when moreover every step brings a measure down, runs are no longer than the measure;
  and when from every good state that is not final some step leads to a good state nearer to the end, the end can always
  be reached.
\<close>

locale step_invariant =
  fixes step :: "'a \<Rightarrow> 'a \<Rightarrow> bool"
    and inv :: "'a \<Rightarrow> bool"
  assumes step_keeps: "inv x \<Longrightarrow> step x y \<Longrightarrow> inv y"
begin

lemma reach_keeps: "step\<^sup>*\<^sup>* x y \<Longrightarrow> inv x \<Longrightarrow> inv y"
  by (induction rule: rtranclp_induct) (auto intro: step_keeps)

lemma run_keeps: "(step ^^ k) x y \<Longrightarrow> inv x \<Longrightarrow> inv y"
  using reach_keeps relpowp_imp_rtranclp by metis

end

locale step_bounded = step_invariant +
  fixes left :: "'a \<Rightarrow> nat"
  assumes step_left: "inv x \<Longrightarrow> step x y \<Longrightarrow> left y < left x"
begin

lemma run_length: "(step ^^ k) x y \<Longrightarrow> inv x \<Longrightarrow> k + left y \<le> left x"
proof (induction k arbitrary: y)
  case (Suc k)
  then obtain z where z: "(step ^^ k) x z" "step z y" by auto
  then have "left y < left z" using step_left run_keeps Suc.prems(2) by blast
  then show ?case using Suc.IH [OF z(1) Suc.prems(2)] by simp
qed simp

end

locale step_variant =
  fixes step :: "'a \<Rightarrow> 'a \<Rightarrow> bool"
    and good :: "'a \<Rightarrow> bool"
    and left :: "'a \<Rightarrow> nat"
    and final :: "'a \<Rightarrow> bool"
  assumes closer: "good x \<Longrightarrow> \<not> final x \<Longrightarrow> \<exists>y. step x y \<and> good y \<and> left y < left x"
begin

lemma completes: "good x \<Longrightarrow> \<exists>y. step\<^sup>*\<^sup>* x y \<and> final y \<and> good y"
proof (induction "left x" arbitrary: x rule: less_induct)
  case less
  show ?case
  proof (cases "final x")
    case False
    then obtain z where z: "step x z" "good z" "left z < left x" using closer less.prems by blast
    then obtain y where "step\<^sup>*\<^sup>* z y" "final y" "good y" using less.hyps by blast
    then show ?thesis using z(1) by (meson converse_rtranclp_into_rtranclp)
  qed (use less.prems in blast)
qed

end

end
