(* ===== verification/Hw_Types.thy ===== *)
theory Hw_Types
  imports Torque_Prelude
begin

text \<open>
  The hardware data model of \<^verbatim>\<open>src/src/libtorque/internal.h\<close> and the error codes of
  \<^verbatim>\<open>src/src/libtorque/torque.h\<close>. Structures are records with the source's fields
  (prefixed where two structures share a field name), enumerations are datatypes
  ordered as C orders their values, \<open>unsigned\<close> is a 32-bit word and \<open>uintmax_t\<close> a
  64-bit one. A counted C array is the pair of its count and the list of its slots.
\<close>

section \<open>Error codes\<close>

text \<open>
  A \<open>torque_err\<close> travels as a C integer: several callers mix it with \<open>-1\<close> and with
  \<open>TORQUE_ERR_SYSCALL + errno\<close>, so it is an integer here, with the enumerators in
  order.
\<close>

type_synonym torque_err = int

definition TORQUE_ERR_NONE :: torque_err where [simp]: "TORQUE_ERR_NONE = 0"
definition TORQUE_ERR_ASSERT :: torque_err where [simp]: "TORQUE_ERR_ASSERT = 1"
definition TORQUE_ERR_CPUDETECT :: torque_err where [simp]: "TORQUE_ERR_CPUDETECT = 2"
definition TORQUE_ERR_GPUDETECT :: torque_err where [simp]: "TORQUE_ERR_GPUDETECT = 3"
definition TORQUE_ERR_MEMDETECT :: torque_err where [simp]: "TORQUE_ERR_MEMDETECT = 4"
definition TORQUE_ERR_AFFINITY :: torque_err where [simp]: "TORQUE_ERR_AFFINITY = 5"
definition TORQUE_ERR_RESOURCE :: torque_err where [simp]: "TORQUE_ERR_RESOURCE = 6"
definition TORQUE_ERR_INVAL :: torque_err where [simp]: "TORQUE_ERR_INVAL = 7"
definition TORQUE_ERR_UNAVAIL :: torque_err where [simp]: "TORQUE_ERR_UNAVAIL = 8"
definition TORQUE_ERR_SYSCALL :: torque_err where [simp]: "TORQUE_ERR_SYSCALL = 9"

section \<open>Memories and TLBs\<close>

datatype torque_memtypet = MEMTYPE_UNKNOWN | MEMTYPE_CODE | MEMTYPE_DATA | MEMTYPE_UNIFIED

fun memtype_rank :: "torque_memtypet \<Rightarrow> nat" where
  "memtype_rank MEMTYPE_UNKNOWN = 0"
| "memtype_rank MEMTYPE_CODE = 1"
| "memtype_rank MEMTYPE_DATA = 2"
| "memtype_rank MEMTYPE_UNIFIED = 3"

lemma memtype_rank_inj: "memtype_rank a = memtype_rank b \<longleftrightarrow> a = b"
  by (cases a; cases b) simp_all

instantiation torque_memtypet :: linorder
begin

definition less_eq_torque_memtypet :: "torque_memtypet \<Rightarrow> torque_memtypet \<Rightarrow> bool" where
  "less_eq_torque_memtypet a b \<longleftrightarrow> memtype_rank a \<le> memtype_rank b"

definition less_torque_memtypet :: "torque_memtypet \<Rightarrow> torque_memtypet \<Rightarrow> bool" where
  "less_torque_memtypet a b \<longleftrightarrow> memtype_rank a < memtype_rank b"

instance
  by standard
    (auto simp: less_eq_torque_memtypet_def less_torque_memtypet_def memtype_rank_inj)

end

record torque_tlbt =
  tlb_entries :: u32
  tlb_pagesize :: u32
  tlb_associativity :: u32
  tlb_sharedways :: u32
  tlb_tlbtype :: torque_memtypet
  tlb_level :: u32

record torque_memt =
  mem_totalsize :: u64
  mem_linesize :: u32
  mem_associativity :: u32
  mem_sharedways :: u32
  mem_memtype :: torque_memtypet
  mem_level :: u32

section \<open>Processors\<close>

datatype torque_x86typet =
    PROCESSOR_X86_OEM | PROCESSOR_X86_OVERDRIVE | PROCESSOR_X86_DUAL | PROCESSOR_X86_UNKNOWN

record features =
  f_mmx :: bool
  f_sse :: bool
  f_sse2 :: bool
  f_sse3 :: bool
  f_ssse3 :: bool
  f_sse41 :: bool
  f_sse42 :: bool
  f_sse4a :: bool
  f_avx :: bool
  f_xop :: bool
  f_fma4 :: bool
  f_cvt16 :: bool

record x86_details =
  x86_family :: u32
  x86_model :: u32
  x86_stepping :: u32
  x86_x86type :: torque_x86typet
  x86_features :: features
  x86_apic :: u32

record cuda_details =
  cuda_major :: int
  cuda_minor :: int

datatype torque_isat = TORQUE_ISA_X86 | TORQUE_ISA_NVIDIA

text \<open>The union \<open>spec\<close>: the alternative that was written last.\<close>

datatype cpu_spec = Spec_x86 x86_details | Spec_cuda cuda_details

record torque_cput =
  cpu_elements :: u32
  cpu_memories :: nat
  cpu_tlbs :: nat
  cpu_threadspercore :: u32
  cpu_coresperpackage :: u32
  cpu_tlbdescs :: "torque_tlbt list"
  cpu_strdescription :: "string option"
  cpu_memdescs :: "torque_memt list"
  cpu_isa :: torque_isat
  cpu_spec :: cpu_spec

definition zero_features :: features where
  "zero_features = \<lparr>f_mmx = False, f_sse = False, f_sse2 = False, f_sse3 = False,
     f_ssse3 = False, f_sse41 = False, f_sse42 = False, f_sse4a = False, f_avx = False,
     f_xop = False, f_fma4 = False, f_cvt16 = False\<rparr>"

definition zero_x86 :: x86_details where
  "zero_x86 = \<lparr>x86_family = 0, x86_model = 0, x86_stepping = 0,
     x86_x86type = PROCESSOR_X86_OEM, x86_features = zero_features, x86_apic = 0\<rparr>"

definition zero_cput :: torque_cput where
  "zero_cput = \<lparr>cpu_elements = 0, cpu_memories = 0, cpu_tlbs = 0, cpu_threadspercore = 0,
     cpu_coresperpackage = 0, cpu_tlbdescs = [], cpu_strdescription = None, cpu_memdescs = [],
     cpu_isa = TORQUE_ISA_X86, cpu_spec = Spec_x86 zero_x86\<rparr>"

fun spec_x86 :: "cpu_spec \<Rightarrow> x86_details" where
  "spec_x86 (Spec_x86 d) = d"
| "spec_x86 (Spec_cuda _) = zero_x86"

section \<open>Memory nodes\<close>

record torque_nodet =
  node_size :: u64
  node_psizevals :: "u64 list"
  node_psizes :: nat
  node_count :: u32

end
