(* ===== verification/Intel_Descriptors.thy ===== *)
theory Intel_Descriptors
  imports Hw_Types
begin

text \<open>
  The descriptor tables of CPUID function 2 in
  \<^verbatim>\<open>src/src/libtorque/hardware/x86cpuid.c\<close> and the three lookups over them. The C
  tables are single arrays; here each is the concatenation of consecutive
  segments, row for row in the order of the source.
\<close>

section \<open>Tables\<close>

record intel_cache_descriptor =
  icd_descriptor :: u32
  icd_linesize :: u32
  icd_totalsize :: u64
  icd_associativity :: u32
  icd_level :: u32
  icd_memtype :: torque_memtypet

record intel_tlb_descriptor =
  itd_descriptor :: u32
  itd_pagesize :: u32
  itd_entries :: u32
  itd_associativity :: u32
  itd_level :: u32
  itd_tlbtype :: torque_memtypet

definition intel_cache_descriptors_0 :: "intel_cache_descriptor list" where
  "intel_cache_descriptors_0 = [
    \<lparr>icd_descriptor = 0x06, icd_linesize = 32, icd_totalsize = 8 * 1024, icd_associativity = 4, icd_level = 1, icd_memtype = MEMTYPE_CODE\<rparr>,
    \<lparr>icd_descriptor = 0x08, icd_linesize = 32, icd_totalsize = 16 * 1024, icd_associativity = 4, icd_level = 1, icd_memtype = MEMTYPE_CODE\<rparr>,
    \<lparr>icd_descriptor = 0x09, icd_linesize = 64, icd_totalsize = 32 * 1024, icd_associativity = 4, icd_level = 1, icd_memtype = MEMTYPE_CODE\<rparr>,
    \<lparr>icd_descriptor = 0x0a, icd_linesize = 32, icd_totalsize = 8 * 1024, icd_associativity = 2, icd_level = 1, icd_memtype = MEMTYPE_DATA\<rparr>,
    \<lparr>icd_descriptor = 0x0c, icd_linesize = 32, icd_totalsize = 16 * 1024, icd_associativity = 4, icd_level = 1, icd_memtype = MEMTYPE_DATA\<rparr>,
    \<lparr>icd_descriptor = 0x0d, icd_linesize = 64, icd_totalsize = 16 * 1024, icd_associativity = 4, icd_level = 1, icd_memtype = MEMTYPE_DATA\<rparr>,
    \<lparr>icd_descriptor = 0x21, icd_linesize = 64, icd_totalsize = 256 * 1024, icd_associativity = 8, icd_level = 2, icd_memtype = MEMTYPE_UNIFIED\<rparr>,
    \<lparr>icd_descriptor = 0x22, icd_linesize = 64, icd_totalsize = 512 * 1024, icd_associativity = 4, icd_level = 3, icd_memtype = MEMTYPE_UNIFIED\<rparr>,
    \<lparr>icd_descriptor = 0x23, icd_linesize = 64, icd_totalsize = 1024 * 1024, icd_associativity = 8, icd_level = 3, icd_memtype = MEMTYPE_UNIFIED\<rparr>,
    \<lparr>icd_descriptor = 0x25, icd_linesize = 64, icd_totalsize = 2 * 1024 * 1024, icd_associativity = 8, icd_level = 3, icd_memtype = MEMTYPE_UNIFIED\<rparr>,
    \<lparr>icd_descriptor = 0x29, icd_linesize = 64, icd_totalsize = 4 * 1024 * 1024, icd_associativity = 8, icd_level = 3, icd_memtype = MEMTYPE_UNIFIED\<rparr>,
    \<lparr>icd_descriptor = 0x2c, icd_linesize = 64, icd_totalsize = 32 * 1024, icd_associativity = 8, icd_level = 1, icd_memtype = MEMTYPE_DATA\<rparr>,
    \<lparr>icd_descriptor = 0x30, icd_linesize = 64, icd_totalsize = 32 * 1024, icd_associativity = 8, icd_level = 1, icd_memtype = MEMTYPE_CODE\<rparr>,
    \<lparr>icd_descriptor = 0x39, icd_linesize = 64, icd_totalsize = 128 * 1024, icd_associativity = 4, icd_level = 2, icd_memtype = MEMTYPE_UNIFIED\<rparr>,
    \<lparr>icd_descriptor = 0x3a, icd_linesize = 64, icd_totalsize = 192 * 1024, icd_associativity = 6, icd_level = 2, icd_memtype = MEMTYPE_UNIFIED\<rparr>,
    \<lparr>icd_descriptor = 0x3b, icd_linesize = 64, icd_totalsize = 128 * 1024, icd_associativity = 2, icd_level = 2, icd_memtype = MEMTYPE_UNIFIED\<rparr>,
    \<lparr>icd_descriptor = 0x3c, icd_linesize = 64, icd_totalsize = 256 * 1024, icd_associativity = 4, icd_level = 2, icd_memtype = MEMTYPE_UNIFIED\<rparr>,
    \<lparr>icd_descriptor = 0x3d, icd_linesize = 64, icd_totalsize = 384 * 1024, icd_associativity = 6, icd_level = 2, icd_memtype = MEMTYPE_UNIFIED\<rparr>,
    \<lparr>icd_descriptor = 0x3e, icd_linesize = 64, icd_totalsize = 512 * 1024, icd_associativity = 4, icd_level = 2, icd_memtype = MEMTYPE_UNIFIED\<rparr>,
    \<lparr>icd_descriptor = 0x41, icd_linesize = 32, icd_totalsize = 128 * 1024, icd_associativity = 4, icd_level = 2, icd_memtype = MEMTYPE_UNIFIED\<rparr>]"

definition intel_cache_descriptors_1 :: "intel_cache_descriptor list" where
  "intel_cache_descriptors_1 = [
    \<lparr>icd_descriptor = 0x42, icd_linesize = 32, icd_totalsize = 256 * 1024, icd_associativity = 4, icd_level = 2, icd_memtype = MEMTYPE_UNIFIED\<rparr>,
    \<lparr>icd_descriptor = 0x43, icd_linesize = 32, icd_totalsize = 512 * 1024, icd_associativity = 4, icd_level = 2, icd_memtype = MEMTYPE_UNIFIED\<rparr>,
    \<lparr>icd_descriptor = 0x44, icd_linesize = 32, icd_totalsize = 1024 * 1024, icd_associativity = 4, icd_level = 2, icd_memtype = MEMTYPE_UNIFIED\<rparr>,
    \<lparr>icd_descriptor = 0x45, icd_linesize = 32, icd_totalsize = 2 * 1024 * 1024, icd_associativity = 4, icd_level = 2, icd_memtype = MEMTYPE_UNIFIED\<rparr>,
    \<lparr>icd_descriptor = 0x46, icd_linesize = 64, icd_totalsize = 4 * 1024 * 1024, icd_associativity = 4, icd_level = 3, icd_memtype = MEMTYPE_UNIFIED\<rparr>,
    \<lparr>icd_descriptor = 0x47, icd_linesize = 64, icd_totalsize = 8 * 1024 * 1024, icd_associativity = 8, icd_level = 3, icd_memtype = MEMTYPE_UNIFIED\<rparr>,
    \<lparr>icd_descriptor = 0x48, icd_linesize = 64, icd_totalsize = 3 * 1024 * 1024, icd_associativity = 12, icd_level = 2, icd_memtype = MEMTYPE_UNIFIED\<rparr>,
    \<lparr>icd_descriptor = 0x49, icd_linesize = 64, icd_totalsize = 4 * 1024 * 1024, icd_associativity = 16, icd_level = 2, icd_memtype = MEMTYPE_UNIFIED\<rparr>,
    \<lparr>icd_descriptor = 0x4a, icd_linesize = 64, icd_totalsize = 6 * 1024 * 1024, icd_associativity = 12, icd_level = 3, icd_memtype = MEMTYPE_UNIFIED\<rparr>,
    \<lparr>icd_descriptor = 0x4b, icd_linesize = 64, icd_totalsize = 8 * 1024 * 1024, icd_associativity = 16, icd_level = 3, icd_memtype = MEMTYPE_UNIFIED\<rparr>,
    \<lparr>icd_descriptor = 0x4c, icd_linesize = 64, icd_totalsize = 12 * 1024 * 1024, icd_associativity = 12, icd_level = 3, icd_memtype = MEMTYPE_UNIFIED\<rparr>,
    \<lparr>icd_descriptor = 0x4d, icd_linesize = 64, icd_totalsize = 16 * 1024 * 1024, icd_associativity = 16, icd_level = 3, icd_memtype = MEMTYPE_UNIFIED\<rparr>,
    \<lparr>icd_descriptor = 0x4e, icd_linesize = 64, icd_totalsize = 6 * 1024 * 1024, icd_associativity = 24, icd_level = 2, icd_memtype = MEMTYPE_UNIFIED\<rparr>,
    \<lparr>icd_descriptor = 0x60, icd_linesize = 64, icd_totalsize = 16 * 1024, icd_associativity = 8, icd_level = 1, icd_memtype = MEMTYPE_DATA\<rparr>,
    \<lparr>icd_descriptor = 0x66, icd_linesize = 64, icd_totalsize = 8 * 1024, icd_associativity = 4, icd_level = 1, icd_memtype = MEMTYPE_DATA\<rparr>,
    \<lparr>icd_descriptor = 0x67, icd_linesize = 64, icd_totalsize = 16 * 1024, icd_associativity = 4, icd_level = 1, icd_memtype = MEMTYPE_DATA\<rparr>,
    \<lparr>icd_descriptor = 0x68, icd_linesize = 64, icd_totalsize = 32 * 1024, icd_associativity = 4, icd_level = 1, icd_memtype = MEMTYPE_DATA\<rparr>,
    \<lparr>icd_descriptor = 0x76, icd_linesize = 64, icd_totalsize = 1024 * 1024, icd_associativity = 4, icd_level = 2, icd_memtype = MEMTYPE_UNIFIED\<rparr>,
    \<lparr>icd_descriptor = 0x78, icd_linesize = 64, icd_totalsize = 1024 * 1024, icd_associativity = 4, icd_level = 2, icd_memtype = MEMTYPE_UNIFIED\<rparr>,
    \<lparr>icd_descriptor = 0x79, icd_linesize = 64, icd_totalsize = 128 * 1024, icd_associativity = 8, icd_level = 2, icd_memtype = MEMTYPE_UNIFIED\<rparr>]"

definition intel_cache_descriptors_2 :: "intel_cache_descriptor list" where
  "intel_cache_descriptors_2 = [
    \<lparr>icd_descriptor = 0x7a, icd_linesize = 64, icd_totalsize = 256 * 1024, icd_associativity = 8, icd_level = 2, icd_memtype = MEMTYPE_UNIFIED\<rparr>,
    \<lparr>icd_descriptor = 0x7b, icd_linesize = 64, icd_totalsize = 512 * 1024, icd_associativity = 8, icd_level = 2, icd_memtype = MEMTYPE_UNIFIED\<rparr>,
    \<lparr>icd_descriptor = 0x7c, icd_linesize = 64, icd_totalsize = 1 * 1024 * 1024, icd_associativity = 8, icd_level = 2, icd_memtype = MEMTYPE_UNIFIED\<rparr>,
    \<lparr>icd_descriptor = 0x7d, icd_linesize = 64, icd_totalsize = 2 * 1024 * 1024, icd_associativity = 8, icd_level = 2, icd_memtype = MEMTYPE_UNIFIED\<rparr>,
    \<lparr>icd_descriptor = 0x7f, icd_linesize = 64, icd_totalsize = 512 * 1024, icd_associativity = 2, icd_level = 2, icd_memtype = MEMTYPE_UNIFIED\<rparr>,
    \<lparr>icd_descriptor = 0x80, icd_linesize = 64, icd_totalsize = 512 * 1024, icd_associativity = 8, icd_level = 2, icd_memtype = MEMTYPE_UNIFIED\<rparr>,
    \<lparr>icd_descriptor = 0x82, icd_linesize = 32, icd_totalsize = 256 * 1024, icd_associativity = 8, icd_level = 2, icd_memtype = MEMTYPE_UNIFIED\<rparr>,
    \<lparr>icd_descriptor = 0x83, icd_linesize = 32, icd_totalsize = 512 * 1024, icd_associativity = 8, icd_level = 2, icd_memtype = MEMTYPE_UNIFIED\<rparr>,
    \<lparr>icd_descriptor = 0x84, icd_linesize = 32, icd_totalsize = 1 * 1024 * 1024, icd_associativity = 8, icd_level = 2, icd_memtype = MEMTYPE_UNIFIED\<rparr>,
    \<lparr>icd_descriptor = 0x85, icd_linesize = 32, icd_totalsize = 2 * 1024 * 1024, icd_associativity = 8, icd_level = 2, icd_memtype = MEMTYPE_UNIFIED\<rparr>,
    \<lparr>icd_descriptor = 0x86, icd_linesize = 64, icd_totalsize = 512 * 1024, icd_associativity = 4, icd_level = 2, icd_memtype = MEMTYPE_UNIFIED\<rparr>,
    \<lparr>icd_descriptor = 0x87, icd_linesize = 64, icd_totalsize = 1 * 1024, icd_associativity = 8, icd_level = 2, icd_memtype = MEMTYPE_UNIFIED\<rparr>,
    \<lparr>icd_descriptor = 0xd0, icd_linesize = 64, icd_totalsize = 512 * 1024, icd_associativity = 4, icd_level = 3, icd_memtype = MEMTYPE_UNIFIED\<rparr>,
    \<lparr>icd_descriptor = 0xd1, icd_linesize = 64, icd_totalsize = 1024 * 1024, icd_associativity = 4, icd_level = 3, icd_memtype = MEMTYPE_UNIFIED\<rparr>,
    \<lparr>icd_descriptor = 0xd2, icd_linesize = 64, icd_totalsize = 2 * 1024 * 1024, icd_associativity = 4, icd_level = 3, icd_memtype = MEMTYPE_UNIFIED\<rparr>,
    \<lparr>icd_descriptor = 0xd6, icd_linesize = 64, icd_totalsize = 12 * 1024 * 1024, icd_associativity = 8, icd_level = 3, icd_memtype = MEMTYPE_UNIFIED\<rparr>,
    \<lparr>icd_descriptor = 0xd7, icd_linesize = 64, icd_totalsize = 18 * 1024 * 1024, icd_associativity = 8, icd_level = 3, icd_memtype = MEMTYPE_UNIFIED\<rparr>,
    \<lparr>icd_descriptor = 0xd8, icd_linesize = 64, icd_totalsize = 24 * 1024 * 1024, icd_associativity = 8, icd_level = 3, icd_memtype = MEMTYPE_UNIFIED\<rparr>,
    \<lparr>icd_descriptor = 0xdc, icd_linesize = 64, icd_totalsize = (1024 + 512) * 1024, icd_associativity = 12, icd_level = 3, icd_memtype = MEMTYPE_UNIFIED\<rparr>,
    \<lparr>icd_descriptor = 0xdd, icd_linesize = 64, icd_totalsize = 3 * 1024 * 1024, icd_associativity = 12, icd_level = 3, icd_memtype = MEMTYPE_UNIFIED\<rparr>]"

definition intel_cache_descriptors_3 :: "intel_cache_descriptor list" where
  "intel_cache_descriptors_3 = [
    \<lparr>icd_descriptor = 0xde, icd_linesize = 64, icd_totalsize = 6 * 1024 * 1024, icd_associativity = 12, icd_level = 3, icd_memtype = MEMTYPE_UNIFIED\<rparr>,
    \<lparr>icd_descriptor = 0xe2, icd_linesize = 64, icd_totalsize = 2 * 1024 * 1024, icd_associativity = 16, icd_level = 3, icd_memtype = MEMTYPE_UNIFIED\<rparr>,
    \<lparr>icd_descriptor = 0xe3, icd_linesize = 64, icd_totalsize = 4 * 1024 * 1024, icd_associativity = 16, icd_level = 3, icd_memtype = MEMTYPE_UNIFIED\<rparr>,
    \<lparr>icd_descriptor = 0xe4, icd_linesize = 64, icd_totalsize = 8 * 1024 * 1024, icd_associativity = 16, icd_level = 3, icd_memtype = MEMTYPE_UNIFIED\<rparr>,
    \<lparr>icd_descriptor = 0xea, icd_linesize = 64, icd_totalsize = 12 * 1024 * 1024, icd_associativity = 24, icd_level = 3, icd_memtype = MEMTYPE_UNIFIED\<rparr>,
    \<lparr>icd_descriptor = 0xeb, icd_linesize = 64, icd_totalsize = 18 * 1024 * 1024, icd_associativity = 24, icd_level = 3, icd_memtype = MEMTYPE_UNIFIED\<rparr>,
    \<lparr>icd_descriptor = 0xec, icd_linesize = 64, icd_totalsize = 24 * 1024 * 1024, icd_associativity = 24, icd_level = 3, icd_memtype = MEMTYPE_UNIFIED\<rparr>]"

definition intel_cache_descriptors :: "intel_cache_descriptor list" where
  "intel_cache_descriptors = intel_cache_descriptors_0 @ intel_cache_descriptors_1 @ intel_cache_descriptors_2 @ intel_cache_descriptors_3"

definition intel_tlb_descriptors_0 :: "intel_tlb_descriptor list" where
  "intel_tlb_descriptors_0 = [
    \<lparr>itd_descriptor = 0x01, itd_pagesize = 4 * 1024, itd_entries = 32, itd_associativity = 4, itd_level = 2, itd_tlbtype = MEMTYPE_CODE\<rparr>,
    \<lparr>itd_descriptor = 0x02, itd_pagesize = 4 * 1024 * 1024, itd_entries = 2, itd_associativity = 2, itd_level = 2, itd_tlbtype = MEMTYPE_CODE\<rparr>,
    \<lparr>itd_descriptor = 0x03, itd_pagesize = 4 * 1024, itd_entries = 64, itd_associativity = 4, itd_level = 2, itd_tlbtype = MEMTYPE_DATA\<rparr>,
    \<lparr>itd_descriptor = 0x04, itd_pagesize = 4 * 1024 * 1024, itd_entries = 8, itd_associativity = 4, itd_level = 2, itd_tlbtype = MEMTYPE_DATA\<rparr>,
    \<lparr>itd_descriptor = 0x05, itd_pagesize = 4 * 1024 * 1024, itd_entries = 32, itd_associativity = 4, itd_level = 2, itd_tlbtype = MEMTYPE_DATA\<rparr>,
    \<lparr>itd_descriptor = 0x50, itd_pagesize = 4 * 1024 * 1024, itd_entries = 64, itd_associativity = 64, itd_level = 1, itd_tlbtype = MEMTYPE_CODE\<rparr>,
    \<lparr>itd_descriptor = 0x51, itd_pagesize = 4 * 1024, itd_entries = 128, itd_associativity = 128, itd_level = 1, itd_tlbtype = MEMTYPE_CODE\<rparr>,
    \<lparr>itd_descriptor = 0x52, itd_pagesize = 4 * 1024 * 1024, itd_entries = 256, itd_associativity = 256, itd_level = 1, itd_tlbtype = MEMTYPE_CODE\<rparr>,
    \<lparr>itd_descriptor = 0x55, itd_pagesize = 4 * 1024, itd_entries = 7, itd_associativity = 7, itd_level = 2, itd_tlbtype = MEMTYPE_CODE\<rparr>,
    \<lparr>itd_descriptor = 0x56, itd_pagesize = 4 * 1024 * 1024, itd_entries = 16, itd_associativity = 4, itd_level = 1, itd_tlbtype = MEMTYPE_DATA\<rparr>,
    \<lparr>itd_descriptor = 0x57, itd_pagesize = 4 * 1024, itd_entries = 16, itd_associativity = 4, itd_level = 1, itd_tlbtype = MEMTYPE_DATA\<rparr>,
    \<lparr>itd_descriptor = 0x5a, itd_pagesize = 4 * 1024 * 1024, itd_entries = 32, itd_associativity = 4, itd_level = 1, itd_tlbtype = MEMTYPE_DATA\<rparr>,
    \<lparr>itd_descriptor = 0x5b, itd_pagesize = 4 * 1024, itd_entries = 64, itd_associativity = 64, itd_level = 2, itd_tlbtype = MEMTYPE_DATA\<rparr>,
    \<lparr>itd_descriptor = 0x5c, itd_pagesize = 4 * 1024, itd_entries = 128, itd_associativity = 128, itd_level = 2, itd_tlbtype = MEMTYPE_DATA\<rparr>,
    \<lparr>itd_descriptor = 0x5d, itd_pagesize = 4 * 1024, itd_entries = 256, itd_associativity = 256, itd_level = 2, itd_tlbtype = MEMTYPE_DATA\<rparr>,
    \<lparr>itd_descriptor = 0x61, itd_pagesize = 4 * 1024, itd_entries = 48, itd_associativity = 48, itd_level = 2, itd_tlbtype = MEMTYPE_CODE\<rparr>,
    \<lparr>itd_descriptor = 0x63, itd_pagesize = 1 * 1024 * 1024 * 1024, itd_entries = 4, itd_associativity = 4, itd_level = 3, itd_tlbtype = MEMTYPE_DATA\<rparr>,
    \<lparr>itd_descriptor = 0xb0, itd_pagesize = 4 * 1024, itd_entries = 128, itd_associativity = 4, itd_level = 1, itd_tlbtype = MEMTYPE_CODE\<rparr>,
    \<lparr>itd_descriptor = 0xb1, itd_pagesize = 2 * 1024 * 1024, itd_entries = 8, itd_associativity = 4, itd_level = 1, itd_tlbtype = MEMTYPE_CODE\<rparr>,
    \<lparr>itd_descriptor = 0xb2, itd_pagesize = 4 * 1024, itd_entries = 64, itd_associativity = 4, itd_level = 1, itd_tlbtype = MEMTYPE_CODE\<rparr>]"

definition intel_tlb_descriptors_1 :: "intel_tlb_descriptor list" where
  "intel_tlb_descriptors_1 = [
    \<lparr>itd_descriptor = 0xb3, itd_pagesize = 4 * 1024, itd_entries = 128, itd_associativity = 4, itd_level = 1, itd_tlbtype = MEMTYPE_DATA\<rparr>,
    \<lparr>itd_descriptor = 0xb4, itd_pagesize = 4 * 1024, itd_entries = 256, itd_associativity = 4, itd_level = 1, itd_tlbtype = MEMTYPE_DATA\<rparr>,
    \<lparr>itd_descriptor = 0xb5, itd_pagesize = 4 * 1024, itd_entries = 64, itd_associativity = 8, itd_level = 1, itd_tlbtype = MEMTYPE_CODE\<rparr>,
    \<lparr>itd_descriptor = 0xb6, itd_pagesize = 4 * 1024, itd_entries = 128, itd_associativity = 8, itd_level = 1, itd_tlbtype = MEMTYPE_CODE\<rparr>,
    \<lparr>itd_descriptor = 0xba, itd_pagesize = 4 * 1024, itd_entries = 64, itd_associativity = 4, itd_level = 1, itd_tlbtype = MEMTYPE_DATA\<rparr>,
    \<lparr>itd_descriptor = 0xc0, itd_pagesize = 4 * 1024, itd_entries = 8, itd_associativity = 4, itd_level = 1, itd_tlbtype = MEMTYPE_DATA\<rparr>,
    \<lparr>itd_descriptor = 0xc1, itd_pagesize = 4 * 1024, itd_entries = 1024, itd_associativity = 8, itd_level = 2, itd_tlbtype = MEMTYPE_UNIFIED\<rparr>,
    \<lparr>itd_descriptor = 0xc2, itd_pagesize = 4 * 1024, itd_entries = 16, itd_associativity = 4, itd_level = 1, itd_tlbtype = MEMTYPE_DATA\<rparr>,
    \<lparr>itd_descriptor = 0xc3, itd_pagesize = 4 * 1024, itd_entries = 1536, itd_associativity = 6, itd_level = 2, itd_tlbtype = MEMTYPE_UNIFIED\<rparr>,
    \<lparr>itd_descriptor = 0xc4, itd_pagesize = 4 * 1024, itd_entries = 32, itd_associativity = 4, itd_level = 1, itd_tlbtype = MEMTYPE_DATA\<rparr>,
    \<lparr>itd_descriptor = 0xca, itd_pagesize = 4 * 1024, itd_entries = 512, itd_associativity = 4, itd_level = 2, itd_tlbtype = MEMTYPE_DATA\<rparr>]"

definition intel_tlb_descriptors :: "intel_tlb_descriptor list" where
  "intel_tlb_descriptors = intel_tlb_descriptors_0 @ intel_tlb_descriptors_1"

definition intel_trace_descriptors :: "u32 list" where
  "intel_trace_descriptors = [0x70, 0x71, 0x72, 0x73]"

lemmas intel_cache_table = intel_cache_descriptors_def intel_cache_descriptors_0_def
  intel_cache_descriptors_1_def intel_cache_descriptors_2_def intel_cache_descriptors_3_def

lemmas intel_tlb_table = intel_tlb_descriptors_def intel_tlb_descriptors_0_def
  intel_tlb_descriptors_1_def

section \<open>Lookups\<close>

text \<open>
  Each lookup scans its table from index 0 and fills the caller's structure from the
  first row whose descriptor matches; \<open>-1\<close> is \<open>None\<close>.
\<close>

fun scan_cache :: "intel_cache_descriptor list \<Rightarrow> u32 \<Rightarrow> u32 \<Rightarrow> torque_memt option" where
  "scan_cache [] descriptor sharedways = None"
| "scan_cache (d # ds) descriptor sharedways =
     (if icd_descriptor d = descriptor then
        Some \<lparr>mem_totalsize = icd_totalsize d, mem_linesize = icd_linesize d,
              mem_associativity = icd_associativity d, mem_sharedways = sharedways,
              mem_memtype = icd_memtype d, mem_level = icd_level d\<rparr>
      else scan_cache ds descriptor sharedways)"

definition get_intel_cache :: "u32 \<Rightarrow> u32 \<Rightarrow> torque_memt option" where
  "get_intel_cache descriptor sharedways =
     scan_cache intel_cache_descriptors descriptor sharedways"

fun scan_tlb :: "intel_tlb_descriptor list \<Rightarrow> u32 \<Rightarrow> u32 \<Rightarrow> torque_tlbt option" where
  "scan_tlb [] descriptor sharedways = None"
| "scan_tlb (d # ds) descriptor sharedways =
     (if itd_descriptor d = descriptor then
        Some \<lparr>tlb_entries = itd_entries d, tlb_pagesize = itd_pagesize d,
              tlb_associativity = itd_associativity d, tlb_sharedways = sharedways,
              tlb_tlbtype = itd_tlbtype d, tlb_level = itd_level d\<rparr>
      else scan_tlb ds descriptor sharedways)"

definition get_intel_tlb :: "u32 \<Rightarrow> u32 \<Rightarrow> torque_tlbt option" where
  "get_intel_tlb descriptor sharedways = scan_tlb intel_tlb_descriptors descriptor sharedways"

fun scan_trace :: "u32 list \<Rightarrow> u32 \<Rightarrow> int" where
  "scan_trace [] descriptor = - 1"
| "scan_trace (d # ds) descriptor = (if d = descriptor then 0 else scan_trace ds descriptor)"

definition get_intel_trace :: "u32 \<Rightarrow> int" where
  "get_intel_trace descriptor = scan_trace intel_trace_descriptors descriptor"

section \<open>Facts about the tables\<close>

text \<open>
  A row is usable when its geometry is: a positive level, and a whole positive number
  of sets, that is, the size is a multiple of line size times associativity.
\<close>

definition cache_row_ok :: "intel_cache_descriptor \<Rightarrow> bool" where
  "cache_row_ok d \<longleftrightarrow>
     0 < icd_descriptor d \<and> icd_descriptor d < 256 \<and> 0 < icd_level d \<and> icd_level d \<le> 3 \<and>
     0 < icd_linesize d \<and> 0 < icd_associativity d \<and> 0 < icd_totalsize d \<and>
     unat (icd_totalsize d) mod (unat (icd_linesize d) * unat (icd_associativity d)) = 0 \<and>
     icd_memtype d \<noteq> MEMTYPE_UNKNOWN"

definition tlb_row_ok :: "intel_tlb_descriptor \<Rightarrow> bool" where
  "tlb_row_ok d \<longleftrightarrow>
     0 < itd_descriptor d \<and> itd_descriptor d < 256 \<and> 0 < itd_level d \<and> itd_level d \<le> 3 \<and>
     0 < itd_associativity d \<and> 0 < itd_entries d \<and>
     unat (itd_entries d) mod unat (itd_associativity d) = 0 \<and>
     4096 \<le> itd_pagesize d \<and> itd_tlbtype d \<noteq> MEMTYPE_UNKNOWN"

definition memt_ok :: "torque_memt \<Rightarrow> bool" where
  "memt_ok m \<longleftrightarrow> 0 < mem_totalsize m \<and> 0 < mem_linesize m \<and> 0 < mem_associativity m \<and>
     0 < mem_level m \<and> mem_memtype m \<noteq> MEMTYPE_UNKNOWN"

definition tlbt_ok :: "torque_tlbt \<Rightarrow> bool" where
  "tlbt_ok t \<longleftrightarrow> 0 < tlb_entries t \<and> 0 < tlb_pagesize t \<and> 0 < tlb_associativity t \<and>
     0 < tlb_level t \<and> tlb_tlbtype t \<noteq> MEMTYPE_UNKNOWN"

definition special_descriptors :: "u32 list" where
  "special_descriptors = [0x40, 0xf0, 0xf1, 0xff]"

lemma cache_rows_ok: "list_all cache_row_ok intel_cache_descriptors"
  by (simp add: intel_cache_table cache_row_ok_def)

lemma tlb_rows_ok: "list_all tlb_row_ok intel_tlb_descriptors"
  by (simp add: intel_tlb_table tlb_row_ok_def)

lemma cache_descriptors_increasing: "sorted_wrt (<) (map icd_descriptor intel_cache_descriptors)"
  by (simp add: intel_cache_table)

lemma tlb_descriptors_increasing: "sorted_wrt (<) (map itd_descriptor intel_tlb_descriptors)"
  by (simp add: intel_tlb_table)

lemma scan_cache_Some:
  "scan_cache ds d w = Some m \<Longrightarrow>
     \<exists>r\<in>set ds. icd_descriptor r = d \<and> mem_sharedways m = w \<and>
       mem_totalsize m = icd_totalsize r \<and> mem_linesize m = icd_linesize r \<and>
       mem_associativity m = icd_associativity r \<and> mem_memtype m = icd_memtype r \<and>
       mem_level m = icd_level r"
  by (induction ds) (auto split: if_splits)

lemma scan_cache_None: "scan_cache ds d w = None \<longleftrightarrow> d \<notin> icd_descriptor ` set ds"
  by (induction ds) auto

lemma scan_tlb_Some:
  "scan_tlb ds d w = Some t \<Longrightarrow>
     \<exists>r\<in>set ds. itd_descriptor r = d \<and> tlb_sharedways t = w \<and>
       tlb_pagesize t = itd_pagesize r \<and> tlb_entries t = itd_entries r \<and>
       tlb_associativity t = itd_associativity r \<and> tlb_tlbtype t = itd_tlbtype r \<and>
       tlb_level t = itd_level r"
  by (induction ds) (auto split: if_splits)

lemma scan_tlb_None: "scan_tlb ds d w = None \<longleftrightarrow> d \<notin> itd_descriptor ` set ds"
  by (induction ds) auto

lemma scan_trace_cases: "scan_trace ds d = (if d \<in> set ds then 0 else - 1)"
  by (induction ds) auto

lemma get_intel_cache_ok: "get_intel_cache d w = Some m \<Longrightarrow> memt_ok m \<and> mem_sharedways m = w"
  using cache_rows_ok
  by (auto simp: get_intel_cache_def memt_ok_def cache_row_ok_def list_all_iff
      dest!: scan_cache_Some)

lemma get_intel_tlb_ok: "get_intel_tlb d w = Some t \<Longrightarrow> tlbt_ok t \<and> tlb_sharedways t = w"
proof -
  assume "get_intel_tlb d w = Some t"
  then obtain r where "r \<in> set intel_tlb_descriptors" "tlb_sharedways t = w"
    "tlb_pagesize t = itd_pagesize r" "tlb_entries t = itd_entries r"
    "tlb_associativity t = itd_associativity r" "tlb_tlbtype t = itd_tlbtype r"
    "tlb_level t = itd_level r"
    by (auto simp: get_intel_tlb_def dest!: scan_tlb_Some)
  moreover from this(1) have "tlb_row_ok r" using tlb_rows_ok by (simp add: list_all_iff)
  moreover have "0 < x" if "4096 \<le> x" for x :: u32
    using that by unat_arith
  ultimately show ?thesis by (auto simp: tlbt_ok_def tlb_row_ok_def)
qed

text \<open>
  Fact: the tables are consistent. Descriptors increase strictly within each
  table, so a lookup finds the only row there is, and no descriptor is listed in two
  tables or is one of the codes handled apart (0x40, 0xf0, 0xf1, 0xff); the order of
  the tests in \<open>decode_intel_func2\<close> therefore cannot matter. Every row describes a
  memory or a TLB with a whole positive number of sets.
\<close>

theorem intel_tables_consistent:
  "sorted_wrt (<) (map icd_descriptor intel_cache_descriptors) \<and>
   sorted_wrt (<) (map itd_descriptor intel_tlb_descriptors) \<and>
   distinct (map icd_descriptor intel_cache_descriptors @ map itd_descriptor intel_tlb_descriptors
     @ intel_trace_descriptors @ special_descriptors) \<and>
   list_all cache_row_ok intel_cache_descriptors \<and> list_all tlb_row_ok intel_tlb_descriptors"
proof -
  have "distinct (map icd_descriptor intel_cache_descriptors @
     map itd_descriptor intel_tlb_descriptors @ intel_trace_descriptors @ special_descriptors)"
    by (simp add: intel_cache_table intel_tlb_table intel_trace_descriptors_def
        special_descriptors_def)
  then show ?thesis
    using cache_descriptors_increasing tlb_descriptors_increasing cache_rows_ok tlb_rows_ok
    by blast
qed

end
