(* ===== verification/Cpu_Arrays.thy ===== *)
theory Cpu_Arrays
  imports Intel_Descriptors
begin

text \<open>
  The sorted descriptor arrays of a processor (\<open>memdescs\<close>, \<open>tlbdescs\<close>): the two
  comparison functions, the two insertions and the linear search, from
  \<^verbatim>\<open>src/src/libtorque/hardware/x86cpuid.c\<close>, with the invariant every processor
  description keeps.
\<close>

section \<open>Comparison and insertion\<close>

definition compare_memdetails :: "torque_memt \<Rightarrow> torque_memt \<Rightarrow> int" where
  "compare_memdetails a b =
     cmp_then (cmp_key (mem_level a) (mem_level b))
       (cmp_then (cmp_key (mem_memtype a) (mem_memtype b))
         (cmp_then (cmp_key (mem_totalsize a) (mem_totalsize b))
           (cmp_then (cmp_key (mem_linesize a) (mem_linesize b))
             (cmp_key (mem_associativity a) (mem_associativity b)))))"

definition add_hwmem ::
  "nat \<Rightarrow> torque_memt list \<Rightarrow> torque_memt \<Rightarrow> sysst \<Rightarrow>
     nat option \<times> nat \<times> torque_memt list \<times> sysst" where
  "add_hwmem memories mems amem s =
     (case sys_alloc (Sys_realloc ''memdescs'') s of
        (ok, s') \<Rightarrow>
          if \<not> ok then (None, memories, mems, s')
          else
            (case array_insert compare_memdetails memories amem mems of
               (slot, mems') \<Rightarrow> (Some slot, memories + 1, mems', s')))"

definition compare_tlbdetails :: "torque_tlbt \<Rightarrow> torque_tlbt \<Rightarrow> int" where
  "compare_tlbdetails a b =
     cmp_then (cmp_key (tlb_level a) (tlb_level b))
       (cmp_then (cmp_key (tlb_tlbtype a) (tlb_tlbtype b))
         (cmp_then (cmp_key (tlb_pagesize a) (tlb_pagesize b))
           (cmp_then (cmp_key (tlb_entries a) (tlb_entries b))
             (cmp_key (tlb_associativity a) (tlb_associativity b)))))"

definition add_tlb ::
  "nat \<Rightarrow> torque_tlbt list \<Rightarrow> torque_tlbt \<Rightarrow> sysst \<Rightarrow>
     nat option \<times> nat \<times> torque_tlbt list \<times> sysst" where
  "add_tlb tlbs tlbdescs tlb s =
     (case sys_alloc (Sys_realloc ''tlbdescs'') s of
        (ok, s') \<Rightarrow>
          if \<not> ok then (None, tlbs, tlbdescs, s')
          else
            (case array_insert compare_tlbdetails tlbs tlb tlbdescs of
               (slot, tlbdescs') \<Rightarrow> (Some slot, tlbs + 1, tlbdescs', s')))"

text \<open>\<open>match_memtype\<close> returns the index of the first equal slot below \<open>memtc\<close>.\<close>

fun match_from :: "('a \<Rightarrow> bool) \<Rightarrow> nat \<Rightarrow> nat \<Rightarrow> 'a list \<Rightarrow> nat option" where
  "match_from p n k [] = None"
| "match_from p n k (x # xs) =
     (if k < n then if p x then Some k else match_from p n (Suc k) xs else None)"

definition match_memtype :: "nat \<Rightarrow> torque_memt list \<Rightarrow> torque_memt \<Rightarrow> nat option" where
  "match_memtype memtc types amem =
     match_from (\<lambda>m. compare_memdetails m amem = 0) memtc 0 types"

text \<open>The two insertions as the detection code calls them, on the processor's fields.\<close>

definition cpu_add_hwmem :: "torque_cput \<Rightarrow> torque_memt \<Rightarrow> sysst \<Rightarrow> bool \<times> torque_cput \<times> sysst" where
  "cpu_add_hwmem cpu amem s =
     (case add_hwmem (cpu_memories cpu) (cpu_memdescs cpu) amem s of
        (r, n, mems, s') \<Rightarrow> (r \<noteq> None, cpu\<lparr>cpu_memories := n, cpu_memdescs := mems\<rparr>, s'))"

definition cpu_add_tlb :: "torque_cput \<Rightarrow> torque_tlbt \<Rightarrow> sysst \<Rightarrow> bool \<times> torque_cput \<times> sysst" where
  "cpu_add_tlb cpu tlb s =
     (case add_tlb (cpu_tlbs cpu) (cpu_tlbdescs cpu) tlb s of
        (r, n, tlbs, s') \<Rightarrow> (r \<noteq> None, cpu\<lparr>cpu_tlbs := n, cpu_tlbdescs := tlbs\<rparr>, s'))"

text \<open>
  The invariant: the counts agree with the arrays and both arrays are ordered by
  their comparison function.
\<close>

definition cput_wf :: "torque_cput \<Rightarrow> bool" where
  "cput_wf cpu \<longleftrightarrow>
     cpu_memories cpu = length (cpu_memdescs cpu) \<and> cpu_tlbs cpu = length (cpu_tlbdescs cpu) \<and>
     cmp_sorted compare_memdetails (cpu_memdescs cpu) \<and>
     cmp_sorted compare_tlbdetails (cpu_tlbdescs cpu)"

section \<open>The comparison functions meet the contract\<close>

definition mem_key :: "torque_memt \<Rightarrow> u32 \<times> torque_memtypet \<times> u64 \<times> u32 \<times> u32" where
  "mem_key m = (mem_level m, mem_memtype m, mem_totalsize m, mem_linesize m, mem_associativity m)"

definition tlb_key :: "torque_tlbt \<Rightarrow> u32 \<times> torque_memtypet \<times> u32 \<times> u32 \<times> u32" where
  "tlb_key t = (tlb_level t, tlb_tlbtype t, tlb_pagesize t, tlb_entries t, tlb_associativity t)"

lemma compare_memdetails_key: "compare_memdetails = (\<lambda>a b. cmp_key (mem_key a) (mem_key b))"
  by (simp add: fun_eq_iff compare_memdetails_def mem_key_def cmp_then_key)

lemma compare_tlbdetails_key: "compare_tlbdetails = (\<lambda>a b. cmp_key (tlb_key a) (tlb_key b))"
  by (simp add: fun_eq_iff compare_tlbdetails_def tlb_key_def cmp_then_key)

interpretation memcmp: comparator compare_memdetails
  unfolding compare_memdetails_key by (rule comparator_cmp_key)

interpretation tlbcmp: comparator compare_tlbdetails
  unfolding compare_tlbdetails_key by (rule comparator_cmp_key)

section \<open>Insertion and search\<close>

lemma match_from_Some:
  "match_from p n k xs = Some i \<Longrightarrow> k \<le> i \<and> i < n \<and> i - k < length xs \<and> p (xs ! (i - k))"
proof (induction xs arbitrary: k)
  case Nil
  then show ?case by simp
next
  case (Cons x xs)
  show ?case
  proof (cases "k < n \<and> p x")
    case True
    then show ?thesis using Cons.prems by simp
  next
    case False
    then have "match_from p n (Suc k) xs = Some i"
      using Cons.prems by (auto split: if_splits)
    from Cons.IH [OF this] have "i - k = Suc (i - Suc k)" and "k < i" by auto
    with Cons.IH [OF \<open>match_from p n (Suc k) xs = Some i\<close>] show ?thesis by simp
  qed
qed

lemma match_from_None:
  "k + length xs \<le> n \<Longrightarrow> match_from p n k xs = None \<longleftrightarrow> (\<forall>x\<in>set xs. \<not> p x)"
  by (induction xs arbitrary: k) auto

lemma add_hwmem_eq:
  assumes "add_hwmem (length mems) mems m s = (r, n, mems', s')"
  shows "(r = None \<and> n = length mems \<and> mems' = mems) \<or>
    (r = Some (cmp_pos compare_memdetails m mems) \<and> n = length mems' \<and>
     mems' = cmp_insert compare_memdetails m mems)"
  using assms by (auto simp: add_hwmem_def array_insert_eq split: prod.splits if_splits)

lemma add_tlb_eq:
  assumes "add_tlb (length ts) ts t s = (r, n, ts', s')"
  shows "(r = None \<and> n = length ts \<and> ts' = ts) \<or>
    (r = Some (cmp_pos compare_tlbdetails t ts) \<and> n = length ts' \<and>
     ts' = cmp_insert compare_tlbdetails t ts)"
  using assms by (auto simp: add_tlb_def array_insert_eq split: prod.splits if_splits)

lemma cpu_add_hwmem_eq:
  "cput_wf cpu \<Longrightarrow> cpu_add_hwmem cpu m s = (ok, cpu', s') \<Longrightarrow>
   cpu' = (if ok then cpu\<lparr>cpu_memories := Suc (cpu_memories cpu),
      cpu_memdescs := cmp_insert compare_memdetails m (cpu_memdescs cpu)\<rparr> else cpu)"
  by (auto simp: cpu_add_hwmem_def cput_wf_def split: prod.splits dest!: add_hwmem_eq)

lemma cpu_add_tlb_eq:
  "cput_wf cpu \<Longrightarrow> cpu_add_tlb cpu t s = (ok, cpu', s') \<Longrightarrow>
   cpu' = (if ok then cpu\<lparr>cpu_tlbs := Suc (cpu_tlbs cpu),
      cpu_tlbdescs := cmp_insert compare_tlbdetails t (cpu_tlbdescs cpu)\<rparr> else cpu)"
  by (auto simp: cpu_add_tlb_def cput_wf_def split: prod.splits dest!: add_tlb_eq)

lemma cpu_add_hwmem_wf [inv_intros]:
  "cput_wf cpu \<Longrightarrow> cpu_add_hwmem cpu m s = (ok, cpu', s') \<Longrightarrow> cput_wf cpu'"
  by (frule (1) cpu_add_hwmem_eq) (auto simp: cput_wf_def memcmp.insert_ordered)

lemma cpu_add_tlb_wf [inv_intros]:
  "cput_wf cpu \<Longrightarrow> cpu_add_tlb cpu t s = (ok, cpu', s') \<Longrightarrow> cput_wf cpu'"
  by (frule (1) cpu_add_tlb_eq) (auto simp: cput_wf_def tlbcmp.insert_ordered)

section \<open>Properties\<close>

text \<open>
  Property C32: insertion into the sorted descriptor arrays. Of a well-formed processor,
  \<open>add_hwmem\<close> and \<open>add_tlb\<close> either fail and leave the array as it was, or return the slot
  of the new element, in an array that is ordered, holds exactly one element more, and
  in which the new element stands after every element that compares equal or less and
  before every greater one.
\<close>

theorem sorted_insertion:
  assumes "cput_wf cpu"
    and "add_hwmem (cpu_memories cpu) (cpu_memdescs cpu) m s = (r, n, mems, s1)"
    and "add_tlb (cpu_tlbs cpu) (cpu_tlbdescs cpu) t s1 = (q, k, tlbs, s2)"
  shows "inserted compare_memdetails m (cpu_memdescs cpu) r n mems \<and>
    inserted compare_tlbdetails t (cpu_tlbdescs cpu) q k tlbs"
  using assms add_hwmem_eq [of "cpu_memdescs cpu" m s r n mems s1]
    add_tlb_eq [of "cpu_tlbdescs cpu" t s1 q k tlbs s2]
  by (simp add: cput_wf_def memcmp.insertion_meets tlbcmp.insertion_meets)

theorem sorted_insertion_witness:
  "let m = \<lparr>mem_totalsize = 64, mem_linesize = 64, mem_associativity = 1, mem_sharedways = 1,
        mem_memtype = MEMTYPE_DATA, mem_level = 1\<rparr>;
       t = \<lparr>tlb_entries = 64, tlb_pagesize = 4096, tlb_associativity = 4, tlb_sharedways = 1,
        tlb_tlbtype = MEMTYPE_DATA, tlb_level = 1\<rparr>
   in inserted compare_memdetails m [] (Some 0) 1 [m] \<and> inserted compare_tlbdetails t [] (Some 0) 1 [t]"
  using sorted_insertion [of zero_cput
      "\<lparr>mem_totalsize = 64, mem_linesize = 64, mem_associativity = 1, mem_sharedways = 1,
        mem_memtype = MEMTYPE_DATA, mem_level = 1\<rparr>" "os_answering [ok_ret, ok_ret]" "Some 0" 1
      "[\<lparr>mem_totalsize = 64, mem_linesize = 64, mem_associativity = 1, mem_sharedways = 1,
        mem_memtype = MEMTYPE_DATA, mem_level = 1\<rparr>]" _
      "\<lparr>tlb_entries = 64, tlb_pagesize = 4096, tlb_associativity = 4, tlb_sharedways = 1,
        tlb_tlbtype = MEMTYPE_DATA, tlb_level = 1\<rparr>" "Some 0" 1
      "[\<lparr>tlb_entries = 64, tlb_pagesize = 4096, tlb_associativity = 4, tlb_sharedways = 1,
        tlb_tlbtype = MEMTYPE_DATA, tlb_level = 1\<rparr>]"]
  by (simp add: cput_wf_def zero_cput_def add_hwmem_def add_tlb_def io_simps array_insert_def
      shift_loop.simps realloc_slots_def)

end
