(* ===== verification/X86_Intel.thy ===== *)
theory X86_Intel
  imports Cpu_Arrays
begin

text \<open>
  The CPUID interface of \<^verbatim>\<open>src/src/libtorque/hardware/x86cpuid.c\<close> and the detection of
  Intel caches and TLBs: the descriptor bytes of function 2
  (\<open>decode_intel_func2\<close>, \<open>id_intel_caches_old\<close>) and the deterministic parameters of
  function 4 (\<open>id_intel_caches\<close>).

  The instruction is a parameter: a function from leaf and subleaf to the four
  registers. A detection routine returns its C result with the updated processor and
  system state; where the C code can run forever or divide by zero the result is an
  option and \<open>None\<close> means that the call does not return.
\<close>

section \<open>The instruction\<close>

record gpregs =
  eax :: u32
  ebx :: u32
  ecx :: u32
  edx :: u32

type_synonym cpuid_fn = "u32 \<Rightarrow> u32 \<Rightarrow> gpregs"

definition regs_list :: "gpregs \<Rightarrow> u32 list" where
  "regs_list g = [eax g, ebx g, ecx g, edx g]"

definition CPUID_MAX_SUPPORT :: u32 where [simp]: "CPUID_MAX_SUPPORT = 0x00000000"
definition CPUID_CPU_VERSION :: u32 where [simp]: "CPUID_CPU_VERSION = 0x00000001"
definition CPUID_STANDARD_CPUCONF :: u32 where [simp]: "CPUID_STANDARD_CPUCONF = 0x00000002"
definition CPUID_STANDARD_CACHECONF :: u32 where [simp]: "CPUID_STANDARD_CACHECONF = 0x00000004"
definition CPUID_STANDARD_TOPOLOGY :: u32 where [simp]: "CPUID_STANDARD_TOPOLOGY = 0x0000000b"
definition CPUID_EXTENDED_MAX_SUPPORT :: u32 where
  [simp]: "CPUID_EXTENDED_MAX_SUPPORT = 0x80000000"
definition CPUID_EXTENDED_CPU_VERSION :: u32 where
  [simp]: "CPUID_EXTENDED_CPU_VERSION = 0x80000001"
definition CPUID_EXTENDED_CPU_NAME1 :: u32 where [simp]: "CPUID_EXTENDED_CPU_NAME1 = 0x80000002"
definition CPUID_EXTENDED_CPU_NAME2 :: u32 where [simp]: "CPUID_EXTENDED_CPU_NAME2 = 0x80000003"
definition CPUID_EXTENDED_CPU_NAME3 :: u32 where [simp]: "CPUID_EXTENDED_CPU_NAME3 = 0x80000004"
definition CPUID_AMD_L1CACHE_TLB :: u32 where [simp]: "CPUID_AMD_L1CACHE_TLB = 0x80000005"
definition CPUID_EXTENDED_L23CACHE_TLB :: u32 where
  [simp]: "CPUID_EXTENDED_L23CACHE_TLB = 0x80000006"
definition CPUID_EXTENDED_LMADDRICORE :: u32 where
  [simp]: "CPUID_EXTENDED_LMADDRICORE = 0x80000008"
definition CPUID_EXTENDED_GBTLB :: u32 where [simp]: "CPUID_EXTENDED_GBTLB = 0x80000019"

record feature_flags =
  ff_dca :: bool
  ff_x2apic :: bool
  ff_pse :: bool
  ff_pae :: bool
  ff_pse36 :: bool
  ff_ht :: bool
  ff_gbpt :: bool
  ff_lme :: bool

definition identify_extended_cpuid :: "cpuid_fn \<Rightarrow> u32" where
  "identify_extended_cpuid cpuid = eax (cpuid CPUID_EXTENDED_MAX_SUPPORT 0)"

section \<open>Function 2: descriptor bytes\<close>

definition func2_descriptor :: "torque_cput \<Rightarrow> u32 \<Rightarrow> sysst \<Rightarrow> int \<times> torque_cput \<times> sysst" where
  "func2_descriptor cpu descriptor s =
     (case get_intel_cache descriptor (cpu_threadspercore cpu) of
        Some mem \<Rightarrow>
          (case match_memtype (cpu_memories cpu) (cpu_memdescs cpu) mem of
             Some _ \<Rightarrow> (0, cpu, s)
           | None \<Rightarrow>
               (case cpu_add_hwmem cpu mem s of
                  (ok, cpu', s') \<Rightarrow> (if ok then 0 else - 1, cpu', s')))
      | None \<Rightarrow>
          (case get_intel_tlb descriptor (cpu_threadspercore cpu) of
             Some tlb \<Rightarrow>
               (case cpu_add_tlb cpu tlb s of
                  (ok, cpu', s') \<Rightarrow> (if ok then 0 else - 1, cpu', s'))
           | None \<Rightarrow>
               if get_intel_trace descriptor = 0 then (0, cpu, s)
               else if descriptor = 0xf0 then (0, cpu, s)
               else if descriptor = 0xf1 then (0, cpu, s)
               else if descriptor = 0x40 then (0, cpu, s)
               else if descriptor = 0xff then (0, cpu, s)
               else (- 1, cpu, s)))"

function func2_bytes_loop ::
  "nat \<Rightarrow> u32 \<Rightarrow> nat \<Rightarrow> u32 \<Rightarrow> torque_cput \<Rightarrow> sysst \<Rightarrow> int \<times> torque_cput \<times> sysst" where
  "func2_bytes_loop z gpreg y msk cpu s =
     (if y < 4 then
        let descriptor = drop_bit ((3 - y) * 8) (gpreg AND msk) in
        case (if descriptor \<noteq> 0 then func2_descriptor cpu descriptor s else (0, cpu, s)) of
          (ret, cpu', s') \<Rightarrow>
            if ret \<noteq> 0 then (ret, cpu', s')
            else
              let msk' = drop_bit 8 msk in
              if msk' = 0x000000ff \<and> z = 0 then (0, cpu', s')
              else func2_bytes_loop z gpreg (y + 1) msk' cpu' s'
      else (0, cpu, s))"
  by pat_completeness auto
termination
  by (relation "measure (\<lambda>(z, gpreg, y, msk, cpu, s). 4 - y)") auto

declare func2_bytes_loop.simps [simp del]

fun func2_regs_loop ::
  "nat \<Rightarrow> u32 list \<Rightarrow> torque_cput \<Rightarrow> sysst \<Rightarrow> int \<times> torque_cput \<times> sysst" where
  "func2_regs_loop z [] cpu s = (0, cpu, s)"
| "func2_regs_loop z (gpreg # gpregs) cpu s =
     (if gpreg AND 0x80000000 \<noteq> 0 then func2_regs_loop (Suc z) gpregs cpu s
      else
        (case func2_bytes_loop z gpreg 0 0xff000000 cpu s of
           (ret, cpu', s') \<Rightarrow>
             if ret \<noteq> 0 then (ret, cpu', s')
             else func2_regs_loop (Suc z) gpregs cpu' s'))"

definition decode_intel_func2 ::
  "torque_cput \<Rightarrow> gpregs \<Rightarrow> sysst \<Rightarrow> int \<times> torque_cput \<times> sysst" where
  "decode_intel_func2 cpu g s = func2_regs_loop 0 (regs_list g) cpu s"

function func2_calls ::
  "cpuid_fn \<Rightarrow> u32 \<Rightarrow> gpregs \<Rightarrow> torque_cput \<Rightarrow> sysst \<Rightarrow> int \<times> torque_cput \<times> sysst" where
  "func2_calls cpuid callreps g cpu s =
     (case decode_intel_func2 cpu g s of
        (ret, cpu', s') \<Rightarrow>
          if ret \<noteq> 0 then (ret, cpu', s')
          else if callreps - 1 = 0 then (ret, cpu', s')
          else func2_calls cpuid (callreps - 1) (cpuid CPUID_STANDARD_CPUCONF 0) cpu' s')"
  by pat_completeness auto
termination
  by (relation "measure (\<lambda>(cpuid, callreps, g, cpu, s). unat (callreps - 1))")
    (auto simp: unat_pred_pred_less)

declare func2_calls.simps [simp del]

definition id_intel_caches_old ::
  "cpuid_fn \<Rightarrow> u32 \<Rightarrow> torque_cput \<Rightarrow> sysst \<Rightarrow> int \<times> torque_cput \<times> sysst" where
  "id_intel_caches_old cpuid maxlevel cpu s =
     (if maxlevel < CPUID_STANDARD_CPUCONF then (- 1, cpu, s)
      else
        let g = cpuid CPUID_STANDARD_CPUCONF 0; callreps = eax g AND 0x000000ff in
        if callreps \<noteq> 1 then (- 1, cpu, s) else func2_calls cpuid callreps g cpu s)"

section \<open>Function 4: deterministic cache parameters\<close>

text \<open>One valid entry whose level is the one being collected.\<close>

definition func4_mem :: "gpregs \<Rightarrow> torque_memtypet \<Rightarrow> u32 \<Rightarrow> torque_memt" where
  "func4_mem g mtype lev =
     (let linesize = (ebx g AND 0xfff) + 1;
          associativity =
            (if eax g AND 0x200 \<noteq> 0 then 1 else (drop_bit 22 (ebx g) AND 0x3ff) + 1)
      in \<lparr>mem_totalsize =
            ucast (associativity * ((drop_bit 12 (ebx g) AND 0x1ff) + 1) * linesize * (ecx g + 1)),
          mem_linesize = linesize, mem_associativity = associativity,
          mem_sharedways = (drop_bit 14 (eax g) AND 0xfff) + 1,
          mem_memtype = mtype, mem_level = lev\<rparr>)"

definition func4_cores :: "u32 \<Rightarrow> u32 \<Rightarrow> torque_cput \<Rightarrow> (int \<times> torque_cput) option" where
  "func4_cores maxlevel cpp cpu =
     (if cpp = 0 then Some (- 1, cpu)
      else if cpu_coresperpackage cpu = 0 then
        (if maxlevel < CPUID_STANDARD_TOPOLOGY then
           let cpu' = cpu\<lparr>cpu_threadspercore := cpu_threadspercore cpu div cpp\<rparr> in
           if cpu_threadspercore cpu' = 0 then Some (- 1, cpu')
           else Some (0, cpu'\<lparr>cpu_coresperpackage := cpp\<rparr>)
         else Some (0, cpu\<lparr>cpu_coresperpackage := cpp\<rparr>))
      else if cpu_threadspercore cpu = 0 then None \<comment> \<open>division by zero\<close>
      else if cpu_coresperpackage cpu div cpu_threadspercore cpu > cpp then Some (- 1, cpu)
      else Some (0, cpu))"

definition func4_entry ::
  "u32 \<Rightarrow> gpregs \<Rightarrow> torque_memtypet \<Rightarrow> u32 \<Rightarrow> torque_cput \<Rightarrow> sysst \<Rightarrow>
     (int \<times> torque_cput \<times> sysst) option" where
  "func4_entry maxlevel g mtype lev cpu s =
     (let mem = func4_mem g mtype lev; cpp = (drop_bit 26 (eax g) AND 0x3f) + 1 in
      case func4_cores maxlevel cpp cpu of
        None \<Rightarrow> None
      | Some (ret, cpu') \<Rightarrow>
          if ret \<noteq> 0 then Some (ret, cpu', s)
          else
            let mem' = (if mem_sharedways mem < cpu_threadspercore cpu'
                        then mem\<lparr>mem_sharedways := cpu_threadspercore cpu'\<rparr> else mem)
            in case cpu_add_hwmem cpu' mem' s of
                 (ok, cpu'', s'') \<Rightarrow> Some (if ok then 0 else - 1, cpu'', s''))"

definition func4_type :: "gpregs \<Rightarrow> u32" where
  "func4_type g = eax g AND 0x1f"

definition func4_level :: "gpregs \<Rightarrow> u32" where
  "func4_level g = drop_bit 5 (eax g) AND 0x7"

fun cachet_memtype :: "u32 \<Rightarrow> torque_memtypet option" where
  "cachet_memtype t =
     (if t = 1 then Some MEMTYPE_DATA
      else if t = 2 then Some MEMTYPE_CODE
      else if t = 3 then Some MEMTYPE_UNIFIED
      else None)"

text \<open>
  The inner loop enumerates subleaves from \<open>n\<close> until a null type, recording the
  greatest level seen and keeping the entries of the current level.
\<close>

partial_function (option) func4_inner ::
  "cpuid_fn \<Rightarrow> u32 \<Rightarrow> u32 \<Rightarrow> u32 \<Rightarrow> u32 \<Rightarrow> torque_cput \<Rightarrow> sysst \<Rightarrow>
     (int \<times> u32 \<times> torque_cput \<times> sysst) option" where
  "func4_inner cpuid maxlevel level n maxdc cpu s =
     (let g = cpuid CPUID_STANDARD_CACHECONF n; lev = func4_level g; cachet = func4_type g in
      case cachet_memtype cachet of
        None \<Rightarrow> if cachet = 0 then Some (0, maxdc, cpu, s) else Some (- 1, maxdc, cpu, s)
      | Some mtype \<Rightarrow>
          let maxdc' = (if lev > maxdc then lev else maxdc) in
          if lev \<noteq> level then func4_inner cpuid maxlevel level (n + 1) maxdc' cpu s
          else
            (case func4_entry maxlevel g mtype lev cpu s of
               None \<Rightarrow> None
             | Some (ret, cpu', s') \<Rightarrow>
                 if ret \<noteq> 0 then Some (ret, maxdc', cpu', s')
                 else func4_inner cpuid maxlevel level (n + 1) maxdc' cpu' s'))"

partial_function (option) func4_outer ::
  "cpuid_fn \<Rightarrow> u32 \<Rightarrow> u32 \<Rightarrow> u32 \<Rightarrow> torque_cput \<Rightarrow> sysst \<Rightarrow>
     (int \<times> torque_cput \<times> sysst) option" where
  "func4_outer cpuid maxlevel level maxdc cpu s =
     (case func4_inner cpuid maxlevel level 0 maxdc cpu s of
        None \<Rightarrow> None
      | Some (ret, maxdc', cpu', s') \<Rightarrow>
          if ret \<noteq> 0 then Some (ret, cpu', s')
          else if level + 1 \<le> maxdc' then func4_outer cpuid maxlevel (level + 1) maxdc' cpu' s'
          else Some (0, cpu', s'))"

declare func4_inner.simps [code] func4_outer.simps [code]

definition id_intel_caches ::
  "cpuid_fn \<Rightarrow> u32 \<Rightarrow> feature_flags \<Rightarrow> torque_cput \<Rightarrow> sysst \<Rightarrow>
     (int \<times> torque_cput \<times> sysst) option" where
  "id_intel_caches cpuid maxlevel ff cpu s =
     (if maxlevel < CPUID_STANDARD_CACHECONF then
        Some (id_intel_caches_old cpuid maxlevel (cpu\<lparr>cpu_coresperpackage := 1\<rparr>) s)
      else
        (case func4_outer cpuid maxlevel 1 1 cpu s of
           None \<Rightarrow> None
         | Some (ret, cpu', s') \<Rightarrow>
             if ret \<noteq> 0 then Some (ret, cpu', s')
             else Some (id_intel_caches_old cpuid maxlevel cpu' s')))"

section \<open>Function 2 against a reference\<close>

text \<open>
  The reference takes the descriptor bytes of a register from the most significant
  down, unless bit 31 says that the register holds none, and leaves out the low byte of
  EAX (the repeat count) and the null descriptors. The bytes are then handled in order
  until one fails.
\<close>

definition reg_descriptors :: "nat \<Rightarrow> u32 \<Rightarrow> u32 list" where
  "reg_descriptors z w =
     (if bit w 31 then []
      else filter (\<lambda>d. d \<noteq> 0)
        (map (\<lambda>i. drop_bit (8 * i) w AND 0xff) (if z = 0 then [3, 2, 1] else [3, 2, 1, 0])))"

fun regs_descriptors :: "nat \<Rightarrow> u32 list \<Rightarrow> u32 list" where
  "regs_descriptors z [] = []"
| "regs_descriptors z (w # ws) = reg_descriptors z w @ regs_descriptors (Suc z) ws"

definition func2_descriptors :: "gpregs \<Rightarrow> u32 list" where
  "func2_descriptors g = regs_descriptors 0 (regs_list g)"

fun run_descriptors :: "u32 list \<Rightarrow> torque_cput \<Rightarrow> sysst \<Rightarrow> int \<times> torque_cput \<times> sysst" where
  "run_descriptors [] cpu s = (0, cpu, s)"
| "run_descriptors (d # ds) cpu s =
     (case func2_descriptor cpu d s of
        (ret, cpu', s') \<Rightarrow>
          if ret \<noteq> 0 then (ret, cpu', s') else run_descriptors ds cpu' s')"

lemma run_descriptors_append:
  "run_descriptors (ds @ es) cpu s =
     (case run_descriptors ds cpu s of
        (ret, cpu', s') \<Rightarrow> if ret \<noteq> 0 then (ret, cpu', s') else run_descriptors es cpu' s')"
  by (induction ds arbitrary: cpu s) (auto split: prod.splits)

lemma run_nonnull_Cons:
  "run_descriptors (filter (\<lambda>d. d \<noteq> 0) (d # ds)) cpu s =
     (case (if d \<noteq> 0 then func2_descriptor cpu d s else (0, cpu, s)) of
        (ret, cpu', s') \<Rightarrow>
          if ret \<noteq> 0 then (ret, cpu', s')
          else run_descriptors (filter (\<lambda>d. d \<noteq> 0) ds) cpu' s')"
  by simp

lemma bit_31_and: "(w :: u32) AND 0x80000000 \<noteq> 0 \<longleftrightarrow> bit w 31"
proof -
  have "(0x80000000 :: u32) = push_bit 31 1" by simp
  then show ?thesis by (simp only: bit_iff_and_push_bit_not_eq_0)
qed

lemma func2_bytes_step:
  assumes "y < 4" "d = drop_bit ((3 - y) * 8) (w AND msk)"
    and "if drop_bit 8 msk = 0xff \<and> z = 0 then rest = []
      else \<forall>cpu s. func2_bytes_loop z w (y + 1) (drop_bit 8 msk) cpu s =
        run_descriptors (filter (\<lambda>d. d \<noteq> 0) rest) cpu s"
  shows "func2_bytes_loop z w y msk cpu s =
    run_descriptors (filter (\<lambda>d. d \<noteq> 0) (d # rest)) cpu s"
  using assms
  by (subst func2_bytes_loop.simps, subst run_nonnull_Cons)
    (simp add: Let_def split: prod.split if_splits del: filter.simps)

lemma func2_byte_0:
  "z \<noteq> 0 \<Longrightarrow> func2_bytes_loop z w 3 0xff cpu s =
     run_descriptors (filter (\<lambda>d. d \<noteq> 0) [w AND 0xff]) cpu s"
  by (rule func2_bytes_step) (simp_all add: func2_bytes_loop.simps [of _ _ 4])

lemma func2_byte_1:
  "func2_bytes_loop z w 2 0xff00 cpu s =
     run_descriptors (filter (\<lambda>d. d \<noteq> 0)
       ((drop_bit 8 w AND 0xff) # (if z = 0 then [] else [w AND 0xff]))) cpu s"
  by (rule func2_bytes_step) (simp_all add: func2_byte_0 del: filter.simps)

lemma func2_byte_2:
  "func2_bytes_loop z w 1 0xff0000 cpu s =
     run_descriptors (filter (\<lambda>d. d \<noteq> 0)
       ((drop_bit 16 w AND 0xff) # (drop_bit 8 w AND 0xff) #
        (if z = 0 then [] else [w AND 0xff]))) cpu s"
  by (rule func2_bytes_step) (simp_all add: func2_byte_1 [unfolded numeral_2_eq_2] del: filter.simps)

lemma func2_bytes_loop_eq:
  assumes "\<not> bit w 31"
  shows "func2_bytes_loop z w 0 0xff000000 cpu s = run_descriptors (reg_descriptors z w) cpu s"
proof -
  have "func2_bytes_loop z w 0 0xff000000 cpu s =
    run_descriptors (filter (\<lambda>d. d \<noteq> 0) ((drop_bit 24 w AND 0xff) #
      (drop_bit 16 w AND 0xff) # (drop_bit 8 w AND 0xff) #
      (if z = 0 then [] else [w AND 0xff]))) cpu s"
    by (rule func2_bytes_step) (simp_all add: func2_byte_2 [unfolded One_nat_def] del: filter.simps)
  then show ?thesis using assms by (cases "z = 0") (simp_all only: reg_descriptors_def list.map
        if_True if_False mult_0_right drop_bit_0 id_apply, simp_all)
qed

lemma func2_regs_loop_Cons:
  "func2_regs_loop z (w # ws) cpu s =
     (case run_descriptors (reg_descriptors z w) cpu s of
        (ret, cpu', s') \<Rightarrow>
          if ret \<noteq> 0 then (ret, cpu', s') else func2_regs_loop (Suc z) ws cpu' s')"
  by (cases "bit w 31") (simp_all add: bit_31_and func2_bytes_loop_eq, simp add: reg_descriptors_def)

lemma func2_regs_loop_eq:
  "func2_regs_loop z ws cpu s = run_descriptors (regs_descriptors z ws) cpu s"
  by (induction ws arbitrary: z cpu s)
    (simp_all add: func2_regs_loop_Cons run_descriptors_append del: func2_regs_loop.simps(2)
      split: prod.split)

lemma decode_intel_func2_eq:
  "decode_intel_func2 cpu g s = run_descriptors (func2_descriptors g) cpu s"
  by (simp add: decode_intel_func2_def func2_descriptors_def func2_regs_loop_eq)

section \<open>Invariants of function 2\<close>

text \<open>
  What detection may add to a processor: nothing is lost from either array, and the
  fields other than the arrays stay.
\<close>

definition cpu_grows :: "torque_cput \<Rightarrow> torque_cput \<Rightarrow> bool" where
  "cpu_grows cpu cpu' \<longleftrightarrow>
     mset (cpu_memdescs cpu) \<subseteq># mset (cpu_memdescs cpu') \<and>
     mset (cpu_tlbdescs cpu) \<subseteq># mset (cpu_tlbdescs cpu') \<and>
     cpu_threadspercore cpu' = cpu_threadspercore cpu \<and>
     cpu_coresperpackage cpu' = cpu_coresperpackage cpu \<and>
     cpu_strdescription cpu' = cpu_strdescription cpu \<and>
     cpu_elements cpu' = cpu_elements cpu \<and> cpu_isa cpu' = cpu_isa cpu \<and>
     cpu_spec cpu' = cpu_spec cpu"

definition mems_distinct :: "torque_cput \<Rightarrow> bool" where
  "mems_distinct cpu \<longleftrightarrow> distinct (map mem_key (cpu_memdescs cpu))"

lemma cpu_grows_refl [simp, intro]: "cpu_grows cpu cpu"
  by (simp add: cpu_grows_def)

lemma cpu_grows_trans [trans]: "cpu_grows a b \<Longrightarrow> cpu_grows b c \<Longrightarrow> cpu_grows a c"
  by (auto simp: cpu_grows_def intro: subset_mset.trans)

lemma cpu_add_hwmem_grows:
  "cput_wf cpu \<Longrightarrow> cpu_add_hwmem cpu m s = (ok, cpu', s') \<Longrightarrow> cpu_grows cpu cpu'"
  by (frule (1) cpu_add_hwmem_eq) (auto simp: cpu_grows_def)

lemma cpu_add_tlb_grows:
  "cput_wf cpu \<Longrightarrow> cpu_add_tlb cpu t s = (ok, cpu', s') \<Longrightarrow> cpu_grows cpu cpu'"
  by (frule (1) cpu_add_tlb_eq) (auto simp: cpu_grows_def)

lemma distinct_cmp_insert:
  "distinct (map f (cmp_insert cmp x xs)) \<longleftrightarrow> distinct (map f xs) \<and> f x \<notin> f ` set xs"
  by (induction xs) auto

lemma match_memtype_None:
  "cput_wf cpu \<Longrightarrow> match_memtype (cpu_memories cpu) (cpu_memdescs cpu) m = None \<longleftrightarrow>
     mem_key m \<notin> mem_key ` set (cpu_memdescs cpu)"
  by (auto simp: match_memtype_def match_from_None cput_wf_def compare_memdetails_key cmp_key_eq
      image_iff)

definition detect_step :: "torque_cput \<Rightarrow> torque_cput \<Rightarrow> bool" where
  "detect_step cpu cpu' \<longleftrightarrow>
     cput_wf cpu' \<and> cpu_grows cpu cpu' \<and> (mems_distinct cpu \<longrightarrow> mems_distinct cpu')"

lemma detect_step_refl: "cput_wf cpu \<Longrightarrow> detect_step cpu cpu"
  by (simp add: detect_step_def)

lemma detect_step_trans [trans]: "detect_step a b \<Longrightarrow> detect_step b c \<Longrightarrow> detect_step a c"
  by (auto simp: detect_step_def intro: cpu_grows_trans)

lemma add_tlb_step:
  "cput_wf cpu \<Longrightarrow> cpu_add_tlb cpu t s = (ok, cpu', s') \<Longrightarrow> detect_step cpu cpu'"
  by (frule (1) cpu_add_tlb_eq)
    (auto simp: detect_step_def mems_distinct_def intro: cpu_add_tlb_wf cpu_add_tlb_grows)

lemma add_new_hwmem_step:
  "cput_wf cpu \<Longrightarrow> mem_key m \<notin> mem_key ` set (cpu_memdescs cpu) \<Longrightarrow>
   cpu_add_hwmem cpu m s = (ok, cpu', s') \<Longrightarrow> detect_step cpu cpu'"
  by (frule (1) cpu_add_hwmem_eq)
    (auto simp: detect_step_def mems_distinct_def distinct_cmp_insert
      intro: cpu_add_hwmem_wf cpu_add_hwmem_grows)

lemma func2_descriptor_step:
  "cput_wf cpu \<Longrightarrow> func2_descriptor cpu d s = (r, cpu', s') \<Longrightarrow> detect_step cpu cpu'"
  by (auto simp: func2_descriptor_def match_memtype_None
      split: option.splits prod.splits if_splits
      intro: detect_step_refl add_tlb_step add_new_hwmem_step)

lemma run_descriptors_step:
  "cput_wf cpu \<Longrightarrow> run_descriptors ds cpu s = (r, cpu', s') \<Longrightarrow> detect_step cpu cpu'"
proof (induction ds arbitrary: cpu s)
  case Nil
  then show ?case by (simp add: detect_step_refl)
next
  case (Cons d ds)
  obtain r1 cpu1 s1 where f: "func2_descriptor cpu d s = (r1, cpu1, s1)" by (cases rule: prod_cases3)
  have s: "detect_step cpu cpu1" by (rule func2_descriptor_step [OF Cons.prems(1) f])
  then have "cput_wf cpu1" by (simp add: detect_step_def)
  with Cons s f show ?case by (auto split: if_splits intro: detect_step_trans)
qed

lemma func2_calls_step:
  "cput_wf cpu \<Longrightarrow> func2_calls cpuid n g cpu s = (r, cpu', s') \<Longrightarrow> detect_step cpu cpu'"
proof (induction cpuid n g cpu s rule: func2_calls.induct)
  case (1 cpuid n g cpu s)
  obtain r1 cpu1 s1 where f: "decode_intel_func2 cpu g s = (r1, cpu1, s1)"
    by (cases rule: prod_cases3)
  have s: "detect_step cpu cpu1"
    using run_descriptors_step [OF "1.prems"(1)] f by (simp add: decode_intel_func2_eq)
  then have w: "cput_wf cpu1" by (simp add: detect_step_def)
  show ?case
  proof (cases "r1 \<noteq> 0 \<or> n - 1 = 0")
    case True
    then show ?thesis using s f "1.prems"(2) by (auto simp: func2_calls.simps [of cpuid n] split: if_splits)
  next
    case False
    then have "func2_calls cpuid (n - 1) (cpuid CPUID_STANDARD_CPUCONF 0) cpu1 s1 = (r, cpu', s')"
      using f "1.prems"(2) by (simp add: func2_calls.simps [of cpuid n])
    then have "detect_step cpu1 cpu'"
      using "1.IH" [OF f [symmetric] refl] False w by simp
    with s show ?thesis by (rule detect_step_trans)
  qed
qed

lemma id_intel_caches_old_step:
  "cput_wf cpu \<Longrightarrow> id_intel_caches_old cpuid maxlevel cpu s = (r, cpu', s') \<Longrightarrow>
   detect_step cpu cpu'"
  by (auto simp: id_intel_caches_old_def Let_def split: if_splits
      intro: detect_step_refl func2_calls_step)

section \<open>Function 4: well-formedness, termination, completeness\<close>

lemma func4_cores_frame:
  assumes "func4_cores maxlevel cpp cpu = Some (r, cpu')"
  shows "cpu_memdescs cpu' = cpu_memdescs cpu \<and> cpu_memories cpu' = cpu_memories cpu \<and>
    cpu_tlbdescs cpu' = cpu_tlbdescs cpu \<and> cpu_tlbs cpu' = cpu_tlbs cpu \<and>
    cpu_strdescription cpu' = cpu_strdescription cpu \<and> cpu_spec cpu' = cpu_spec cpu \<and>
    (r = 0 \<longrightarrow> cpu_threadspercore cpu \<noteq> 0 \<longrightarrow>
      cpu_threadspercore cpu' \<noteq> 0 \<and> cpu_coresperpackage cpu' \<noteq> 0)"
  using assms by (auto simp: func4_cores_def Let_def split: if_splits)

lemma func4_cores_defined:
  "cpu_threadspercore cpu \<noteq> 0 \<Longrightarrow> \<exists>r cpu'. func4_cores maxlevel cpp cpu = Some (r, cpu')"
  by (auto simp: func4_cores_def Let_def)

text \<open>
  An entry that is accepted adds one memory whose key is that of the decoded
  registers; sharing is not part of the key.
\<close>

definition cpu_live :: "torque_cput \<Rightarrow> bool" where
  "cpu_live cpu \<longleftrightarrow> cput_wf cpu \<and> cpu_threadspercore cpu \<noteq> 0"

lemma func4_entry_facts:
  assumes "cput_wf cpu" "func4_entry maxlevel g mt lev cpu s = Some (r, cpu', s')"
  shows "cput_wf cpu'"
    and "cpu_tlbdescs cpu' = cpu_tlbdescs cpu \<and> cpu_spec cpu' = cpu_spec cpu \<and>
      cpu_strdescription cpu' = cpu_strdescription cpu"
    and "r = 0 \<Longrightarrow> cpu_threadspercore cpu \<noteq> 0 \<Longrightarrow>
      cpu_threadspercore cpu' \<noteq> 0 \<and> cpu_coresperpackage cpu' \<noteq> 0"
    and "r = 0 \<Longrightarrow> image_mset mem_key (mset (cpu_memdescs cpu')) =
      add_mset (mem_key (func4_mem g mt lev)) (image_mset mem_key (mset (cpu_memdescs cpu)))"
proof -
  define cpp where "cpp = (drop_bit 26 (eax g) AND 0x3f) + 1"
  obtain r1 cpu1 where c: "func4_cores maxlevel cpp cpu = Some (r1, cpu1)"
    using assms(2) by (auto simp: func4_entry_def cpp_def Let_def split: option.splits)
  note fr = func4_cores_frame [OF c]
  have w1: "cput_wf cpu1" using assms(1) fr by (simp add: cput_wf_def)
  define mem where "mem = (if mem_sharedways (func4_mem g mt lev) < cpu_threadspercore cpu1
    then (func4_mem g mt lev)\<lparr>mem_sharedways := cpu_threadspercore cpu1\<rparr> else func4_mem g mt lev)"
  have k: "mem_key mem = mem_key (func4_mem g mt lev)" by (simp add: mem_def mem_key_def)
  have e: "if r1 \<noteq> 0 then r = r1 \<and> cpu' = cpu1 else
      (\<exists>ok. cpu_add_hwmem cpu1 mem s = (ok, cpu', s') \<and> r = (if ok then 0 else - 1))"
    using assms(2) c
    by (auto simp: func4_entry_def cpp_def [symmetric] mem_def Let_def split: prod.splits if_splits)
  have "r1 \<noteq> 0 \<and> r = r1 \<and> cpu' = cpu1 \<or> r1 = 0 \<and>
    cpu' = (if r = 0 then cpu1\<lparr>cpu_memories := Suc (cpu_memories cpu1),
      cpu_memdescs := cmp_insert compare_memdetails mem (cpu_memdescs cpu1)\<rparr> else cpu1)"
    using e by (auto split: if_splits dest: cpu_add_hwmem_eq [OF w1])
  then show "cput_wf cpu'"
    and "cpu_tlbdescs cpu' = cpu_tlbdescs cpu \<and> cpu_spec cpu' = cpu_spec cpu \<and>
      cpu_strdescription cpu' = cpu_strdescription cpu"
    and "r = 0 \<Longrightarrow> cpu_threadspercore cpu \<noteq> 0 \<Longrightarrow>
      cpu_threadspercore cpu' \<noteq> 0 \<and> cpu_coresperpackage cpu' \<noteq> 0"
    and "r = 0 \<Longrightarrow> image_mset mem_key (mset (cpu_memdescs cpu')) =
      add_mset (mem_key (func4_mem g mt lev)) (image_mset mem_key (mset (cpu_memdescs cpu)))"
    using fr w1 k by (auto simp: cput_wf_def memcmp.insert_ordered split: if_splits)
qed

lemma func4_entry_defined:
  "cpu_threadspercore cpu \<noteq> 0 \<Longrightarrow>
   \<exists>r cpu' s'. func4_entry maxlevel g mt lev cpu s = Some (r, cpu', s')"
  using func4_cores_defined [of cpu maxlevel "(drop_bit 26 (eax g) AND 0x3f) + 1"]
  by (auto simp: func4_entry_def Let_def split: prod.splits)

text \<open>
  What function 4 leaves alone on a well-formed processor: the TLBs, the signature
  and the description.
\<close>

definition func4_frame :: "torque_cput \<Rightarrow> torque_cput \<Rightarrow> bool" where
  "func4_frame cpu cpu' \<longleftrightarrow> (cput_wf cpu \<longrightarrow> cput_wf cpu' \<and>
     cpu_tlbdescs cpu' = cpu_tlbdescs cpu \<and> cpu_spec cpu' = cpu_spec cpu \<and>
     cpu_strdescription cpu' = cpu_strdescription cpu)"

lemma func4_frame_refl [simp]: "func4_frame cpu cpu"
  by (simp add: func4_frame_def)

lemma func4_frame_trans [trans]: "func4_frame a b \<Longrightarrow> func4_frame b c \<Longrightarrow> func4_frame a c"
  by (simp add: func4_frame_def)

lemma func4_entry_frame:
  "func4_entry maxlevel g mt lev cpu s = Some (r, cpu', s') \<Longrightarrow> func4_frame cpu cpu'"
  using func4_entry_facts(1,2) by (simp add: func4_frame_def)

lemma func4_inner_frame:
  assumes "func4_inner cpuid maxlevel level n maxdc cpu s = Some res"
  shows "func4_frame cpu (fst (snd (snd res)))"
proof (rule func4_inner.raw_induct [where
    P = "\<lambda>cpuid maxlevel level n maxdc cpu s res. func4_frame cpu (fst (snd (snd res)))",
    OF _ assms])
  fix f cpuid maxlevel level n maxdc cpu s res
  assume IH: "\<And>cpuid maxlevel level n maxdc cpu s res.
      f cpuid maxlevel level n maxdc cpu s = Some res \<Longrightarrow>
      func4_frame cpu (fst (snd (snd res)))"
    and eq: "(let g = cpuid CPUID_STANDARD_CACHECONF n; lev = func4_level g; cachet = func4_type g
        in case cachet_memtype cachet of
          None \<Rightarrow> if cachet = 0 then Some (0, maxdc, cpu, s) else Some (- 1, maxdc, cpu, s)
        | Some mtype \<Rightarrow>
            let maxdc' = (if lev > maxdc then lev else maxdc) in
            if lev \<noteq> level then f cpuid maxlevel level (n + 1) maxdc' cpu s
            else (case func4_entry maxlevel g mtype lev cpu s of
                None \<Rightarrow> None
              | Some (ret, cpu', s') \<Rightarrow>
                  if ret \<noteq> 0 then Some (ret, maxdc', cpu', s')
                  else f cpuid maxlevel level (n + 1) maxdc' cpu' s')) = Some res"
  show "func4_frame cpu (fst (snd (snd res)))"
    using eq unfolding Let_def
    by (auto split: option.splits if_split_asm prod.splits simp del: cachet_memtype.simps
        dest!: IH func4_entry_frame intro: func4_frame_trans)
qed

lemma func4_outer_frame:
  assumes "func4_outer cpuid maxlevel level maxdc cpu s = Some res"
  shows "func4_frame cpu (fst (snd res))"
proof (rule func4_outer.raw_induct [where
    P = "\<lambda>cpuid maxlevel level maxdc cpu s res. func4_frame cpu (fst (snd res))", OF _ assms])
  fix f cpuid maxlevel level maxdc cpu s res
  assume IH: "\<And>cpuid maxlevel level maxdc cpu s res.
      f cpuid maxlevel level maxdc cpu s = Some res \<Longrightarrow> func4_frame cpu (fst (snd res))"
    and eq: "(case func4_inner cpuid maxlevel level 0 maxdc cpu s of
        None \<Rightarrow> None
      | Some (ret, maxdc', cpu', s') \<Rightarrow>
          if ret \<noteq> 0 then Some (ret, cpu', s')
          else if level + 1 \<le> maxdc' then f cpuid maxlevel (level + 1) maxdc' cpu' s'
          else Some (0, cpu', s')) = Some res"
  show "func4_frame cpu (fst (snd res))"
    using eq
    by (auto split: option.splits if_split_asm prod.splits
        dest!: IH func4_inner_frame intro: func4_frame_trans)
qed

lemma id_intel_caches_wf:
  assumes "cput_wf cpu" "id_intel_caches cpuid maxlevel ff cpu s = Some (r, cpu', s')"
  shows "cput_wf cpu' \<and> cpu_spec cpu' = cpu_spec cpu \<and>
    cpu_strdescription cpu' = cpu_strdescription cpu"
proof (cases "maxlevel < CPUID_STANDARD_CACHECONF")
  case True
  have "cput_wf (cpu\<lparr>cpu_coresperpackage := 1\<rparr>)" using assms(1) by (simp add: cput_wf_def)
  from id_intel_caches_old_step [OF this] show ?thesis
    using assms(2) True by (auto simp: id_intel_caches_def detect_step_def cpu_grows_def)
next
  case False
  then obtain r1 cpu1 s1 where o: "func4_outer cpuid maxlevel 1 1 cpu s = Some (r1, cpu1, s1)"
    and e: "if r1 \<noteq> 0 then cpu' = cpu1 else id_intel_caches_old cpuid maxlevel cpu1 s1 = (r, cpu', s')"
    using assms(2) by (auto simp: id_intel_caches_def split: option.splits prod.splits if_splits)
  from func4_outer_frame [OF o] assms(1)
  have "cput_wf cpu1 \<and> cpu_spec cpu1 = cpu_spec cpu \<and>
    cpu_strdescription cpu1 = cpu_strdescription cpu"
    by (simp add: func4_frame_def)
  with e show ?thesis
    using id_intel_caches_old_step [of cpu1]
    by (fastforce simp: detect_step_def cpu_grows_def split: if_splits)
qed

text \<open>
  The processors document the enumeration of function 4 as the subleaves 0, 1, \dots
  up to the first null type. \<open>func4_ends cpuid N\<close> says that \<open>N\<close> is that subleaf.
  \<open>func4_keys\<close> collects the keys of the listed subleaves whose level satisfies a
  predicate.
\<close>

definition func4_leaf :: "cpuid_fn \<Rightarrow> nat \<Rightarrow> gpregs" where
  "func4_leaf cpuid i = cpuid CPUID_STANDARD_CACHECONF (of_nat i)"

definition func4_ends :: "cpuid_fn \<Rightarrow> nat \<Rightarrow> bool" where
  "func4_ends cpuid N \<longleftrightarrow> func4_type (func4_leaf cpuid N) = 0 \<and>
     (\<forall>i<N. cachet_memtype (func4_type (func4_leaf cpuid i)) \<noteq> None)"

definition func4_key :: "gpregs \<Rightarrow> u32 \<times> torque_memtypet \<times> u64 \<times> u32 \<times> u32" where
  "func4_key g = mem_key (func4_mem g (the (cachet_memtype (func4_type g))) (func4_level g))"

definition func4_keys ::
  "cpuid_fn \<Rightarrow> (u32 \<Rightarrow> bool) \<Rightarrow> nat list \<Rightarrow> (u32 \<times> torque_memtypet \<times> u64 \<times> u32 \<times> u32) multiset" where
  "func4_keys cpuid P is =
     {# func4_key (func4_leaf cpuid i). i \<in># filter_mset (\<lambda>i. P (func4_level (func4_leaf cpuid i))) (mset is) #}"

definition cpu_keys :: "torque_cput \<Rightarrow> (u32 \<times> torque_memtypet \<times> u64 \<times> u32 \<times> u32) multiset" where
  "cpu_keys cpu = image_mset mem_key (mset (cpu_memdescs cpu))"

lemma func4_level_le: "func4_level g \<le> 7"
  by (simp add: func4_level_def word_and_le1)

lemma func4_keys_Cons:
  "func4_keys cpuid P (i # is) =
     (if P (func4_level (func4_leaf cpuid i)) then {# func4_key (func4_leaf cpuid i) #} else {#})
     + func4_keys cpuid P is"
  by (simp add: func4_keys_def)

lemma func4_keys_split:
  "func4_keys cpuid (\<lambda>l. level \<le> l) is =
     func4_keys cpuid (\<lambda>l. l = level) is + func4_keys cpuid (\<lambda>l. level < l) is"
  by (induction "is") (auto simp: func4_keys_Cons order_le_less, simp add: func4_keys_def)

lemma func4_keys_empty:
  "(\<And>i. i \<in> set is \<Longrightarrow> \<not> P (func4_level (func4_leaf cpuid i))) \<Longrightarrow> func4_keys cpuid P is = {#}"
  by (auto simp: func4_keys_def)

lemma func4_inner_unfold:
  assumes "cachet_memtype (func4_type (func4_leaf cpuid n)) = Some mt"
  shows "func4_inner cpuid maxlevel level (of_nat n) maxdc cpu s =
    (let g = func4_leaf cpuid n; maxdc' = max maxdc (func4_level g) in
     if func4_level g \<noteq> level then func4_inner cpuid maxlevel level (of_nat (Suc n)) maxdc' cpu s
     else (case func4_entry maxlevel g mt level cpu s of
        None \<Rightarrow> None
      | Some (ret, cpu', s') \<Rightarrow>
          if ret \<noteq> 0 then Some (ret, maxdc', cpu', s')
          else func4_inner cpuid maxlevel level (of_nat (Suc n)) maxdc' cpu' s'))"
  using assms
  by (subst func4_inner.simps, unfold of_nat_Suc, subst (1 2) add.commute [of 1])
    (auto simp: func4_leaf_def Let_def max_def simp del: cachet_memtype.simps)

text \<open>What a pass over the subleaves \<open>n\<close> to \<open>N\<close> at one level establishes.\<close>

definition inner_post ::
  "cpuid_fn \<Rightarrow> u32 \<Rightarrow> nat \<Rightarrow> nat \<Rightarrow> u32 \<Rightarrow> torque_cput \<Rightarrow>
     int \<times> u32 \<times> torque_cput \<times> sysst \<Rightarrow> bool" where
  "inner_post cpuid level N n maxdc cpu res \<longleftrightarrow>
     (case res of (r, maxdc', cpu', s') \<Rightarrow>
        (maxdc \<le> 7 \<longrightarrow> maxdc' \<le> 7) \<and>
        (r = 0 \<longrightarrow> cpu_live cpu' \<and> maxdc \<le> maxdc' \<and>
          (\<forall>i\<in>{n..<N}. func4_level (func4_leaf cpuid i) \<le> maxdc') \<and>
          cpu_keys cpu' = cpu_keys cpu + func4_keys cpuid (\<lambda>l. l = level) [n..<N]))"

lemma inner_post_step:
  assumes "n < N" "g = func4_leaf cpuid n"
    and "inner_post cpuid level N (Suc n) (max maxdc (func4_level g)) cpu1 res"
    and "cpu_keys cpu1 = cpu_keys cpu + (if func4_level g = level then {# func4_key g #} else {#})"
  shows "inner_post cpuid level N n maxdc cpu res"
proof -
  have up: "[n..<N] = n # [Suc n..<N]" using assms(1) by (rule upt_conv_Cons)
  have iv: "{n..<N} = insert n {Suc n..<N}" using assms(1) by auto
  show ?thesis
    using assms(2-4) func4_level_le [of g]
    by (auto simp: inner_post_def up iv func4_keys_Cons split: prod.splits)
qed

lemma func4_inner_total:
  assumes "func4_ends cpuid N" "n \<le> N" "cpu_live cpu"
  shows "\<exists>res. func4_inner cpuid maxlevel level (of_nat n) maxdc cpu s = Some res \<and>
    inner_post cpuid level N n maxdc cpu res"
  using assms
proof (induction "N - n" arbitrary: n maxdc cpu s)
  case 0
  then have "func4_type (func4_leaf cpuid n) = 0" by (simp add: func4_ends_def)
  then show ?case using "0.prems" "0.hyps"
    by (subst func4_inner.simps) (simp add: func4_leaf_def func4_keys_def inner_post_def)
next
  case (Suc d)
  then have lt: "n < N" by simp
  define g where "g = func4_leaf cpuid n"
  obtain mt where mt: "cachet_memtype (func4_type g) = Some mt"
    using Suc.prems(1) lt by (auto simp: func4_ends_def g_def simp del: cachet_memtype.simps)
  note unf = func4_inner_unfold [OF mt [unfolded g_def], folded g_def, unfolded Let_def,
      of maxlevel level maxdc cpu s]
  have IH: "cpu_live cpu1 \<Longrightarrow> \<exists>res. func4_inner cpuid maxlevel level (of_nat (Suc n)) m cpu1 s1 =
      Some res \<and> inner_post cpuid level N (Suc n) m cpu1 res" for cpu1 s1 m
    using Suc.hyps(1) [of "Suc n" cpu1 m s1] Suc.hyps(2) Suc.prems(1) lt by simp
  show ?case
  proof (cases "func4_level g = level")
    case False
    obtain res where "func4_inner cpuid maxlevel level (of_nat (Suc n))
        (max maxdc (func4_level g)) cpu s = Some res"
      and "inner_post cpuid level N (Suc n) (max maxdc (func4_level g)) cpu res"
      using IH [OF Suc.prems(3)] by blast
    with False show ?thesis using unf inner_post_step [OF lt g_def] by simp
  next
    case True
    obtain r1 cpu1 s1 where e: "func4_entry maxlevel g mt level cpu s = Some (r1, cpu1, s1)"
      using func4_entry_defined Suc.prems(3) by (fastforce simp: cpu_live_def)
    show ?thesis
    proof (cases "r1 = 0")
      case False
      then show ?thesis using unf True e func4_level_le [of g] by (simp add: inner_post_def)
    next
      case r1: True
      have wf: "cput_wf cpu" using Suc.prems(3) by (simp add: cpu_live_def)
      note ef = func4_entry_facts [OF wf e]
      have live: "cpu_live cpu1" using ef(1,3) r1 Suc.prems(3) by (simp add: cpu_live_def)
      have "cpu_keys cpu1 = cpu_keys cpu + {# func4_key g #}"
        using ef(4) r1 True mt by (simp add: cpu_keys_def func4_key_def)
      moreover obtain res where "func4_inner cpuid maxlevel level (of_nat (Suc n))
          (max maxdc (func4_level g)) cpu1 s1 = Some res"
        and "inner_post cpuid level N (Suc n) (max maxdc (func4_level g)) cpu1 res"
        using IH [OF live] by blast
      ultimately show ?thesis using unf True e r1 inner_post_step [OF lt g_def] by simp
    qed
  qed
qed

text \<open>
  The outer loop runs at most seven times, since a level has three bits, and together
  the passes take every entry whose level is at least the first one.
\<close>

lemma word_level_cases: "level \<le> 7 \<Longrightarrow> unat level \<le> 7 \<and> unat (level + 1) = unat level + 1"
  for level :: u32
proof -
  assume "level \<le> 7"
  then have "unat level \<le> 7" by (simp add: word_le_nat_alt)
  moreover from this have "unat (level + 1) = unat level + 1"
    by (simp add: unat_word_ariths)
  ultimately show ?thesis by simp
qed

lemma func4_outer_total:
  assumes "func4_ends cpuid N" "cpu_live cpu" "level \<le> 7" "maxdc \<le> 7"
  shows "\<exists>r cpu' s'. func4_outer cpuid maxlevel level maxdc cpu s = Some (r, cpu', s') \<and>
    (r = 0 \<longrightarrow> cpu_live cpu' \<and>
      cpu_keys cpu' = cpu_keys cpu + func4_keys cpuid (\<lambda>l. level \<le> l) [0..<N])"
  using assms(2-)
proof (induction "7 - unat level" arbitrary: level maxdc cpu s rule: less_induct)
  case less
  obtain r maxdc' cpu' s' where i: "func4_inner cpuid maxlevel level 0 maxdc cpu s =
      Some (r, maxdc', cpu', s')" and post: "inner_post cpuid level N 0 maxdc cpu (r, maxdc', cpu', s')"
    using func4_inner_total [OF assms(1), of 0 cpu maxlevel level maxdc s] less.prems(1)
    by auto
  show ?case
  proof (cases "r = 0 \<and> level + 1 \<le> maxdc'")
    case True
    then have le: "level + 1 \<le> 7" and m7: "maxdc' \<le> 7"
      using post less.prems(3) by (auto simp: inner_post_def)
    have "7 - unat (level + 1) < 7 - unat level"
      using word_level_cases [OF less.prems(2)] le by (simp add: word_le_nat_alt)
    moreover have "cpu_live cpu'" using post True by (simp add: inner_post_def)
    ultimately obtain r2 cpu2 s2 where
      "func4_outer cpuid maxlevel (level + 1) maxdc' cpu' s' = Some (r2, cpu2, s2)" and
      "r2 = 0 \<longrightarrow> cpu_live cpu2 \<and>
        cpu_keys cpu2 = cpu_keys cpu' + func4_keys cpuid (\<lambda>l. level + 1 \<le> l) [0..<N]"
      using less.hyps [of "level + 1" cpu' maxdc' s'] le m7 by blast
    moreover have "(\<lambda>l. level + 1 \<le> l) = (\<lambda>l. level < l)"
      using word_level_cases [OF less.prems(2)] by (auto simp: word_le_nat_alt word_less_nat_alt)
    ultimately show ?thesis
      using True i post func4_keys_split [of cpuid level]
      by (subst func4_outer.simps) (simp add: inner_post_def)
  next
    case False
    have "func4_keys cpuid (\<lambda>l. level < l) [0..<N] = {#}" if "r = 0"
    proof (rule func4_keys_empty)
      fix i assume "i \<in> set [0..<N]"
      then have "func4_level (func4_leaf cpuid i) \<le> maxdc'"
        using post that by (simp add: inner_post_def)
      then show "\<not> level < func4_level (func4_leaf cpuid i)"
        using False that word_level_cases [OF less.prems(2)]
        by (simp add: word_le_nat_alt word_less_nat_alt)
    qed
    then show ?thesis
      using False i post func4_keys_split [of cpuid level]
      by (subst func4_outer.simps) (auto simp: inner_post_def)
  qed
qed

lemma id_intel_caches_total:
  assumes "CPUID_STANDARD_CACHECONF \<le> maxlevel" "func4_ends cpuid N" "cpu_live cpu"
  shows "\<exists>r cpu' s'. id_intel_caches cpuid maxlevel ff cpu s = Some (r, cpu', s') \<and>
    (r = 0 \<longrightarrow> cpu_keys cpu + func4_keys cpuid (\<lambda>l. 1 \<le> l) [0..<N] \<subseteq># cpu_keys cpu')"
proof -
  obtain r1 cpu1 s1 where o: "func4_outer cpuid maxlevel 1 1 cpu s = Some (r1, cpu1, s1)"
    and k: "r1 = 0 \<longrightarrow> cpu_live cpu1 \<and>
      cpu_keys cpu1 = cpu_keys cpu + func4_keys cpuid (\<lambda>l. 1 \<le> l) [0..<N]"
    using func4_outer_total [OF assms(2,3), of 1 1 maxlevel s] by auto
  obtain r2 cpu2 s2 where old: "id_intel_caches_old cpuid maxlevel cpu1 s1 = (r2, cpu2, s2)"
    by (cases rule: prod_cases3)
  have "cpu_keys cpu1 \<subseteq># cpu_keys cpu2" if "r1 = 0"
  proof -
    have "mset (cpu_memdescs cpu1) \<subseteq># mset (cpu_memdescs cpu2)"
      using id_intel_caches_old_step [OF _ old] k that
      by (simp add: cpu_live_def detect_step_def cpu_grows_def)
    then show ?thesis unfolding cpu_keys_def by (rule image_mset_subseteq_mono)
  qed
  then show ?thesis
    using assms(1) o k old by (auto simp: id_intel_caches_def not_less)
qed

section \<open>Properties\<close>

text \<open>
  Property C22: descriptor decoding. The register and byte loops of \<open>decode_intel_func2\<close>
  with their shifting mask do exactly what the reference does: take the descriptor bytes of
  the registers whose bit 31 is clear, without the low byte of EAX and without null
  descriptors, and handle them in order until one fails.
\<close>

theorem decode_intel_func2_reference:
  "decode_intel_func2 cpu g s = run_descriptors (func2_descriptors g) cpu s"
  by (rule decode_intel_func2_eq)

text \<open>
  Property C23: the enumeration of deterministic cache parameters ends and is complete.
  When the processor answers function 4 as documented, with valid subleaves up to a first
  null one, \<open>id_intel_caches\<close> returns, and when it succeeds every cache of level 1 or more
  that the subleaves describe has been added to the processor, whose description stays
  well formed.
\<close>

theorem intel_caches_complete:
  assumes "CPUID_STANDARD_CACHECONF \<le> maxlevel" "func4_ends cpuid N" "cpu_live cpu"
  shows "\<exists>r cpu' s'. id_intel_caches cpuid maxlevel ff cpu s = Some (r, cpu', s') \<and> cput_wf cpu' \<and>
    (r = 0 \<longrightarrow> cpu_keys cpu + func4_keys cpuid (\<lambda>l. 1 \<le> l) [0..<N] \<subseteq># cpu_keys cpu')"
  using id_intel_caches_total [OF assms, of ff s] id_intel_caches_wf [of cpu cpuid maxlevel ff s] assms(3)
  unfolding cpu_live_def by blast

text \<open>A level 1 data cache of 32 KB in subleaf 0, nothing else.\<close>

definition sample_func4 :: cpuid_fn where
  "sample_func4 leaf n =
     (if leaf = 4 \<and> n = 0 then \<lparr>eax = 0x21, ebx = 0x01c0003f, ecx = 0x3f, edx = 0\<rparr>
      else if leaf = 2 then \<lparr>eax = 1, ebx = 0, ecx = 0, edx = 0\<rparr>
      else \<lparr>eax = 0, ebx = 0, ecx = 0, edx = 0\<rparr>)"

definition no_flags :: feature_flags where
  "no_flags = \<lparr>ff_dca = False, ff_x2apic = False, ff_pse = False, ff_pae = False, ff_pse36 = False,
     ff_ht = False, ff_gbpt = False, ff_lme = False\<rparr>"

theorem intel_caches_complete_witness:
  "\<exists>cpu' s'. id_intel_caches sample_func4 4 no_flags (zero_cput\<lparr>cpu_threadspercore := 1\<rparr>)
      (os_answering [ok_ret]) = Some (0, cpu', s') \<and> cput_wf cpu' \<and>
    {# (1, MEMTYPE_DATA, 32768, 64, 8) #} \<subseteq># cpu_keys cpu'"
proof -
  have "func4_ends sample_func4 1"
    by (simp add: func4_ends_def func4_leaf_def sample_func4_def func4_type_def)
  moreover have "cpu_live (zero_cput\<lparr>cpu_threadspercore := 1\<rparr>)"
    by (simp add: cpu_live_def cput_wf_def zero_cput_def)
  moreover have "func4_keys sample_func4 (\<lambda>l. 1 \<le> l) [0..<1] = {# (1, MEMTYPE_DATA, 32768, 64, 8) #}"
    by (simp add: func4_keys_def func4_leaf_def sample_func4_def func4_type_def func4_level_def func4_key_def
        mem_key_def func4_mem_def Let_def)
  moreover have "cpu_keys (zero_cput\<lparr>cpu_threadspercore := 1\<rparr>) = {#}"
    by (simp add: cpu_keys_def zero_cput_def)
  moreover have "map_option fst (id_intel_caches sample_func4 4 no_flags
      (zero_cput\<lparr>cpu_threadspercore := 1\<rparr>) (os_answering [ok_ret])) = Some 0"
    by code_simp
  ultimately show ?thesis
    using intel_caches_complete [of 4 sample_func4 1 "zero_cput\<lparr>cpu_threadspercore := 1\<rparr>" no_flags
        "os_answering [ok_ret]"] by auto
qed

end
