(* ===== verification/X86_Topology.thy ===== *)
theory X86_Topology
  imports X86_Intel
begin

text \<open>
  Processor signature and topology, from \<^verbatim>\<open>src/src/libtorque/hardware/x86cpuid.c\<close>:
  \<open>x86_getprocsig\<close>, the vendor topology routines, the local APIC identifier and its
  split into thread, core and package.
\<close>

section \<open>Signature and feature flags\<close>

definition CPUID_FMA4 :: u32 where [simp]: "CPUID_FMA4 = 0x00010000"
definition CPUID_XOP :: u32 where [simp]: "CPUID_XOP = 0x00000800"
definition CPUID_CMPLEGACY :: u32 where [simp]: "CPUID_CMPLEGACY = 0x00000002"
definition CPUID_LME :: u32 where [simp]: "CPUID_LME = 0x20000000"
definition CPUID_1GB :: u32 where [simp]: "CPUID_1GB = 0x04000000"
definition FFLAG_SSE3 :: u32 where [simp]: "FFLAG_SSE3 = 0x00000001"
definition FFLAG_SSE4A :: u32 where [simp]: "FFLAG_SSE4A = 0x00000040"
definition FFLAG_SSSE3 :: u32 where [simp]: "FFLAG_SSSE3 = 0x00000200"
definition FFLAG_DCA :: u32 where [simp]: "FFLAG_DCA = 0x00040000"
definition FFLAG_SSE41 :: u32 where [simp]: "FFLAG_SSE41 = 0x00080000"
definition FFLAG_SSE42 :: u32 where [simp]: "FFLAG_SSE42 = 0x00100000"
definition FFLAG_X2APIC :: u32 where [simp]: "FFLAG_X2APIC = 0x00200000"
definition FFLAG_PSE :: u32 where [simp]: "FFLAG_PSE = 0x00000008"
definition FFLAG_PAE :: u32 where [simp]: "FFLAG_PAE = 0x00000040"
definition FFLAG_PSE36 :: u32 where [simp]: "FFLAG_PSE36 = 0x00020000"
definition FFLAG_MMX :: u32 where [simp]: "FFLAG_MMX = 0x00800000"
definition FFLAG_SSE :: u32 where [simp]: "FFLAG_SSE = 0x02000000"
definition FFLAG_SSE2 :: u32 where [simp]: "FFLAG_SSE2 = 0x04000000"
definition FFLAG_HT :: u32 where [simp]: "FFLAG_HT = 0x10000000"

definition x86type_of :: "u32 \<Rightarrow> torque_x86typet" where
  "x86type_of w =
     (if w = 0 then PROCESSOR_X86_OEM
      else if w = 1 then PROCESSOR_X86_OVERDRIVE
      else if w = 2 then PROCESSOR_X86_DUAL
      else PROCESSOR_X86_UNKNOWN)"

text \<open>\<open>None\<close> is the result \<open>-1\<close>, which leaves both structures unwritten.\<close>

definition x86_getprocsig ::
  "cpuid_fn \<Rightarrow> u32 \<Rightarrow> x86_details \<Rightarrow> (x86_details \<times> feature_flags) option" where
  "x86_getprocsig cpuid maxfunc cpu =
     (if maxfunc < CPUID_CPU_VERSION then None
      else
        let g = cpuid CPUID_CPU_VERSION 0;
            feats = (x86_features cpu)\<lparr>
              f_sse3 := (ecx g AND FFLAG_SSE3 \<noteq> 0),
              f_ssse3 := (ecx g AND FFLAG_SSSE3 \<noteq> 0),
              f_sse41 := (ecx g AND FFLAG_SSE41 \<noteq> 0),
              f_sse42 := (ecx g AND FFLAG_SSE42 \<noteq> 0),
              f_sse4a := (ecx g AND FFLAG_SSE4A \<noteq> 0),
              f_mmx := (edx g AND FFLAG_MMX \<noteq> 0),
              f_sse := (edx g AND FFLAG_SSE \<noteq> 0),
              f_sse2 := (edx g AND FFLAG_SSE2 \<noteq> 0)\<rparr>;
            cpu' = cpu\<lparr>
              x86_stepping := eax g AND 0xf,
              x86_x86type := x86type_of (drop_bit 12 (eax g) AND 0x2),
              x86_model := (drop_bit 12 (eax g) AND 0xf0) OR (drop_bit 4 (eax g) AND 0xf),
              x86_family := (drop_bit 17 (eax g) AND 0x7f8) OR (drop_bit 8 (eax g) AND 0xf),
              x86_features := feats\<rparr>;
            ff = \<lparr>ff_dca = (ecx g AND FFLAG_DCA \<noteq> 0), ff_x2apic = (ecx g AND FFLAG_X2APIC \<noteq> 0),
              ff_pse = (edx g AND FFLAG_PSE \<noteq> 0), ff_pae = (edx g AND FFLAG_PAE \<noteq> 0),
              ff_pse36 = (edx g AND FFLAG_PSE36 \<noteq> 0), ff_ht = (edx g AND FFLAG_HT \<noteq> 0),
              ff_gbpt = False, ff_lme = False\<rparr>
        in if identify_extended_cpuid cpuid \<ge> CPUID_EXTENDED_CPU_VERSION then
             let g' = cpuid CPUID_EXTENDED_CPU_VERSION 0 in
             Some (cpu'\<lparr>x86_features := feats\<lparr>
                 f_xop := (ecx g' AND CPUID_XOP \<noteq> 0),
                 f_fma4 := (ecx g' AND CPUID_FMA4 \<noteq> 0)\<rparr>\<rparr>,
               ff\<lparr>ff_lme := (edx g' AND CPUID_LME \<noteq> 0), ff_gbpt := (edx g' AND CPUID_1GB \<noteq> 0)\<rparr>)
           else Some (cpu', ff))"

section \<open>Threads per core\<close>

text \<open>The loop \<open>while(t & (t - 1)) ++t\<close>.\<close>

function round_pow2 :: "u32 \<Rightarrow> u32" where
  "round_pow2 t = (if t AND (t - 1) \<noteq> 0 then round_pow2 (t + 1) else t)"
  by pat_completeness auto
termination
proof (relation "measure (\<lambda>t. unat (- t))")
  fix t :: u32
  assume "t AND (t - 1) \<noteq> 0"
  then have "- t \<noteq> 0" by auto
  from unat_pred_less [OF this] show "(t + 1, t) \<in> measure (\<lambda>t. unat (- t))" by simp
qed simp

declare round_pow2.simps [simp del]

definition id_x86_topology ::
  "cpuid_fn \<Rightarrow> u32 \<Rightarrow> feature_flags \<Rightarrow> torque_cput \<Rightarrow> int \<times> torque_cput" where
  "id_x86_topology cpuid maxfunc ff cpu =
     (if maxfunc < CPUID_CPU_VERSION then (- 1, cpu)
      else
        let g = cpuid CPUID_CPU_VERSION 0;
            tpc = (if ff_ht ff then drop_bit 16 (ebx g) AND 0xff else 1)
        in if ff_ht ff \<and> tpc = 0 then (- 1, cpu\<lparr>cpu_threadspercore := tpc\<rparr>)
           else (0, cpu\<lparr>cpu_threadspercore := round_pow2 tpc\<rparr>))"

section \<open>The local APIC\<close>

text \<open>
  The loop walks the levels of the topology leaf; it has no bound of its own, so
  \<open>None\<close> stands for running forever.
\<close>

partial_function (option) apic_levels :: "cpuid_fn \<Rightarrow> gpregs \<Rightarrow> u32 \<Rightarrow> int option" where
  "apic_levels cpuid g apic =
     (let lev = drop_bit 8 (ecx g) AND 0xff in
      if lev = 0 then Some 0
      else if lev = 0x2 \<or> lev = 0x1 then
        let g' = cpuid CPUID_STANDARD_TOPOLOGY (lev + 1) in
        if edx g' \<noteq> apic then Some (- 1) else apic_levels cpuid g' apic
      else Some (- 1))"

declare apic_levels.simps [code]

definition x86apic :: "cpuid_fn \<Rightarrow> u32 \<Rightarrow> u32 \<Rightarrow> (int \<times> u32) option" where
  "x86apic cpuid maxlevel apic =
     (if maxlevel < CPUID_CPU_VERSION then Some (- 1, apic)
      else
        let legacy = drop_bit 24 (ebx (cpuid CPUID_CPU_VERSION 0)) AND 0xff in
        if maxlevel < CPUID_STANDARD_TOPOLOGY then Some (0, legacy)
        else
          let g = cpuid CPUID_STANDARD_TOPOLOGY 0 in
          if edx g AND 0xff \<noteq> legacy then Some (- 1, legacy)
          else map_option (\<lambda>r. (r, edx g)) (apic_levels cpuid g (edx g)))"

definition set_apic :: "u32 \<Rightarrow> torque_cput \<Rightarrow> torque_cput" where
  "set_apic apic cpu = cpu\<lparr>cpu_spec := Spec_x86 ((spec_x86 (cpu_spec cpu))\<lparr>x86_apic := apic\<rparr>)\<rparr>"

definition cpu_x86apic :: "cpuid_fn \<Rightarrow> u32 \<Rightarrow> torque_cput \<Rightarrow> (int \<times> torque_cput) option" where
  "cpu_x86apic cpuid maxfunc cpu =
     (case x86apic cpuid maxfunc (x86_apic (spec_x86 (cpu_spec cpu))) of
        None \<Rightarrow> None
      | Some (r, apic) \<Rightarrow> Some (if r \<noteq> 0 then - 1 else 0, set_apic apic cpu))"

definition id_amd_topology ::
  "cpuid_fn \<Rightarrow> u32 \<Rightarrow> feature_flags \<Rightarrow> torque_cput \<Rightarrow> (int \<times> torque_cput) option" where
  "id_amd_topology cpuid maxfunc ff cpu =
     (let cpu1 = cpu\<lparr>cpu_coresperpackage := 1\<rparr> in
      if maxfunc < CPUID_EXTENDED_LMADDRICORE then Some (id_x86_topology cpuid maxfunc ff cpu1)
      else
        let g = cpuid CPUID_EXTENDED_LMADDRICORE 0;
            apiccorebits = drop_bit 12 (ecx g) AND 0xf;
            cpu2 = (if apiccorebits \<noteq> 0
                    then cpu1\<lparr>cpu_coresperpackage := (push_bit 1 ^^ unat apiccorebits) 1\<rparr>
                    else cpu1\<lparr>cpu_coresperpackage := (ecx g AND 0xff) + 1\<rparr>)
        in if edx g AND CPUID_CMPLEGACY = 0 then Some (id_x86_topology cpuid maxfunc ff cpu2)
           else cpu_x86apic cpuid maxfunc (cpu2\<lparr>cpu_threadspercore := 1\<rparr>))"

definition id_intel_topology ::
  "cpuid_fn \<Rightarrow> u32 \<Rightarrow> feature_flags \<Rightarrow> torque_cput \<Rightarrow> (int \<times> torque_cput) option" where
  "id_intel_topology cpuid maxfunc ff cpu =
     (if maxfunc < CPUID_STANDARD_TOPOLOGY then Some (id_x86_topology cpuid maxfunc ff cpu)
      else
        let g = cpuid CPUID_STANDARD_TOPOLOGY 0 in
        if drop_bit 8 (ecx g) AND 0xff \<noteq> 1 then Some (- 1, cpu)
        else
          let cpu1 = cpu\<lparr>cpu_threadspercore := ebx g AND 0xffff\<rparr> in
          if cpu_threadspercore cpu1 = 0 then Some (- 1, cpu1)
          else
            let g1 = cpuid CPUID_STANDARD_TOPOLOGY 1 in
            if drop_bit 8 (ecx g1) AND 0xff \<noteq> 2 then Some (- 1, cpu1)
            else
              let cpu2 = cpu1\<lparr>cpu_coresperpackage := ebx g1 AND 0xffff\<rparr> in
              if cpu_coresperpackage cpu2 = 0 then Some (- 1, cpu2)
              else cpu_x86apic cpuid maxfunc cpu2)"

section \<open>Thread, core and package of an APIC identifier\<close>

text \<open>The loop \<open>while((t /= 2)) apic >>= 1\<close>.\<close>

function halve_shift :: "u32 \<Rightarrow> u32 \<Rightarrow> u32" where
  "halve_shift t apic = (if t div 2 \<noteq> 0 then halve_shift (t div 2) (drop_bit 1 apic) else apic)"
  by pat_completeness auto
termination
proof (relation "measure (\<lambda>(t, apic). unat t)")
  fix t apic :: u32
  assume "t div 2 \<noteq> 0"
  then have "0 < unat t" by (auto simp: unat_gt_0)
  then show "((t div 2, drop_bit 1 apic), t, apic) \<in> measure (\<lambda>(t, apic). unat t)"
    by (simp add: unat_div_distrib)
qed simp

declare halve_shift.simps [simp del]

text \<open>\<open>None\<close> is the result \<open>-1\<close>.\<close>

definition x86topology :: "torque_cput \<Rightarrow> (u32 \<times> u32 \<times> u32) option" where
  "x86topology cpu =
     (let tpc = cpu_threadspercore cpu; cpp = cpu_coresperpackage cpu;
          apic = x86_apic (spec_x86 (cpu_spec cpu))
      in if tpc = 0 then None
         else if cpp = 0 then None
         else
           let thread = apic AND (tpc - 1);
               apic' = halve_shift tpc apic;
               core = apic' AND (cpp - 1);
               pkg = halve_shift cpp apic'
           in Some (thread, core, pkg))"


section \<open>Powers of two\<close>

lemma double_is_power: "(\<exists>k. 2 * m = 2 ^ k) \<longleftrightarrow> (\<exists>k. m = 2 ^ k)" if "0 < m" for m :: nat
proof
  assume "\<exists>k. 2 * m = 2 ^ k"
  then obtain k where k: "2 * m = 2 ^ k" by blast
  then obtain j where "k = Suc j" by (cases k) auto
  with k show "\<exists>k. m = 2 ^ k" by auto
qed (metis power_Suc)

lemma odd_not_power: "2 * m + 1 \<noteq> 2 ^ k" if "0 < m" for m :: nat
  using that by (cases k) (auto, presburger)

lemma and_pred_double: "2 * m AND (2 * m - 1) = 2 * (m AND (m - 1))" if "0 < m" for m :: nat
proof -
  have "(2 * m - 1) div 2 = m - 1" "odd (2 * m - 1)" using that by presburger+
  then show ?thesis by (subst and_rec) simp
qed

lemma and_pred_odd: "(2 * m + 1) AND (2 * m) = 2 * m" for m :: nat
  by (subst and_rec) simp

lemma nat_and_pred_zero: "n AND (n - 1) = 0 \<longleftrightarrow> n = 0 \<or> (\<exists>k. n = 2 ^ k)"
  for n :: nat
proof (induction n rule: less_induct)
  case (less n)
  consider "n = 0" | "n = 2 ^ 0" | m where "n = 2 * m" "0 < m" | m where "n = 2 * m + 1" "0 < m"
  proof (cases "n \<le> 1")
    case False
    then show ?thesis using that(3,4) [of "n div 2"] by (cases "even n") auto
  qed (use that(1,2) in \<open>auto simp: le_Suc_eq\<close>)
  then show ?case
  proof cases
    case 2
    then show ?thesis by (metis and_zero_eq diff_self_eq_0 power_0)
  next
    case 3
    then show ?thesis using less.IH [of m] and_pred_double double_is_power by simp
  next
    case 4
    then show ?thesis using and_pred_odd odd_not_power by simp
  qed simp
qed

lemma word_and_pred_zero:
  fixes t :: u32
  assumes "t \<noteq> 0"
  shows "t AND (t - 1) = 0 \<longleftrightarrow> (\<exists>k. unat t = 2 ^ k)"
proof -
  have "unat (t AND (t - 1)) = unat t AND (unat t - 1)"
    using assms by (simp add: unsigned_and_eq unat_minus_one)
  then have "t AND (t - 1) = 0 \<longleftrightarrow> unat t AND (unat t - 1) = 0"
    by (metis unat_eq_zero)
  then show ?thesis using nat_and_pred_zero [of "unat t"] assms by (simp add: unat_eq_zero)
qed

text \<open>
  The rounding loop returns the least power of two that is not below its argument,
  whenever one fits in 32 bits.
\<close>

lemma round_pow2_spec:
  assumes "0 < t" "unat t \<le> 2 ^ 31"
  shows "\<exists>k. unat (round_pow2 t) = 2 ^ k \<and> unat t \<le> 2 ^ k \<and> (\<forall>j. unat t \<le> 2 ^ j \<longrightarrow> k \<le> j)"
  using assms
proof (induction t rule: round_pow2.induct)
  case (1 t)
  then have t0: "t \<noteq> 0" by auto
  show ?case
  proof (cases "t AND (t - 1) = 0")
    case True
    then obtain k where "unat t = 2 ^ k" using word_and_pred_zero [OF t0] by blast
    then show ?thesis using True by (auto simp: round_pow2.simps [of t])
  next
    case False
    then have np: "\<nexists>k. unat t = 2 ^ k" using word_and_pred_zero [OF t0] by blast
    then have "unat t \<noteq> 2 ^ 31" by blast
    then have lt: "unat t < 2 ^ 31" using "1.prems" by simp
    then have u: "unat (t + 1) = unat t + 1"
      by (simp add: unat_word_ariths)
    then have "0 < t + 1" by (metis Suc_eq_plus1 nat.distinct(1) unat_eq_zero word_gt_0)
    then obtain k where k: "unat (round_pow2 (t + 1)) = 2 ^ k" "unat t + 1 \<le> 2 ^ k"
      "\<forall>j. unat t + 1 \<le> 2 ^ j \<longrightarrow> k \<le> j"
      using "1.IH" False u lt by auto
    moreover have "\<forall>j. unat t \<le> 2 ^ j \<longrightarrow> k \<le> j"
      using k(3) np by (metis Suc_eq_plus1 le_neq_implies_less less_eq_Suc_le)
    ultimately show ?thesis using False by (auto simp: round_pow2.simps [of t])
  qed
qed

lemma halve_shift_power:
  "a < 32 \<Longrightarrow> unat t = 2 ^ a \<Longrightarrow> halve_shift t apic = drop_bit a apic"
proof (induction a arbitrary: t apic)
  case 0
  then have "t = 1" by (simp add: word_unat_eq_iff)
  then show ?case by (simp add: halve_shift.simps)
next
  case (Suc a)
  have half: "unat (t div 2) = 2 ^ a" using Suc.prems by (simp add: unat_div_distrib)
  then have "t div 2 \<noteq> 0" by (metis power_not_zero unat_0 zero_neq_numeral)
  moreover have "halve_shift (t div 2) (drop_bit 1 apic) = drop_bit a (drop_bit 1 apic)"
    using Suc.IH [of "t div 2" "drop_bit 1 apic"] half Suc.prems by simp
  ultimately show ?case by (simp add: halve_shift.simps [of t])
qed

lemma pred_mask: "unat t = 2 ^ a \<Longrightarrow> a < 32 \<Longrightarrow> t - 1 = mask a"
  for t :: u32
proof -
  assume t: "unat t = 2 ^ a" "a < 32"
  then have "t = 2 ^ a"
    by (metis of_nat_numeral of_nat_power of_nat_unat ucast_id)
  then show ?thesis by (simp add: mask_eq_decr_exp)
qed

section \<open>The split of an APIC identifier\<close>

definition apic_of :: "torque_cput \<Rightarrow> u32" where
  "apic_of cpu = x86_apic (spec_x86 (cpu_spec cpu))"

lemma x86topology_power:
  assumes "unat (cpu_threadspercore cpu) = 2 ^ a" "unat (cpu_coresperpackage cpu) = 2 ^ b"
  shows "x86topology cpu =
    Some (take_bit a (apic_of cpu), take_bit b (drop_bit a (apic_of cpu)),
      drop_bit (a + b) (apic_of cpu))"
proof -
  have "(2::nat) ^ a < 2 ^ 32" "(2::nat) ^ b < 2 ^ 32"
    using assms unsigned_less [where 'a = nat, of "cpu_threadspercore cpu"]
      unsigned_less [where 'a = nat, of "cpu_coresperpackage cpu"] by simp_all
  then have a: "a < 32" and b: "b < 32" by (simp_all only: power_strict_increasing_iff)
  have "cpu_threadspercore cpu \<noteq> 0" "cpu_coresperpackage cpu \<noteq> 0"
    using assms by (metis power_not_zero unat_0 zero_neq_numeral)+
  then show ?thesis
    by (simp add: x86topology_def Let_def pred_mask [OF assms(1) a] pred_mask [OF assms(2) b]
        halve_shift_power [OF a assms(1)] halve_shift_power [OF b assms(2)] apic_of_def
        take_bit_eq_mask add.commute)
qed

lemma x86topology_split:
  assumes "unat (cpu_threadspercore cpu) = 2 ^ a" "unat (cpu_coresperpackage cpu) = 2 ^ b"
    and "x86topology cpu = Some (thread, core, pkg)"
  shows "unat thread < 2 ^ a \<and> unat core < 2 ^ b \<and>
    unat (apic_of cpu) = (unat pkg * 2 ^ b + unat core) * 2 ^ a + unat thread"
proof -
  let ?x = "unat (apic_of cpu)"
  have t: "unat thread = ?x mod 2 ^ a"
    and c: "unat core = ?x div 2 ^ a mod 2 ^ b"
    and p: "unat pkg = ?x div 2 ^ a div 2 ^ b"
    using assms(3) unfolding x86topology_power [OF assms(1,2)]
    by (auto simp: unsigned_take_bit_eq drop_bit_unat power_add div_mult2_eq
        simp flip: take_bit_eq_mod)
  show ?thesis by (simp only: t c p div_mult_mod_eq) simp
qed

section \<open>The APIC identifier loop\<close>

definition level_type :: "cpuid_fn \<Rightarrow> u32 \<Rightarrow> u32" where
  "level_type cpuid n = drop_bit 8 (ecx (cpuid CPUID_STANDARD_TOPOLOGY n)) AND 0xff"

lemma apic_levels_ends:
  assumes "level_type cpuid 2 = 0" "level_type cpuid 3 = 0"
  shows "\<exists>r. apic_levels cpuid g apic = Some r \<and>
    (r = 0 \<longrightarrow> drop_bit 8 (ecx g) AND 0xff \<in> {0, 1, 2 :: u32})"
proof -
  have stop: "apic_levels cpuid (cpuid CPUID_STANDARD_TOPOLOGY n) apic = Some 0"
    if "level_type cpuid n = 0" for n
    using that by (subst apic_levels.simps) (simp add: level_type_def)
  show ?thesis
    using stop [OF assms(1)] stop [OF assms(2)]
    by (subst apic_levels.simps) (auto simp: Let_def)
qed

lemma apic_levels_diverges:
  assumes "level_type cpuid 2 = 1" "edx (cpuid CPUID_STANDARD_TOPOLOGY 2) = apic"
  shows "apic_levels cpuid (cpuid CPUID_STANDARD_TOPOLOGY 2) apic = None"
proof -
  have "\<not> (cpuid' = cpuid \<and> g = cpuid CPUID_STANDARD_TOPOLOGY 2 \<and> apic' = apic)"
    if "apic_levels cpuid' g apic' = Some r" for cpuid' g apic' r
    using that
  proof (induction rule: apic_levels.raw_induct [rotated, consumes 1, case_names step])
    case (step f cpuid' g apic' r)
    then show ?case using assms
      by (auto simp: Let_def level_type_def split: if_splits)
  qed
  then show ?thesis by (metis not_None_eq)
qed

lemma x86apic_total:
  assumes "level_type cpuid 2 = 0" "level_type cpuid 3 = 0"
  shows "\<exists>r v. x86apic cpuid maxlevel apic = Some (r, v)"
  using apic_levels_ends [OF assms] by (fastforce simp: x86apic_def Let_def)

section \<open>Properties\<close>

text \<open>
  Property C21: the local APIC identifier splits into its three parts and back. For counts
  that are powers of two, the masks and shifts of \<open>x86topology\<close> yield the thread within the core,
  the core within the package and the package, each in its range, and the identifier is
  recovered from them.
\<close>

theorem x86topology_roundtrip:
  assumes "unat (cpu_threadspercore cpu) = 2 ^ a" "unat (cpu_coresperpackage cpu) = 2 ^ b"
  shows "\<exists>thread core pkg. x86topology cpu = Some (thread, core, pkg) \<and>
    unat thread < unat (cpu_threadspercore cpu) \<and> unat core < unat (cpu_coresperpackage cpu) \<and>
    unat (apic_of cpu) =
      (unat pkg * unat (cpu_coresperpackage cpu) + unat core) * unat (cpu_threadspercore cpu) + unat thread"
  using x86topology_power [OF assms] x86topology_split [OF assms] assms by fastforce

theorem x86topology_roundtrip_witness:
  "\<exists>thread core pkg. x86topology (set_apic 0x1d (zero_cput\<lparr>cpu_threadspercore := 2, cpu_coresperpackage := 4\<rparr>)) =
      Some (thread, core, pkg) \<and> (unat pkg * 4 + unat core) * 2 + unat thread = 0x1d"
  using x86topology_roundtrip [of "set_apic 0x1d (zero_cput\<lparr>cpu_threadspercore := 2, cpu_coresperpackage := 4\<rparr>)" 1 2]
  by (auto simp: apic_of_def set_apic_def)

text \<open>
  Fact: without a power of two the split loses information. Function 0xb may report
  12 threads per package; two different identifiers of one package then get the same
  thread, core and package.
\<close>

theorem x86topology_collision:
  "x86topology (set_apic 0 (zero_cput\<lparr>cpu_threadspercore := 2, cpu_coresperpackage := 12\<rparr>)) =
   x86topology (set_apic 8 (zero_cput\<lparr>cpu_threadspercore := 2, cpu_coresperpackage := 12\<rparr>))"
  by code_simp

text \<open>
  Fact: the loop of \<open>id_x86_topology\<close> rounds the reported thread count up to the least
  power of two that is not smaller.
\<close>

theorem round_pow2_least:
  assumes "0 < t" "unat t \<le> 2 ^ 31"
  shows "\<exists>k. unat (round_pow2 t) = 2 ^ k \<and> unat t \<le> 2 ^ k \<and> (\<forall>j. unat t \<le> 2 ^ j \<longrightarrow> k \<le> j)"
  using assms by (rule round_pow2_spec)

theorem round_pow2_least_witness: "\<exists>k. unat (round_pow2 6) = 2 ^ k \<and> 6 \<le> (2::nat) ^ k"
  using round_pow2_least [of 6] by auto

text \<open>
  Fact: when does reading the local APIC identifier return? The walk over the levels
  of function 0xb returns when the subleaves 2 and 3 are documented as invalid (level type 0),
  and runs forever on a processor that answers level type 1 in subleaf 2.
\<close>

theorem x86apic_returns:
  assumes "CPUID_STANDARD_TOPOLOGY \<le> maxlevel"
    and "edx (cpuid CPUID_STANDARD_TOPOLOGY 0) AND 0xff = drop_bit 24 (ebx (cpuid CPUID_CPU_VERSION 0)) AND 0xff"
    and "edx (cpuid CPUID_STANDARD_TOPOLOGY 2) = edx (cpuid CPUID_STANDARD_TOPOLOGY 0)"
    and "level_type cpuid 0 = 1"
  shows "(level_type cpuid 2 = 0 \<longrightarrow>
      x86apic cpuid maxlevel apic = Some (0, edx (cpuid CPUID_STANDARD_TOPOLOGY 0))) \<and>
    (level_type cpuid 2 = 1 \<longrightarrow> x86apic cpuid maxlevel apic = None)"
proof -
  let ?x = "edx (cpuid CPUID_STANDARD_TOPOLOGY 0)"
  have big: "\<not> maxlevel < CPUID_STANDARD_TOPOLOGY" "\<not> maxlevel < CPUID_CPU_VERSION"
    using assms(1) by (auto simp: word_less_nat_alt word_le_nat_alt)
  have walk: "apic_levels cpuid (cpuid CPUID_STANDARD_TOPOLOGY 0) ?x =
      apic_levels cpuid (cpuid CPUID_STANDARD_TOPOLOGY 2) ?x"
    using assms(3,4) by (subst apic_levels.simps) (simp add: level_type_def Let_def)
  have run: "x86apic cpuid maxlevel apic =
      map_option (\<lambda>r. (r, ?x)) (apic_levels cpuid (cpuid CPUID_STANDARD_TOPOLOGY 2) ?x)"
    using big assms(2) walk by (simp add: x86apic_def Let_def)
  have "level_type cpuid 2 = 0 \<Longrightarrow> x86apic cpuid maxlevel apic = Some (0, ?x)"
    using run by (simp add: apic_levels.simps [of cpuid "cpuid CPUID_STANDARD_TOPOLOGY 2"] level_type_def Let_def
        del: CPUID_STANDARD_TOPOLOGY_def)
  moreover have "level_type cpuid 2 = 1 \<Longrightarrow> x86apic cpuid maxlevel apic = None"
    using run apic_levels_diverges [of cpuid ?x] assms(3) by simp
  ultimately show ?thesis by blast
qed

theorem x86apic_returns_witness:
  "x86apic (\<lambda>leaf n. \<lparr>eax = 0, ebx = 0, ecx = (if n = 0 then 0x100 else 0), edx = 0\<rparr>) 11 7 = Some (0, 0)"
  using x86apic_returns [of 11 "\<lambda>leaf n. \<lparr>eax = 0, ebx = 0, ecx = (if n = 0 then 0x100 else 0), edx = 0\<rparr>" 7]
  by (simp add: level_type_def)

end
