(* ===== verification/X86_Amd.thy ===== *)
theory X86_Amd
  imports X86_Topology
begin

text \<open>
  Detection of AMD (and VIA) caches and TLBs, from
  \<^verbatim>\<open>src/src/libtorque/hardware/x86cpuid.c\<close>: the register decoders, \<open>id_amd_gbtlbs\<close>,
  \<open>id_amd_23caches\<close>, \<open>id_amd_caches\<close>, \<open>id_via_caches\<close>. Sizes are computed in 32-bit
  arithmetic as the sources do; a division by a zero line size traps, and the call
  then has the value \<open>None\<close>.
\<close>

named_theorems adds_intros \<open>steps that only add to a well-formed processor\<close>

section \<open>Register decoders\<close>

definition amd_dtlb_presentp :: "u32 \<Rightarrow> bool" where
  "amd_dtlb_presentp reg \<longleftrightarrow> reg AND 0xf0000000 \<noteq> 0 \<and> reg AND 0x0fff0000 \<noteq> 0"

definition amd_itlb_presentp :: "u32 \<Rightarrow> bool" where
  "amd_itlb_presentp reg \<longleftrightarrow> reg AND 0x0000f000 \<noteq> 0 \<and> reg AND 0x00000fff \<noteq> 0"

definition amd_cache_presentp :: "u32 \<Rightarrow> bool" where
  "amd_cache_presentp reg \<longleftrightarrow> drop_bit 12 reg AND 0xf \<noteq> 0"

definition amd_l23assoc :: "u32 \<Rightarrow> u32 \<Rightarrow> u32" where
  "amd_l23assoc idx lines =
     (if idx = 0xf then lines
      else if idx = 0xe then 128
      else if idx = 0xd then 96
      else if idx = 0xc then 64
      else if idx = 0xb then 48
      else if idx = 0xa then 32
      else if idx = 0x8 then 16
      else if idx = 0x6 then 8
      else if idx = 0x4 then 4
      else if idx = 0x2 then 2
      else if idx = 0x1 then 1
      else 0)"

definition scale_amd_l23tlb :: "u32 \<Rightarrow> u32 \<Rightarrow> u32" where
  "scale_amd_l23tlb dents psize =
     (if psize = 4 * 1024 * 1024 then dents div 2
      else if psize = 2 * 1024 * 1024 then dents
      else if psize = 1 * 1024 * 1024 * 1024 then dents
      else if psize = 4 * 1024 then dents
      else 0)"

text \<open>The TLB decoders return the C result, the associativity and the entries.\<close>

definition decode_amd_l23dtlb :: "u32 \<Rightarrow> u32 \<Rightarrow> int \<times> u32 \<times> u32" where
  "decode_amd_l23dtlb reg psize =
     (let dents = scale_amd_l23tlb (drop_bit 16 reg AND 0xfff) psize;
          dassoc = amd_l23assoc (drop_bit 28 reg) dents
      in (if dents \<noteq> 0 \<and> dassoc \<noteq> 0 then 0 else - 1, dassoc, dents))"

definition decode_amd_l23itlb :: "u32 \<Rightarrow> u32 \<Rightarrow> int \<times> u32 \<times> u32" where
  "decode_amd_l23itlb reg psize =
     (let ients = scale_amd_l23tlb (reg AND 0xfff) psize;
          iassoc = amd_l23assoc (drop_bit 12 reg AND 0xf) ients
      in (if ients \<noteq> 0 \<and> iassoc \<noteq> 0 then 0 else - 1, iassoc, ients))"

text \<open>The cache decoders return the C result, the size, the associativity and the line size.\<close>

definition decode_amd_l23cache ::
  "u32 \<Rightarrow> nat \<Rightarrow> u32 \<Rightarrow> (int \<times> u64 \<times> u32 \<times> u32) option" where
  "decode_amd_l23cache reg shift mul =
     (let sz = ucast (drop_bit shift reg * 1024 * mul) :: u64; lsize = reg AND 0xff in
      if lsize = 0 then None \<comment> \<open>division by zero\<close>
      else if sz div ucast lsize > 0xffffffff then Some (- 1, sz, 0, lsize)
      else
        let lines = ucast (sz div ucast lsize) :: u32;
            assoc = amd_l23assoc (drop_bit 12 reg AND 0xf) lines
        in Some (if sz \<noteq> 0 \<and> assoc \<noteq> 0 \<and> lsize \<noteq> 0 then 0 else - 1, sz, assoc, lsize))"

definition amd_l1assoc :: "u32 \<Rightarrow> u32 \<Rightarrow> u32" where
  "amd_l1assoc idx lines = (if idx = 0xff then lines else idx)"

text \<open>Result, data associativity, code associativity, data entries, code entries.\<close>

definition decode_amd_l1tlb :: "u32 \<Rightarrow> int \<times> u32 \<times> u32 \<times> u32 \<times> u32" where
  "decode_amd_l1tlb reg =
     (let dents = drop_bit 16 reg AND 0xff;
          ients = reg AND 0xff;
          dassoc = amd_l1assoc (drop_bit 24 reg) dents;
          iassoc = amd_l1assoc (drop_bit 8 reg AND 0xff) ients
      in (if dassoc \<noteq> 0 \<and> iassoc \<noteq> 0 \<and> dents \<noteq> 0 \<and> ients \<noteq> 0 then 0 else - 1,
          dassoc, iassoc, dents, ients))"

definition decode_amd_l1cache :: "u32 \<Rightarrow> (int \<times> u64 \<times> u32 \<times> u32) option" where
  "decode_amd_l1cache reg =
     (let sz = ucast (drop_bit 24 reg * 1024) :: u64; lsize = reg AND 0xff in
      if lsize = 0 then None \<comment> \<open>division by zero\<close>
      else
        let assoc = amd_l1assoc (drop_bit 16 reg AND 0xff) (ucast (sz div ucast lsize))
        in Some (if sz \<noteq> 0 \<and> assoc \<noteq> 0 \<and> lsize \<noteq> 0 then 0 else - 1, sz, assoc, lsize))"

definition determine_amd_pagesize :: "feature_flags \<Rightarrow> u32" where
  "determine_amd_pagesize ff = (if ff_lme ff then 1024 * 1024 * 4 else 1024 * 1024 * 2)"

section \<open>Detection\<close>

type_synonym detection = "int \<times> torque_cput \<times> sysst"

text \<open>Statement sequencing: stop at the first nonzero result.\<close>

definition on_ok :: "detection \<Rightarrow> (torque_cput \<Rightarrow> sysst \<Rightarrow> detection) \<Rightarrow> detection" where
  "on_ok r k = (case r of (ret, cpu, s) \<Rightarrow> if ret \<noteq> 0 then (ret, cpu, s) else k cpu s)"

definition add_tlb_ret :: "torque_tlbt \<Rightarrow> torque_cput \<Rightarrow> sysst \<Rightarrow> detection" where
  "add_tlb_ret tlb cpu s =
     (case cpu_add_tlb cpu tlb s of (ok, cpu', s') \<Rightarrow> (if ok then 0 else - 1, cpu', s'))"

definition add_hwmem_ret :: "torque_memt \<Rightarrow> torque_cput \<Rightarrow> sysst \<Rightarrow> detection" where
  "add_hwmem_ret mem cpu s =
     (case cpu_add_hwmem cpu mem s of (ok, cpu', s') \<Rightarrow> (if ok then 0 else - 1, cpu', s'))"

definition mk_tlb :: "u32 \<Rightarrow> u32 \<Rightarrow> torque_memtypet \<Rightarrow> u32 \<Rightarrow> u32 \<Rightarrow> u32 \<Rightarrow> torque_tlbt" where
  "mk_tlb lev psize tt ways assoc ents =
     \<lparr>tlb_entries = ents, tlb_pagesize = psize, tlb_associativity = assoc,
      tlb_sharedways = ways, tlb_tlbtype = tt, tlb_level = lev\<rparr>"

definition mk_mem :: "u32 \<Rightarrow> torque_memtypet \<Rightarrow> u32 \<Rightarrow> u64 \<Rightarrow> u32 \<Rightarrow> u32 \<Rightarrow> torque_memt" where
  "mk_mem lev mt ways sz assoc lsize =
     \<lparr>mem_totalsize = sz, mem_linesize = lsize, mem_associativity = assoc,
      mem_sharedways = ways, mem_memtype = mt, mem_level = lev\<rparr>"

text \<open>The guarded statement of a data (or code) TLB half-register.\<close>

definition amd_dtlb_step :: "u32 \<Rightarrow> u32 \<Rightarrow> u32 \<Rightarrow> torque_cput \<Rightarrow> sysst \<Rightarrow> detection" where
  "amd_dtlb_step reg lev psize cpu s =
     (if amd_dtlb_presentp reg then
        (case decode_amd_l23dtlb reg psize of
           (r, assoc, ents) \<Rightarrow>
             if r \<noteq> 0 then (- 1, cpu, s)
             else add_tlb_ret (mk_tlb lev psize MEMTYPE_DATA (cpu_threadspercore cpu) assoc ents) cpu s)
      else (0, cpu, s))"

definition amd_itlb_step :: "u32 \<Rightarrow> u32 \<Rightarrow> u32 \<Rightarrow> torque_cput \<Rightarrow> sysst \<Rightarrow> detection" where
  "amd_itlb_step reg lev psize cpu s =
     (if amd_itlb_presentp reg then
        (case decode_amd_l23itlb reg psize of
           (r, assoc, ents) \<Rightarrow>
             if r \<noteq> 0 then (- 1, cpu, s)
             else add_tlb_ret (mk_tlb lev psize MEMTYPE_CODE (cpu_threadspercore cpu) assoc ents) cpu s)
      else (0, cpu, s))"

definition id_amd_gbtlbs ::
  "cpuid_fn \<Rightarrow> u32 \<Rightarrow> feature_flags \<Rightarrow> torque_cput \<Rightarrow> sysst \<Rightarrow> detection" where
  "id_amd_gbtlbs cpuid maxexlevel ff cpud s =
     (if \<not> ff_gbpt ff then (0, cpud, s)
      else if maxexlevel < CPUID_EXTENDED_GBTLB then (0, cpud, s)
      else
        let g = cpuid CPUID_EXTENDED_GBTLB 0; psize = 1024 * 1024 * 1024 in
        on_ok (amd_dtlb_step (eax g) 1 psize cpud s) (\<lambda>cpu s.
        on_ok (amd_itlb_step (eax g) 1 psize cpu s) (\<lambda>cpu s.
        on_ok (amd_dtlb_step (ebx g) 2 psize cpu s) (\<lambda>cpu s.
        amd_itlb_step (ebx g) 2 psize cpu s))))"

definition amd_l23cache_step ::
  "u32 \<Rightarrow> u32 \<Rightarrow> u32 \<Rightarrow> nat \<Rightarrow> u32 \<Rightarrow> torque_cput \<Rightarrow> sysst \<Rightarrow> detection option" where
  "amd_l23cache_step reg lev ways shift mul cpu s =
     (if amd_cache_presentp reg then
        (case decode_amd_l23cache reg shift mul of
           None \<Rightarrow> None
         | Some (r, sz, assoc, lsize) \<Rightarrow>
             Some (if r \<noteq> 0 then (- 1, cpu, s)
                   else add_hwmem_ret (mk_mem lev MEMTYPE_UNIFIED ways sz assoc lsize) cpu s))
      else Some (0, cpu, s))"

definition id_amd_23tlbs ::
  "gpregs \<Rightarrow> feature_flags \<Rightarrow> torque_cput \<Rightarrow> sysst \<Rightarrow> detection" where
  "id_amd_23tlbs g ff cpud s =
     (let psize24 = determine_amd_pagesize ff in
      on_ok (amd_dtlb_step (eax g) 2 psize24 cpud s) (\<lambda>cpu s.
      on_ok (amd_itlb_step (eax g) 2 psize24 cpu s) (\<lambda>cpu s.
      on_ok (amd_dtlb_step (ebx g) 2 4096 cpu s) (\<lambda>cpu s.
      amd_itlb_step (ebx g) 2 4096 cpu s))))"

definition id_amd_23caches ::
  "cpuid_fn \<Rightarrow> u32 \<Rightarrow> feature_flags \<Rightarrow> torque_cput \<Rightarrow> sysst \<Rightarrow> detection option" where
  "id_amd_23caches cpuid maxexlevel ff cpud s =
     (if maxexlevel < CPUID_EXTENDED_L23CACHE_TLB then Some (0, cpud, s)
      else
        let g = cpuid CPUID_EXTENDED_L23CACHE_TLB 0 in
        case amd_l23cache_step (ecx g) 2 (cpu_threadspercore cpud) 16 1 cpud s of
          None \<Rightarrow> None
        | Some (r2, cpu2, s2) \<Rightarrow>
            if r2 \<noteq> 0 then Some (r2, cpu2, s2)
            else
              (case amd_l23cache_step (edx g) 3 (cpu_coresperpackage cpud) 18 512 cpu2 s2 of
                 None \<Rightarrow> None
               | Some r3 \<Rightarrow>
                   Some (on_ok r3 (\<lambda>cpu s.
                     on_ok (id_amd_23tlbs g ff cpu s) (id_amd_gbtlbs cpuid maxexlevel ff)))))"

text \<open>The six insertions at the end of the first-level detection.\<close>

definition amd_add_l1 ::
  "torque_memt \<Rightarrow> torque_memt \<Rightarrow> torque_tlbt \<Rightarrow> torque_tlbt \<Rightarrow> torque_tlbt \<Rightarrow> torque_tlbt \<Rightarrow>
     torque_cput \<Rightarrow> sysst \<Rightarrow> detection" where
  "amd_add_l1 l1icache l1dcache tlb tlb24 itlb itlb24 cpud s =
     on_ok (add_hwmem_ret l1icache cpud s) (\<lambda>cpu s.
     on_ok (add_hwmem_ret l1dcache cpu s) (\<lambda>cpu s.
     on_ok (add_tlb_ret tlb cpu s) (\<lambda>cpu s.
     on_ok (add_tlb_ret tlb24 cpu s) (\<lambda>cpu s.
     on_ok (add_tlb_ret itlb cpu s) (\<lambda>cpu s.
     add_tlb_ret itlb24 cpu s)))))"

definition id_amd_caches ::
  "cpuid_fn \<Rightarrow> u32 \<Rightarrow> feature_flags \<Rightarrow> torque_cput \<Rightarrow> sysst \<Rightarrow> detection option" where
  "id_amd_caches cpuid maxlevel ff cpud s =
     (let maxex = identify_extended_cpuid cpuid; g = cpuid CPUID_AMD_L1CACHE_TLB 0 in
      if maxex < CPUID_AMD_L1CACHE_TLB then Some (- 1, cpud, s)
      else
        case decode_amd_l1cache (ecx g) of
          None \<Rightarrow> None
        | Some (ri, isize, iassoc, ilsize) \<Rightarrow>
            if ri \<noteq> 0 then Some (- 1, cpud, s)
            else
        case decode_amd_l1cache (edx g) of
          None \<Rightarrow> None
        | Some (rd, dsize, dassoc, dlsize) \<Rightarrow>
            if rd \<noteq> 0 then Some (- 1, cpud, s)
            else
        case decode_amd_l1tlb (eax g) of
          (r24, da24, ia24, de24, ie24) \<Rightarrow>
            if r24 \<noteq> 0 then Some (- 1, cpud, s)
            else
        case decode_amd_l1tlb (ebx g) of
          (r4, da, ia, de, ie) \<Rightarrow>
            if r4 \<noteq> 0 then Some (- 1, cpud, s)
            else
              let ways = cpu_threadspercore cpud; p24 = determine_amd_pagesize ff in
              case amd_add_l1 (mk_mem 1 MEMTYPE_CODE ways isize iassoc ilsize)
                     (mk_mem 1 MEMTYPE_DATA ways dsize dassoc dlsize)
                     (mk_tlb 1 4096 MEMTYPE_DATA ways da de) (mk_tlb 1 p24 MEMTYPE_DATA ways da24 de24)
                     (mk_tlb 1 4096 MEMTYPE_CODE ways ia ie) (mk_tlb 1 p24 MEMTYPE_CODE ways ia24 ie24)
                     cpud s of
                (r, cpu', s') \<Rightarrow>
                  if r \<noteq> 0 then Some (- 1, cpu', s')
                  else
                    (case id_amd_23caches cpuid maxex ff cpu' s' of
                       None \<Rightarrow> None
                     | Some (r23, cpu'', s'') \<Rightarrow> Some (if r23 \<noteq> 0 then - 1 else 0, cpu'', s'')))"

definition id_via_caches ::
  "cpuid_fn \<Rightarrow> u32 \<Rightarrow> feature_flags \<Rightarrow> torque_cput \<Rightarrow> sysst \<Rightarrow> detection option" where
  "id_via_caches cpuid maxlevel ff cpu s =
     Some (add_hwmem_ret (mk_mem 1 MEMTYPE_UNKNOWN 0 0 0 32) cpu s)"

section \<open>Well-formedness\<close>

text \<open>
  Every statement of the AMD routines extends a well-formed processor to a
  well-formed one; nothing detected before is lost and the other fields stay.
\<close>

definition adds_to :: "torque_cput \<Rightarrow> detection \<Rightarrow> bool" where
  "adds_to cpu r \<longleftrightarrow> cput_wf (fst (snd r)) \<and> cpu_grows cpu (fst (snd r))"

lemma adds_to_refl [adds_intros]: "cput_wf cpu \<Longrightarrow> adds_to cpu (r, cpu, s)"
  by (simp add: adds_to_def)

lemma adds_to_on_ok [adds_intros]:
  "adds_to cpu r \<Longrightarrow> (\<And>cpu' s'. cput_wf cpu' \<Longrightarrow> adds_to cpu' (k cpu' s')) \<Longrightarrow> adds_to cpu (on_ok r k)"
  by (cases r) (auto simp: adds_to_def on_ok_def intro: cpu_grows_trans)

lemma adds_to_trans: "adds_to cpu (r, cpu', s') \<Longrightarrow> adds_to cpu' q \<Longrightarrow> adds_to cpu q"
  by (auto simp: adds_to_def intro: cpu_grows_trans)

lemma add_tlb_ret_adds [adds_intros]: "cput_wf cpu \<Longrightarrow> adds_to cpu (add_tlb_ret t cpu s)"
  by (auto simp: adds_to_def add_tlb_ret_def split: prod.split
      intro: cpu_add_tlb_wf cpu_add_tlb_grows)

lemma add_hwmem_ret_adds [adds_intros]: "cput_wf cpu \<Longrightarrow> adds_to cpu (add_hwmem_ret m cpu s)"
  by (auto simp: adds_to_def add_hwmem_ret_def split: prod.split
      intro: cpu_add_hwmem_wf cpu_add_hwmem_grows)

lemma amd_tlb_steps_add [adds_intros]:
  "cput_wf cpu \<Longrightarrow> adds_to cpu (amd_dtlb_step reg lev ps cpu s)"
  "cput_wf cpu \<Longrightarrow> adds_to cpu (amd_itlb_step reg lev ps cpu s)"
  by (auto simp: amd_dtlb_step_def amd_itlb_step_def split: prod.split intro: adds_intros)

lemma id_amd_gbtlbs_adds [adds_intros]:
  "cput_wf cpu \<Longrightarrow> adds_to cpu (id_amd_gbtlbs cpuid maxex ff cpu s)"
  by (simp add: id_amd_gbtlbs_def Let_def) (intro conjI impI adds_intros)

lemma id_amd_23tlbs_adds [adds_intros]:
  "cput_wf cpu \<Longrightarrow> adds_to cpu (id_amd_23tlbs g ff cpu s)"
  unfolding id_amd_23tlbs_def Let_def by (intro adds_intros)

lemma amd_l23cache_step_adds:
  "cput_wf cpu \<Longrightarrow> amd_l23cache_step reg lev ways sh mul cpu s = Some r \<Longrightarrow> adds_to cpu r"
  by (auto simp: amd_l23cache_step_def split: if_splits option.splits intro: adds_intros)

lemma id_amd_23caches_adds:
  assumes "cput_wf cpu" "id_amd_23caches cpuid maxex ff cpu s = Some r"
  shows "adds_to cpu r"
proof (cases "maxex < CPUID_EXTENDED_L23CACHE_TLB")
  case True
  then show ?thesis using assms by (auto simp: id_amd_23caches_def intro: adds_intros)
next
  case False
  define g where "g = cpuid CPUID_EXTENDED_L23CACHE_TLB 0"
  obtain r2 cpu2 s2 where l2:
    "amd_l23cache_step (ecx g) 2 (cpu_threadspercore cpu) 16 1 cpu s = Some (r2, cpu2, s2)"
    using assms(2) False by (auto simp: id_amd_23caches_def Let_def g_def split: option.splits)
  have a2: "adds_to cpu (r2, cpu2, s2)" by (rule amd_l23cache_step_adds [OF assms(1) l2])
  then have w2: "cput_wf cpu2" by (simp add: adds_to_def)
  show ?thesis
  proof (cases "r2 = 0")
    case True
    then obtain r3 where
      l3: "amd_l23cache_step (edx g) 3 (cpu_coresperpackage cpu) 18 512 cpu2 s2 = Some r3"
      and r: "r = on_ok r3 (\<lambda>cpu s.
        on_ok (id_amd_23tlbs g ff cpu s) (id_amd_gbtlbs cpuid maxex ff))"
      using assms(2) False l2
      by (auto simp: id_amd_23caches_def Let_def g_def split: option.splits)
    have "adds_to cpu2 r"
      unfolding r using amd_l23cache_step_adds [OF w2 l3] by (intro adds_intros)
    with a2 show ?thesis by (rule adds_to_trans)
  next
    case False
    then show ?thesis
      using assms(2) l2 a2 \<open>\<not> maxex < CPUID_EXTENDED_L23CACHE_TLB\<close>
      by (auto simp: id_amd_23caches_def Let_def g_def)
  qed
qed

lemma amd_add_l1_adds [adds_intros]:
  "cput_wf cpu \<Longrightarrow> adds_to cpu (amd_add_l1 mi md t t24 i i24 cpu s)"
  unfolding amd_add_l1_def by (intro adds_intros)

text \<open>What a first-level descriptor must have, as the decoders test it.\<close>

definition mem_present :: "torque_memt \<Rightarrow> bool" where
  "mem_present m \<longleftrightarrow> mem_totalsize m \<noteq> 0 \<and> mem_linesize m \<noteq> 0 \<and> mem_associativity m \<noteq> 0"

lemma decode_amd_l1cache_ok:
  "decode_amd_l1cache reg = Some (0, sz, assoc, lsize) \<Longrightarrow> mem_present (mk_mem lev mt ways sz assoc lsize)"
  by (auto simp: decode_amd_l1cache_def mem_present_def mk_mem_def Let_def split: if_splits)

lemma decode_amd_l1cache_defined: "reg AND 0xff \<noteq> 0 \<Longrightarrow> decode_amd_l1cache reg \<noteq> None"
  by (simp add: decode_amd_l1cache_def Let_def)

lemma on_ok_fst: "fst (on_ok r k) = 0 \<Longrightarrow> fst r = 0 \<and> fst (k (fst (snd r)) (snd (snd r))) = 0"
  by (cases r) (auto simp: on_ok_def split: if_splits)

lemma on_ok_eq: "fst r = 0 \<Longrightarrow> on_ok r k = k (fst (snd r)) (snd (snd r))"
  by (cases r) (simp add: on_ok_def)

lemma on_ok_0D:
  "on_ok r k = (0, cpu', s') \<Longrightarrow> \<exists>cpu1 s1. r = (0, cpu1, s1) \<and> k cpu1 s1 = (0, cpu', s')"
  by (cases r) (auto simp: on_ok_def split: if_splits)

lemma add_hwmem_ret_0D:
  "add_hwmem_ret m cpu s = (0, cpu', s') \<Longrightarrow> cput_wf cpu \<Longrightarrow>
   cput_wf cpu' \<and> mset (cpu_memdescs cpu') = add_mset m (mset (cpu_memdescs cpu)) \<and>
   cpu_tlbdescs cpu' = cpu_tlbdescs cpu"
  by (auto simp: add_hwmem_ret_def split: prod.splits if_splits
      dest: cpu_add_hwmem_eq intro: cpu_add_hwmem_wf)

lemma add_tlb_ret_0D:
  "add_tlb_ret t cpu s = (0, cpu', s') \<Longrightarrow> cput_wf cpu \<Longrightarrow>
   cput_wf cpu' \<and> mset (cpu_tlbdescs cpu') = add_mset t (mset (cpu_tlbdescs cpu)) \<and>
   cpu_memdescs cpu' = cpu_memdescs cpu"
  by (auto simp: add_tlb_ret_def split: prod.splits if_splits
      dest: cpu_add_tlb_eq intro: cpu_add_tlb_wf)

lemma amd_add_l1_0D:
  assumes "amd_add_l1 mi md t t24 i i24 cpu s = (0, cpu', s')" "cput_wf cpu"
  shows "mset (cpu_memdescs cpu') = mset (cpu_memdescs cpu) + {# mi, md #} \<and>
    mset (cpu_tlbdescs cpu') = mset (cpu_tlbdescs cpu) + {# t, t24, i, i24 #}"
  using assms unfolding amd_add_l1_def
  by (auto dest!: on_ok_0D add_hwmem_ret_0D add_tlb_ret_0D)

text \<open>
  The result of the first-level routine: well-formed, nothing lost, and after success
  the two first-level caches are there with nonzero geometry.
\<close>

lemma id_amd_caches_cases:
  assumes "id_amd_caches cpuid maxlevel ff cpu s = Some (r, cpu', s')" "cput_wf cpu"
  shows "r \<noteq> 0 \<and> cpu' = cpu \<or> (\<exists>mi md t t24 i i24 r1 cpu1 s1.
    mem_present mi \<and> mem_present md \<and> mem_level mi = 1 \<and> mem_level md = 1 \<and>
    mem_memtype mi = MEMTYPE_CODE \<and> mem_memtype md = MEMTYPE_DATA \<and>
    amd_add_l1 mi md t t24 i i24 cpu s = (r1, cpu1, s1) \<and>
    (if r1 \<noteq> 0 then r \<noteq> 0 \<and> cpu' = cpu1
     else \<exists>r23 s2. id_amd_23caches cpuid (identify_extended_cpuid cpuid) ff cpu1 s1 =
       Some (r23, cpu', s2)))"
proof -
  have m: "mem_level (mk_mem lev mt ways sz a l) = lev" "mem_memtype (mk_mem lev mt ways sz a l) = mt"
    for lev mt ways sz a l by (simp_all add: mk_mem_def)
  show ?thesis
    using assms(1) unfolding id_amd_caches_def Let_def
    by (simp split: if_split_asm option.split_asm prod.split_asm)
      (metis (no_types, lifting) decode_amd_l1cache_ok m)+
qed

lemma id_amd_caches_adds:
  assumes "id_amd_caches cpuid maxlevel ff cpu s = Some (r, cpu', s')" "cput_wf cpu"
  shows "adds_to cpu (r, cpu', s')"
  using id_amd_caches_cases [OF assms]
proof (elim disjE exE conjE)
  assume "cpu' = cpu"
  then show ?thesis using assms(2) by (simp add: adds_to_def)
next
  fix mi md t t24 i i24 r1 cpu1 s1
  assume l1: "amd_add_l1 mi md t t24 i i24 cpu s = (r1, cpu1, s1)"
    and rest: "if r1 \<noteq> 0 then r \<noteq> 0 \<and> cpu' = cpu1
      else \<exists>r23 s2. id_amd_23caches cpuid (identify_extended_cpuid cpuid) ff cpu1 s1 =
        Some (r23, cpu', s2)"
  have a: "adds_to cpu (r1, cpu1, s1)"
    using amd_add_l1_adds [OF assms(2)] l1 by metis
  then have w: "cput_wf cpu1" by (simp add: adds_to_def)
  show ?thesis
  proof (cases "r1 = 0")
    case True
    with rest obtain r23 s2 where "id_amd_23caches cpuid (identify_extended_cpuid cpuid) ff cpu1 s1 =
      Some (r23, cpu', s2)" by auto
    from id_amd_23caches_adds [OF w this] a show ?thesis
      by (auto simp: adds_to_def intro: cpu_grows_trans)
  next
    case False
    then show ?thesis using rest a by (simp add: adds_to_def)
  qed
qed

lemma id_amd_caches_l1:
  assumes "id_amd_caches cpuid maxlevel ff cpu s = Some (0, cpu', s')" "cput_wf cpu"
  shows "\<exists>mi md. {# mi, md #} \<subseteq># mset (cpu_memdescs cpu') \<and> mem_present mi \<and> mem_present md \<and>
    mem_level mi = 1 \<and> mem_level md = 1 \<and>
    mem_memtype mi = MEMTYPE_CODE \<and> mem_memtype md = MEMTYPE_DATA"
  using id_amd_caches_cases [OF assms]
proof (elim disjE exE conjE)
  fix mi md t t24 i i24 r1 cpu1 s1
  assume l1: "amd_add_l1 mi md t t24 i i24 cpu s = (r1, cpu1, s1)"
    and rest: "if r1 \<noteq> 0 then (0::int) \<noteq> 0 \<and> cpu' = cpu1
      else \<exists>r23 s2. id_amd_23caches cpuid (identify_extended_cpuid cpuid) ff cpu1 s1 =
        Some (r23, cpu', s2)"
    and ok: "mem_present mi" "mem_present md" "mem_level mi = 1" "mem_level md = 1"
      "mem_memtype mi = MEMTYPE_CODE" "mem_memtype md = MEMTYPE_DATA"
  from rest have r1: "r1 = 0" by (auto split: if_splits)
  with rest obtain r23 s2 where e: "id_amd_23caches cpuid (identify_extended_cpuid cpuid) ff cpu1 s1 =
      Some (r23, cpu', s2)" by auto
  have w: "cput_wf cpu1"
    using amd_add_l1_adds [OF assms(2), of mi md t t24 i i24 s] l1 by (simp add: adds_to_def)
  have "{# mi, md #} \<subseteq># mset (cpu_memdescs cpu1)"
    using amd_add_l1_0D [OF l1 [unfolded r1] assms(2)] by simp
  also have "mset (cpu_memdescs cpu1) \<subseteq># mset (cpu_memdescs cpu')"
    using id_amd_23caches_adds [OF w e] by (simp add: adds_to_def cpu_grows_def)
  finally show ?thesis using ok by blast
qed simp

section \<open>Properties\<close>

text \<open>
  Property C40: AMD cache detection. When \<open>id_amd_caches\<close> succeeds on a well-formed processor
  the result is well formed, keeps every descriptor it had, and holds a level 1 code cache and a
  level 1 data cache of non-zero size, associativity and line size.
\<close>

theorem amd_caches_detected:
  assumes "id_amd_caches cpuid maxlevel ff cpu s = Some (0, cpu', s')" "cput_wf cpu"
  shows "cput_wf cpu' \<and> cpu_grows cpu cpu' \<and>
    (\<exists>mi md. {# mi, md #} \<subseteq># mset (cpu_memdescs cpu') \<and> mem_present mi \<and> mem_present md \<and>
      mem_level mi = 1 \<and> mem_level md = 1 \<and>
      mem_memtype mi = MEMTYPE_CODE \<and> mem_memtype md = MEMTYPE_DATA)"
  using id_amd_caches_adds [OF assms] id_amd_caches_l1 [OF assms] by (simp add: adds_to_def)

text \<open>Two-way caches of 64 KB with lines of 64 bytes, and nothing beyond level 1.\<close>

definition sample_amd :: cpuid_fn where
  "sample_amd leaf n =
     (if leaf = 0x80000000 then \<lparr>eax = 0x80000005, ebx = 0, ecx = 0, edx = 0\<rparr>
      else if leaf = 0x80000005
      then \<lparr>eax = 0xff08ff08, ebx = 0xff10ff10, ecx = 0x40020140, edx = 0x40020140\<rparr>
      else \<lparr>eax = 0, ebx = 0, ecx = 0, edx = 0\<rparr>)"

theorem amd_caches_detected_witness:
  "\<exists>cpu' s'. id_amd_caches sample_amd 1 no_flags zero_cput (os_answering (replicate 6 ok_ret)) =
      Some (0, cpu', s') \<and> cput_wf cpu' \<and>
    (\<exists>mi md. {# mi, md #} \<subseteq># mset (cpu_memdescs cpu') \<and> mem_present mi \<and> mem_present md)"
proof -
  have "map_option fst (id_amd_caches sample_amd 1 no_flags zero_cput
      (os_answering [ok_ret, ok_ret, ok_ret, ok_ret, ok_ret, ok_ret])) = Some 0" by code_simp
  then obtain cpu' s' where run: "id_amd_caches sample_amd 1 no_flags zero_cput
      (os_answering (replicate 6 ok_ret)) = Some (0, cpu', s')"
    by (auto simp: numeral_eq_Suc)
  moreover have "cput_wf zero_cput" by (simp add: cput_wf_def zero_cput_def)
  ultimately show ?thesis using amd_caches_detected [OF run] by blast
qed

end
