(* ===== verification/X86cpuid.thy ===== *)
theory X86cpuid
  imports X86_Amd
begin

text \<open>
  The entry point of processor detection, \<open>x86cpuid\<close> of
  \<^verbatim>\<open>src/src/libtorque/hardware/x86cpuid.c\<close>, with the vendor table, the brand name and
  the dispatch to the vendor's topology and cache routines. Whether the instruction
  exists, the result of \<open>cpuid_available\<close>, is a parameter, like the instruction.
\<close>

section \<open>Is there a cpuid instruction\<close>

text \<open>
  The processor has the instruction when bit 21 of the flags can be changed: \<open>popf\<close> is what the flags read after a value was
  written to them, \<open>flags\<close> their content before. Both are written back at the end.
\<close>

definition cpuid_available :: "(u64 \<Rightarrow> u64) \<Rightarrow> u64 \<Rightarrow> bool" where
  "cpuid_available popf flags =
     (let flag = 0x200000; f2 = flags; f1 = popf (f2 XOR flag) in (f1 XOR f2) AND flag \<noteq> 0)"

text \<open>
  Fact: bit 21 decides. The result is true exactly when the bit reads back changed, whatever else \<open>popf\<close> does to the flags.
\<close>

theorem cpuid_available_bit: "cpuid_available popf flags \<longleftrightarrow> bit (popf (flags XOR 0x200000)) 21 \<noteq> bit flags 21"
proof -
  have e: "0x200000 = (push_bit 21 1 :: u64)" by simp
  have "w AND push_bit 21 1 \<noteq> 0 \<longleftrightarrow> bit w 21" for w :: u64
    by (metis and_exp_eq_0_iff_not_bit push_bit_of_1)
  then show ?thesis unfolding cpuid_available_def Let_def e by (simp add: bit_xor_iff)
qed

section \<open>Vendors\<close>

datatype memfxn = Mem_intel | Mem_amd | Mem_via
datatype topfxn = Top_intel | Top_amd

record known_x86_vendor =
  signet :: string
  vendor_memfxn :: memfxn
  vendor_topfxn :: "topfxn option"

definition vendors :: "known_x86_vendor list" where
  "vendors =
     [\<lparr>signet = ''GenuntelineI'', vendor_memfxn = Mem_intel, vendor_topfxn = Some Top_intel\<rparr>,
      \<lparr>signet = ''AuthcAMDenti'', vendor_memfxn = Mem_amd, vendor_topfxn = Some Top_amd\<rparr>,
      \<lparr>signet = ''CentaulsaurH'', vendor_memfxn = Mem_via, vendor_topfxn = None\<rparr>]"

definition lookup_vendor :: "u32 list \<Rightarrow> known_x86_vendor option" where
  "lookup_vendor vendstr =
     find (\<lambda>v. concat (map word_bytes vendstr) = string_bytes (signet v)) vendors"

fun call_memfxn ::
  "memfxn \<Rightarrow> cpuid_fn \<Rightarrow> u32 \<Rightarrow> feature_flags \<Rightarrow> torque_cput \<Rightarrow> sysst \<Rightarrow> detection option" where
  "call_memfxn Mem_intel = id_intel_caches"
| "call_memfxn Mem_amd = id_amd_caches"
| "call_memfxn Mem_via = id_via_caches"

fun call_topfxn ::
  "topfxn \<Rightarrow> cpuid_fn \<Rightarrow> u32 \<Rightarrow> feature_flags \<Rightarrow> torque_cput \<Rightarrow> (int \<times> torque_cput) option" where
  "call_topfxn Top_intel = id_intel_topology"
| "call_topfxn Top_amd = id_amd_topology"

section \<open>The brand name\<close>

text \<open>The copy loop: duplicate and leading spaces (byte 0x20) are dropped.\<close>

fun squeeze :: "bool \<Rightarrow> u8 list \<Rightarrow> u8 list" where
  "squeeze hadspace [] = []"
| "squeeze hadspace (c # cs) =
     (if c \<noteq> 0x20 \<or> \<not> hadspace then c # squeeze (c = 0x20) cs else squeeze hadspace cs)"

definition brand_ops :: "u32 list" where
  "brand_ops = [CPUID_EXTENDED_CPU_NAME1, CPUID_EXTENDED_CPU_NAME2, CPUID_EXTENDED_CPU_NAME3]"

definition brand_bytes :: "cpuid_fn \<Rightarrow> u8 list" where
  "brand_bytes cpuid = concat (map (\<lambda>op. concat (map word_bytes (regs_list (cpuid op 0)))) brand_ops)"

text \<open>The contents of the local buffer, its terminator included.\<close>

definition brandname :: "cpuid_fn \<Rightarrow> u8 list" where
  "brandname cpuid = squeeze True (brand_bytes cpuid) @ [0]"

definition x86_getbrandname :: "cpuid_fn \<Rightarrow> torque_cput \<Rightarrow> sysst \<Rightarrow> detection" where
  "x86_getbrandname cpuid cpudesc s =
     (if identify_extended_cpuid cpuid < CPUID_EXTENDED_CPU_NAME3 then (- 1, cpudesc, s)
      else
        (case sys_alloc Sys_strdup s of
           (ok, s') \<Rightarrow>
             if ok then
               (0, cpudesc\<lparr>cpu_strdescription :=
                  Some (bytes_string (takeWhile (\<lambda>c. c \<noteq> 0) (brandname cpuid)))\<rparr>, s')
             else (- 1, cpudesc\<lparr>cpu_strdescription := None\<rparr>, s')))"

section \<open>The entry point\<close>

definition x86cpuid_reset :: "torque_cput \<Rightarrow> torque_cput" where
  "x86cpuid_reset cpudesc =
     cpudesc\<lparr>cpu_elements := 0, cpu_tlbdescs := [], cpu_memdescs := [], cpu_strdescription := None,
       cpu_tlbs := 0, cpu_memories := 0,
       cpu_spec := Spec_x86 (zero_x86\<lparr>x86_x86type := PROCESSOR_X86_UNKNOWN\<rparr>),
       cpu_threadspercore := 0, cpu_coresperpackage := 0\<rparr>"

definition top_stage ::
  "known_x86_vendor \<Rightarrow> cpuid_fn \<Rightarrow> u32 \<Rightarrow> feature_flags \<Rightarrow> torque_cput \<Rightarrow> (int \<times> torque_cput) option" where
  "top_stage v cpuid maxlevel ff cpu =
     (case vendor_topfxn v of
        None \<Rightarrow> Some (0, cpu)
      | Some f \<Rightarrow> call_topfxn f cpuid maxlevel ff cpu)"

text \<open>The last two stages: the brand name and the position of the processor.\<close>

definition x86cpuid_tail ::
  "cpuid_fn \<Rightarrow> torque_cput \<Rightarrow> sysst \<Rightarrow> int \<times> torque_cput \<times> (u32 \<times> u32 \<times> u32) option \<times> sysst" where
  "x86cpuid_tail cpuid cpu s =
     (case x86_getbrandname cpuid cpu s of
        (rb, cpu3, s3) \<Rightarrow>
          if rb \<noteq> 0 then (- 1, cpu3, None, s3)
          else
            (case x86topology cpu3 of
               None \<Rightarrow> (- 1, cpu3, None, s3)
             | Some pos \<Rightarrow> (0, cpu3\<lparr>cpu_isa := TORQUE_ISA_X86\<rparr>, Some pos, s3)))"

text \<open>
  The result: the C result, the processor, the position (thread, core, package) when
  it was computed, and the system state.
\<close>

definition x86cpuid ::
  "bool \<Rightarrow> cpuid_fn \<Rightarrow> torque_cput \<Rightarrow> sysst \<Rightarrow>
     (int \<times> torque_cput \<times> (u32 \<times> u32 \<times> u32) option \<times> sysst) option" where
  "x86cpuid avail cpuid cpudesc s =
     (let cpu0 = x86cpuid_reset cpudesc in
      if \<not> avail then Some (- 1, cpu0, None, s)
      else
        let g = cpuid CPUID_MAX_SUPPORT 0; maxlevel = eax g in
        case lookup_vendor [ebx g, ecx g, edx g] of
          None \<Rightarrow> Some (- 1, cpu0, None, s)
        | Some vendor \<Rightarrow>
        case x86_getprocsig cpuid maxlevel (spec_x86 (cpu_spec cpu0)) of
          None \<Rightarrow> Some (- 1, cpu0, None, s)
        | Some (sig, ff) \<Rightarrow>
        case top_stage vendor cpuid maxlevel ff (cpu0\<lparr>cpu_spec := Spec_x86 sig\<rparr>) of
          None \<Rightarrow> None
        | Some (rt, cpu1) \<Rightarrow>
            if rt \<noteq> 0 then Some (- 1, cpu1, None, s)
            else
        case call_memfxn (vendor_memfxn vendor) cpuid maxlevel ff cpu1 s of
          None \<Rightarrow> None
        | Some (rm, cpu2, s2) \<Rightarrow>
            if rm \<noteq> 0 then Some (- 1, cpu2, None, s2)
            else
              Some (x86cpuid_tail cpuid cpu2 s2))"

section \<open>Properties of the brand name\<close>

fun no_double_space :: "bool \<Rightarrow> u8 list \<Rightarrow> bool" where
  "no_double_space hadspace [] = True"
| "no_double_space hadspace (c # cs) =
     ((c = 0x20 \<longrightarrow> \<not> hadspace) \<and> no_double_space (c = 0x20) cs)"

lemma squeeze_length: "length (squeeze h cs) \<le> length cs"
  by (induction cs arbitrary: h) (auto intro: le_SucI)

lemma squeeze_no_double: "no_double_space h (squeeze h cs)"
  by (induction cs arbitrary: h) auto

lemma squeeze_filter: "filter (\<lambda>c. c \<noteq> 0x20) (squeeze h cs) = filter (\<lambda>c. c \<noteq> 0x20) cs"
  by (induction cs arbitrary: h) auto

lemma squeeze_id: "no_double_space h cs \<Longrightarrow> squeeze h cs = cs"
  by (induction cs arbitrary: h) auto

lemma length_brand_bytes [simp]: "length (brand_bytes cpuid) = 48"
  by (simp add: brand_bytes_def brand_ops_def regs_list_def)

lemma no_double_takeWhile: "no_double_space h cs \<Longrightarrow> no_double_space h (takeWhile P cs)"
  by (induction cs arbitrary: h) auto

lemma no_double_append0: "no_double_space h (cs @ [0]) = no_double_space h cs"
  by (induction cs arbitrary: h) auto

lemma brandname_facts:
  "length (brandname cpuid) \<le> 49"
  "no_double_space True (takeWhile (\<lambda>c. c \<noteq> 0) (brandname cpuid))"
  using squeeze_length [of True "brand_bytes cpuid"] squeeze_no_double [of True "brand_bytes cpuid"]
  by (simp_all add: brandname_def no_double_takeWhile no_double_append0)

section \<open>The stages of a successful detection\<close>

lemma topfxn_frame:
  assumes "call_topfxn f cpuid maxlevel ff cpu = Some (r, cpu')"
  shows "cpu_memories cpu' = cpu_memories cpu \<and> cpu_memdescs cpu' = cpu_memdescs cpu \<and>
    cpu_tlbs cpu' = cpu_tlbs cpu \<and> cpu_tlbdescs cpu' = cpu_tlbdescs cpu"
proof -
  have x: "id_x86_topology cpuid maxlevel ff c = (r, c') \<Longrightarrow>
      cpu_memories c' = cpu_memories c \<and> cpu_memdescs c' = cpu_memdescs c \<and>
      cpu_tlbs c' = cpu_tlbs c \<and> cpu_tlbdescs c' = cpu_tlbdescs c" for c c' r
    by (auto simp: id_x86_topology_def Let_def split: if_splits)
  have a: "cpu_x86apic cpuid maxlevel c = Some (r, c') \<Longrightarrow>
      cpu_memories c' = cpu_memories c \<and> cpu_memdescs c' = cpu_memdescs c \<and>
      cpu_tlbs c' = cpu_tlbs c \<and> cpu_tlbdescs c' = cpu_tlbdescs c" for c c' r
    by (auto simp: cpu_x86apic_def set_apic_def split: option.splits)
  show ?thesis
    using assms
    by (cases f) (auto simp: id_intel_topology_def id_amd_topology_def Let_def
        split: if_splits dest!: x a)
qed

lemma memfxn_wf:
  assumes "call_memfxn f cpuid maxlevel ff cpu s = Some (r, cpu', s')" "cput_wf cpu"
  shows "cput_wf cpu'"
proof (cases f)
  case Mem_intel
  then show ?thesis using id_intel_caches_wf [OF assms(2)] assms(1) by auto
next
  case Mem_amd
  then show ?thesis using id_amd_caches_adds [OF _ assms(2)] assms(1) by (simp add: adds_to_def)
next
  case Mem_via
  then show ?thesis using add_hwmem_ret_adds [OF assms(2)] assms(1)
    by (auto simp: id_via_caches_def adds_to_def) (metis fst_conv snd_conv)
qed

lemma x86_getbrandname_wf:
  "x86_getbrandname cpuid cpu s = (r, cpu', s') \<Longrightarrow> cput_wf cpu \<Longrightarrow> cput_wf cpu'"
  by (auto simp: x86_getbrandname_def cput_wf_def split: prod.splits if_splits)

text \<open>How far a call got: which stage produced the result.\<close>

lemma x86cpuid_stages:
  assumes "x86cpuid avail cpuid cpudesc s = Some (r, cpu', pos, s')"
    and "g = cpuid CPUID_MAX_SUPPORT 0" "cpu0 = x86cpuid_reset cpudesc"
  shows "r = - 1 \<and> pos = None \<and> cpu' = cpu0 \<or>
    (\<exists>v sig ff rt cpu1.
       lookup_vendor [ebx g, ecx g, edx g] = Some v \<and>
       top_stage v cpuid (eax g) ff (cpu0\<lparr>cpu_spec := Spec_x86 sig\<rparr>) = Some (rt, cpu1) \<and>
       (if rt \<noteq> 0 then r = - 1 \<and> pos = None \<and> cpu' = cpu1
        else \<exists>rm cpu2 s2.
          call_memfxn (vendor_memfxn v) cpuid (eax g) ff cpu1 s = Some (rm, cpu2, s2) \<and>
          (if rm \<noteq> 0 then r = - 1 \<and> pos = None \<and> cpu' = cpu2
           else x86cpuid_tail cpuid cpu2 s2 = (r, cpu', pos, s'))))"
  using assms(1) unfolding x86cpuid_def Let_def assms(2,3)
  by (simp split: if_split_asm option.split_asm prod.split_asm) (metis (no_types, lifting))+

lemma x86cpuid_tail_wf:
  "x86cpuid_tail cpuid cpu s = (r, cpu', pos, s') \<Longrightarrow> cput_wf cpu \<Longrightarrow> cput_wf cpu'"
  by (auto simp: x86cpuid_tail_def cput_wf_def split: prod.splits if_splits option.splits
      dest!: x86_getbrandname_wf)

lemma reset_wf: "cput_wf (x86cpuid_reset cpudesc)"
  by (simp add: cput_wf_def x86cpuid_reset_def)

lemma top_stage_wf:
  "top_stage v cpuid maxlevel ff cpu = Some (r, cpu') \<Longrightarrow> cput_wf cpu \<Longrightarrow> cput_wf cpu'"
  by (auto simp: top_stage_def cput_wf_def split: option.splits dest!: topfxn_frame)

lemma isa_wf: "cput_wf (cpu\<lparr>cpu_isa := i\<rparr>) = cput_wf cpu"
  "cput_wf (cpu\<lparr>cpu_spec := d\<rparr>) = cput_wf cpu"
  by (simp_all add: cput_wf_def)

lemma x86cpuid_wf:
  assumes "x86cpuid avail cpuid cpudesc s = Some (r, cpu', pos, s')"
  shows "cput_wf cpu'"
  using x86cpuid_stages [OF assms refl refl]
  by (elim disjE exE conjE)
    (auto simp: reset_wf isa_wf split: if_splits
      dest!: top_stage_wf memfxn_wf x86cpuid_tail_wf)

lemma x86topology_isa: "x86topology (cpu\<lparr>cpu_isa := i\<rparr>) = x86topology cpu"
  by (simp add: x86topology_def)

lemma x86topology_Some_nonzero:
  "x86topology cpu = Some p \<Longrightarrow> cpu_threadspercore cpu \<noteq> 0 \<and> cpu_coresperpackage cpu \<noteq> 0"
  by (auto simp: x86topology_def Let_def split: if_splits)

lemma x86_getbrandname_ok:
  "x86_getbrandname cpuid cpu s = (0, cpu', s') \<Longrightarrow>
   cpu' = cpu\<lparr>cpu_strdescription := Some (bytes_string (takeWhile (\<lambda>c. c \<noteq> 0) (brandname cpuid)))\<rparr>"
  by (auto simp: x86_getbrandname_def split: prod.splits if_splits)

lemma x86cpuid_tail_ok:
  assumes "x86cpuid_tail cpuid cpu s = (0, cpu', pos, s')"
  shows "pos = x86topology cpu' \<and> pos \<noteq> None \<and> cpu_isa cpu' = TORQUE_ISA_X86 \<and>
   cpu_threadspercore cpu' = cpu_threadspercore cpu \<and> cpu_threadspercore cpu \<noteq> 0 \<and>
   cpu_coresperpackage cpu' \<noteq> 0 \<and>
   cpu_strdescription cpu' = Some (bytes_string (takeWhile (\<lambda>c. c \<noteq> 0) (brandname cpuid)))"
proof -
  obtain cpu3 p where b: "x86_getbrandname cpuid cpu s = (0, cpu3, s')"
    and p: "x86topology cpu3 = Some p" "pos = Some p" "cpu' = cpu3\<lparr>cpu_isa := TORQUE_ISA_X86\<rparr>"
    using assms by (auto simp: x86cpuid_tail_def split: prod.splits if_splits option.splits)
  show ?thesis
    using x86_getbrandname_ok [OF b] x86topology_Some_nonzero [OF p(1)] p
    by (simp add: x86topology_isa)
qed

lemma x86cpuid_tail_result: "fst (x86cpuid_tail cpuid cpu s) \<in> {0, - 1}"
  by (auto simp: x86cpuid_tail_def split: prod.splits option.splits)

lemma x86cpuid_ok:
  assumes "x86cpuid avail cpuid cpudesc s = Some (0, cpu', pos, s')"
  shows "pos = x86topology cpu' \<and> pos \<noteq> None \<and> cpu_isa cpu' = TORQUE_ISA_X86 \<and>
    cpu_threadspercore cpu' \<noteq> 0 \<and> cpu_coresperpackage cpu' \<noteq> 0 \<and>
    cpu_strdescription cpu' = Some (bytes_string (takeWhile (\<lambda>c. c \<noteq> 0) (brandname cpuid)))"
  using x86cpuid_stages [OF assms refl refl]
  by (auto split: if_splits dest!: x86cpuid_tail_ok)

lemma memfxn_via_threads:
  "call_memfxn Mem_via cpuid maxlevel ff cpu s = Some (r, cpu', s') \<Longrightarrow>
   cpu_threadspercore cpu' = cpu_threadspercore cpu"
  by (auto simp: id_via_caches_def add_hwmem_ret_def cpu_add_hwmem_def split: prod.splits)

text \<open>The VIA entry has no topology routine, so the thread count stays zero.\<close>

lemma x86cpuid_via_fails:
  assumes "x86cpuid avail cpuid cpudesc s = Some (r, cpu', pos, s')"
    and "g = cpuid CPUID_MAX_SUPPORT 0"
    and "lookup_vendor [ebx g, ecx g, edx g] =
      Some \<lparr>signet = ''CentaulsaurH'', vendor_memfxn = Mem_via, vendor_topfxn = None\<rparr>"
  shows "r = - 1"
proof (rule ccontr)
  assume n: "r \<noteq> - 1"
  obtain cpu2 s2 where t: "x86cpuid_tail cpuid cpu2 s2 = (r, cpu', pos, s')"
    and z: "cpu_threadspercore cpu2 = 0"
    using x86cpuid_stages [OF assms(1,2) refl] assms(3) n
    by (auto simp: top_stage_def x86cpuid_reset_def split: if_splits
        dest!: memfxn_via_threads simp del: call_memfxn.simps)
  have "r = 0" using x86cpuid_tail_result [of cpuid cpu2 s2] t n by simp
  then show False using x86cpuid_tail_ok [of cpuid cpu2 s2 cpu' pos s'] t z by simp
qed

section \<open>A sample processor\<close>

text \<open>
  A single-threaded Intel processor that stops at function 2 and reports one descriptor,
  for the witnesses.
\<close>

definition sample_regs :: "u32 \<Rightarrow> u32 \<Rightarrow> u32 \<Rightarrow> u32 \<Rightarrow> gpregs" where
  "sample_regs a b c d = \<lparr>eax = a, ebx = b, ecx = c, edx = d\<rparr>"

definition sample_intel :: cpuid_fn where
  "sample_intel leaf n =
     (if leaf = 0 then sample_regs 2 0x756e6547 0x6c65746e 0x49656e69
      else if leaf = 2 then sample_regs 1 0 0 0x2c
      else if leaf = 0x80000000 then sample_regs 0x80000004 0 0 0
      else if leaf = 0x80000002 then sample_regs 0x6e6f6558 0 0 0
      else sample_regs 0 0 0 0)"

lemma sample_vendor:
  "lookup_vendor [0x756e6547, 0x6c65746e, 0x49656e69] =
   Some \<lparr>signet = ''GenuntelineI'', vendor_memfxn = Mem_intel, vendor_topfxn = Some Top_intel\<rparr>"
  by code_simp

lemma sample_func2:
  "decode_intel_func2 cpu \<lparr>eax = 1, ebx = 0, ecx = 0, edx = 0x2c\<rparr> s = func2_descriptor cpu 0x2c s"
proof -
  have "func2_descriptors \<lparr>eax = 1, ebx = 0, ecx = 0, edx = 0x2c\<rparr> = [0x2c]" by code_simp
  then show ?thesis by (simp add: decode_intel_func2_eq split: prod.splits)
qed

lemma sample_cache:
  "get_intel_cache 0x2c 1 = Some \<lparr>mem_totalsize = 32768, mem_linesize = 64, mem_associativity = 8,
     mem_sharedways = 1, mem_memtype = MEMTYPE_DATA, mem_level = 1\<rparr>"
  by code_simp

lemma round_pow2_1: "round_pow2 1 = 1" by code_simp
lemma halve_shift_1: "halve_shift 1 x = x" by (simp add: halve_shift.simps)

lemmas sample_simps = sample_intel_def sample_regs_def sample_vendor sample_func2 sample_cache
  round_pow2_1 halve_shift_1

lemma sample_intel_run:
  assumes "answers s = ok_ret # ok_ret # as"
  shows "\<exists>cpu s'. x86cpuid True sample_intel zero_cput s = Some (0, cpu, Some (0, 0, 0), s') \<and>
    answers s' = as \<and> cpu_tlbdescs cpu = [] \<and> cpu_tlbs cpu = 0"
  using assms
  by (simp add: sample_simps x86cpuid_def x86_getprocsig_def identify_extended_cpuid_def
      top_stage_def Let_def id_intel_topology_def id_x86_topology_def id_intel_caches_def
      id_intel_caches_old_def func2_calls.simps func2_descriptor_def x86cpuid_reset_def
      match_memtype_def cpu_add_hwmem_def add_hwmem_def io_simps x86cpuid_tail_def
      x86_getbrandname_def x86topology_def zero_cput_def zero_x86_def zero_features_def
      array_insert_def split: prod.splits)

section \<open>Properties\<close>

text \<open>
  Property C39: what a successful \<open>x86cpuid\<close> delivers: a well-formed description (ordered
  arrays, exact counts) of the x86 instruction set, with non-zero threads per core and cores
  per package, the brand name, and the position computed from that same description.
\<close>

theorem x86cpuid_delivers:
  assumes "x86cpuid avail cpuid cpudesc s = Some (0, cpu', pos, s')"
  shows "cput_wf cpu' \<and> pos = x86topology cpu' \<and> pos \<noteq> None \<and> cpu_isa cpu' = TORQUE_ISA_X86 \<and>
    cpu_threadspercore cpu' \<noteq> 0 \<and> cpu_coresperpackage cpu' \<noteq> 0 \<and>
    cpu_strdescription cpu' = Some (bytes_string (takeWhile (\<lambda>c. c \<noteq> 0) (brandname cpuid)))"
  using x86cpuid_wf [OF assms] x86cpuid_ok [OF assms] by blast

theorem x86cpuid_delivers_witness:
  "\<exists>cpu' pos s'. x86cpuid True sample_intel zero_cput (os_answering [ok_ret, ok_ret]) =
     Some (0, cpu', pos, s') \<and> cput_wf cpu' \<and> pos = x86topology cpu' \<and> pos = Some (0, 0, 0)"
proof -
  obtain cpu' s' where "x86cpuid True sample_intel zero_cput (os_answering [ok_ret, ok_ret]) =
      Some (0, cpu', Some (0, 0, 0), s')"
    using sample_intel_run [of "os_answering [ok_ret, ok_ret]" "[]"] by (auto simp: os_answering_def)
  from this x86cpuid_delivers [OF this] show ?thesis by blast
qed

text \<open>
  Fact: the brand name. The 48 bytes of the three extended functions fit the 49 byte
  buffer with their terminator; the copy keeps every byte but spaces, in order, and the
  resulting string neither starts with a space nor has two in a row.
\<close>

theorem brandname_squeezed:
  "length (brandname cpuid) \<le> 49 \<and>
   filter (\<lambda>c. c \<noteq> 0x20) (brandname cpuid) = filter (\<lambda>c. c \<noteq> 0x20) (brand_bytes cpuid) @ [0] \<and>
   no_double_space True (takeWhile (\<lambda>c. c \<noteq> 0) (brandname cpuid))"
  using brandname_facts [of cpuid] squeeze_filter [of True "brand_bytes cpuid"] by (simp add: brandname_def)

text \<open>
  Fact: a VIA processor is in the vendor table and is never identified. The table has
  no topology routine for it, so the threads per core stay 0 and \<open>x86topology\<close> fails.
\<close>

theorem via_never_identified:
  assumes "x86cpuid avail cpuid cpudesc s = Some (r, cpu', pos, s')"
    and "cpuid 0 0 = \<lparr>eax = lev, ebx = 0x746e6543, ecx = 0x736c7561, edx = 0x48727561\<rparr>"
  shows "r = - 1"
proof (rule x86cpuid_via_fails [OF assms(1) refl])
  show "lookup_vendor [ebx (cpuid CPUID_MAX_SUPPORT 0), ecx (cpuid CPUID_MAX_SUPPORT 0),
      edx (cpuid CPUID_MAX_SUPPORT 0)] =
    Some \<lparr>signet = ''CentaulsaurH'', vendor_memfxn = Mem_via, vendor_topfxn = None\<rparr>"
    unfolding CPUID_MAX_SUPPORT_def assms(2) by (simp only: gpregs.simps) code_simp
qed

definition sample_via :: cpuid_fn where
  "sample_via leaf n =
     (if leaf = 0 then \<lparr>eax = 1, ebx = 0x746e6543, ecx = 0x736c7561, edx = 0x48727561\<rparr>
      else if leaf = 0x80000000 then \<lparr>eax = 0x80000004, ebx = 0, ecx = 0, edx = 0\<rparr>
      else \<lparr>eax = 0, ebx = 0, ecx = 0, edx = 0\<rparr>)"

theorem via_never_identified_witness:
  "\<exists>cpu' pos s'. x86cpuid True sample_via zero_cput (os_answering [ok_ret, ok_ret]) =
     Some (- 1, cpu', pos, s') \<and> cpu_memories cpu' = 1"
proof -
  have "map_option (\<lambda>x. cpu_memories (fst (snd x)))
      (x86cpuid True sample_via zero_cput (os_answering [ok_ret, ok_ret])) = Some 1" by code_simp
  then obtain r cpu' pos s' where run: "x86cpuid True sample_via zero_cput (os_answering [ok_ret, ok_ret]) =
      Some (r, cpu', pos, s')" and "cpu_memories cpu' = 1" by (auto elim: map_option_eq_Some [THEN iffD1, THEN exE])
  moreover have "r = - 1" by (rule via_never_identified [OF run, of 1]) (simp add: sample_via_def)
  ultimately show ?thesis by blast
qed

end
