(* ===== verification/Topology.thy ===== *)
theory Topology
  imports X86cpuid
begin

text \<open>
  The scheduling topology of \<^verbatim>\<open>src/src/libtorque/hardware/topology.c\<close>. A
  \<open>torque_topt\<close> is a zone; a chain of \<open>next\<close> pointers is a list, and \<open>sub == NULL\<close> is
  the empty list. The map \<open>tm\<close> that detection keeps beside it is the list of its
  slots; an access outside it is undefined behaviour, and the call then has the
  value \<open>None\<close>.
\<close>

section \<open>Zones\<close>

definition CPU_SETSIZE :: nat where [simp]: "CPU_SETSIZE = 1024"

datatype zone =
  Zone (schedulable: "nat set") (groupid: u32) (cpudesc: nat) (sub: "zone list")

record top_map =
  top_thread :: u32
  top_core :: u32
  top_package :: u32

definition zero_top_map :: top_map where
  "zero_top_map = \<lparr>top_thread = 0, top_core = 0, top_package = 0\<rparr>"

definition create_zone :: "u32 \<Rightarrow> nat \<Rightarrow> sysst \<Rightarrow> zone option \<times> sysst" where
  "create_zone gid cputype s =
     (case sys_alloc (Sys_malloc ''zone'') s of
        (ok, s') \<Rightarrow> (if ok then Some (Zone {} gid cputype []) else None, s'))"

text \<open>
  \<open>find_sched_group\<close> returns the position of the group in the chain, which it may
  have extended, or \<open>None\<close> when the new group could not be allocated.
\<close>

fun find_sched_group ::
  "zone list \<Rightarrow> u32 \<Rightarrow> nat \<Rightarrow> sysst \<Rightarrow> nat option \<times> zone list \<times> sysst" where
  "find_sched_group zs gid cputype s =
     (case zs of
        z # rest \<Rightarrow>
          if groupid z = gid then (Some 0, zs, s)
          else if groupid z > gid then
            (case create_zone gid cputype s of
               (Some n, s') \<Rightarrow> (Some 0, n # zs, s')
             | (None, s') \<Rightarrow> (None, zs, s'))
          else
            (case find_sched_group rest gid cputype s of
               (r, rest', s') \<Rightarrow> (map_option Suc r, z # rest', s'))
      | [] \<Rightarrow>
          (case create_zone gid cputype s of
             (Some n, s') \<Rightarrow> (Some 0, [n], s')
           | (None, s') \<Rightarrow> (None, [], s')))"

declare find_sched_group.simps [simp del]

text \<open>The scan of \<open>share_level\<close> and \<open>first_aid\<close> over the bits of a set.\<close>

function scan_aid :: "nat set \<Rightarrow> nat \<Rightarrow> nat" where
  "scan_aid cs z = (if z < CPU_SETSIZE then if z \<in> cs then z else scan_aid cs (z + 1) else z)"
  by pat_completeness auto
termination
  by (relation "measure (\<lambda>(cs, z). CPU_SETSIZE - z)") auto

declare scan_aid.simps [simp del]

definition share_level :: "zone \<Rightarrow> bool" where
  "share_level sz \<longleftrightarrow> scan_aid (schedulable sz) 0 < CPU_SETSIZE"

definition first_aid :: "nat set \<Rightarrow> nat" where
  "first_aid cs = scan_aid cs 0"

fun cpu_set :: "nat \<Rightarrow> zone \<Rightarrow> zone" where
  "cpu_set aid (Zone sch g d sb) = Zone (insert aid sch) g d sb"

fun set_sub :: "zone list \<Rightarrow> zone \<Rightarrow> zone" where
  "set_sub sb (Zone sch g d _) = Zone sch g d sb"

text \<open>
  The part of \<open>topologize\<close> under \<open>share_level\<close>: the group already has a processor, so
  the new one goes into a subgroup. It returns the C result and the updated group.
\<close>

definition topologize_sub ::
  "top_map list \<Rightarrow> nat \<Rightarrow> u32 \<Rightarrow> nat \<Rightarrow> zone \<Rightarrow> sysst \<Rightarrow> (torque_err \<times> zone \<times> sysst) option" where
  "topologize_sub tm aid core cputype sg s =
     (let oid = first_aid (schedulable sg) in
      if sub sg = [] \<and> oid \<ge> CPU_SETSIZE then Some (TORQUE_ERR_ASSERT, sg, s)
      else if sub sg = [] \<and> oid \<ge> length tm then None
      else
        case (if sub sg = [] then
                (case create_zone (top_core (tm ! oid)) cputype s of
                   (Some n, s1) \<Rightarrow> (Some (set_sub [cpu_set oid n] sg), s1)
                 | (None, s1) \<Rightarrow> (None, s1))
              else (Some sg, s)) of
          (None, s1) \<Rightarrow> Some (TORQUE_ERR_RESOURCE, sg, s1)
        | (Some sg1, s1) \<Rightarrow>
            (case find_sched_group (sub sg1) core cputype s1 of
               (None, sb, s2) \<Rightarrow> Some (TORQUE_ERR_RESOURCE, set_sub sb sg1, s2)
             | (Some i, sb, s2) \<Rightarrow> Some (0, set_sub (sb[i := cpu_set aid (sb ! i)]) sg1, s2)))"

definition topologize ::
  "zone list \<Rightarrow> top_map list \<Rightarrow> nat \<Rightarrow> u32 \<Rightarrow> u32 \<Rightarrow> u32 \<Rightarrow> nat \<Rightarrow> sysst \<Rightarrow>
     (torque_err \<times> zone list \<times> top_map list \<times> sysst) option" where
  "topologize zs tm aid thread core pkg cputype s =
     (if aid \<ge> CPU_SETSIZE then Some (TORQUE_ERR_ASSERT, zs, tm, s)
      else
        (case find_sched_group zs pkg cputype s of
           (None, zs1, s1) \<Rightarrow> Some (TORQUE_ERR_RESOURCE, zs1, tm, s1)
         | (Some i, zs1, s1) \<Rightarrow>
             (case (if share_level (zs1 ! i) then topologize_sub tm aid core cputype (zs1 ! i) s1
                    else Some (0, zs1 ! i, s1)) of
                None \<Rightarrow> None
              | Some (r, sg, s2) \<Rightarrow>
                  if r \<noteq> 0 then Some (r, zs1[i := sg], tm, s2)
                  else if aid \<ge> length tm then None
                  else
                    Some (0, zs1[i := cpu_set aid sg],
                      tm[aid := \<lparr>top_thread = thread, top_core = core, top_package = pkg\<rparr>], s2))))"

fun free_topology :: "zone list \<Rightarrow> sysst \<Rightarrow> sysst" where
  "free_topology [] s = s"
| "free_topology (Zone _ _ _ sb # rest) s =
     free_topology rest (sys_note (Sys_free ''zone'') (free_topology sb s))"

definition reset_topology :: "zone list \<Rightarrow> sysst \<Rightarrow> zone list \<times> sysst" where
  "reset_topology zs s = ([], free_topology zs s)"

definition torque_cpu_getdesc :: "nat \<Rightarrow> torque_cput list \<Rightarrow> nat \<Rightarrow> torque_cput option" where
  "torque_cpu_getdesc typecount cpudescs n = (if n \<ge> typecount then None else Some (cpudescs ! n))"

text \<open>The outer option of a lookup is \<open>None\<close> when a null pointer would be followed.\<close>

fun lookup_aid_intop ::
  "nat \<Rightarrow> torque_cput list \<Rightarrow> zone list \<Rightarrow> nat \<Rightarrow> torque_cput option option" where
  "lookup_aid_intop typecount cpudescs [] aid = None"
| "lookup_aid_intop typecount cpudescs (Zone sch g d sb # rest) aid =
     (if aid \<in> sch then
        (if sb \<noteq> [] then lookup_aid_intop typecount cpudescs sb aid
         else Some (torque_cpu_getdesc typecount cpudescs d))
      else if rest = [] then Some None
      else lookup_aid_intop typecount cpudescs rest aid)"

definition lookup_aid ::
  "nat \<Rightarrow> torque_cput list \<Rightarrow> zone list \<Rightarrow> nat \<Rightarrow> torque_cput option option" where
  "lookup_aid typecount cpudescs sched_zone aid =
     lookup_aid_intop typecount cpudescs sched_zone aid"

section \<open>The abstract topology\<close>

text \<open>
  The contract: the topology represents a placement, a map from processors to their
  package and core. Packages are the groups of the first level in increasing order;
  a group holds exactly the processors of its package; once a package has a second
  processor its subgroups are its cores.
\<close>

type_synonym placement = "nat \<rightharpoonup> u32 \<times> u32"

definition groups_ordered :: "zone list \<Rightarrow> bool" where
  "groups_ordered zs \<longleftrightarrow> sorted_wrt (\<lambda>a b. groupid a < groupid b) zs"

definition core_ok :: "placement \<Rightarrow> u32 \<Rightarrow> zone \<Rightarrow> bool" where
  "core_ok pm p y \<longleftrightarrow> sub y = [] \<and> schedulable y = {a. pm a = Some (p, groupid y)} \<and>
     schedulable y \<noteq> {}"

definition package_ok :: "placement \<Rightarrow> zone \<Rightarrow> bool" where
  "package_ok pm z \<longleftrightarrow>
     schedulable z = {a. \<exists>c. pm a = Some (groupid z, c)} \<and> schedulable z \<noteq> {} \<and>
     (if sub z = [] then \<exists>a. schedulable z = {a}
      else groups_ordered (sub z) \<and> (\<forall>y\<in>set (sub z). core_ok pm (groupid z) y) \<and>
        (\<forall>a c. pm a = Some (groupid z, c) \<longrightarrow> c \<in> groupid ` set (sub z)))"

definition topo_rep :: "zone list \<Rightarrow> placement \<Rightarrow> bool" where
  "topo_rep zs pm \<longleftrightarrow>
     groups_ordered zs \<and> (\<forall>z\<in>set zs. package_ok pm z) \<and>
     (\<forall>a p c. pm a = Some (p, c) \<longrightarrow> p \<in> groupid ` set zs)"

definition tm_rep :: "top_map list \<Rightarrow> placement \<Rightarrow> bool" where
  "tm_rep tm pm \<longleftrightarrow> dom pm \<subseteq> {..<CPU_SETSIZE} \<and>
     (\<forall>a p c. pm a = Some (p, c) \<longrightarrow>
        a < length tm \<and> top_package (tm ! a) = p \<and> top_core (tm ! a) = c)"

section \<open>Ordered chains\<close>

lemma groups_ordered_map: "groups_ordered zs \<longleftrightarrow> sorted_wrt (<) (map groupid zs)"
  by (simp add: groups_ordered_def sorted_wrt_map)

lemma groups_ordered_inj:
  assumes "groups_ordered zs" "z \<in> set zs" "i < length zs" "groupid z = groupid (zs ! i)"
  shows "z = zs ! i"
proof -
  obtain j where j: "j < length zs" "z = zs ! j" using assms(2) by (auto simp: in_set_conv_nth)
  have "distinct (map groupid zs)"
    using assms(1) strict_sorted_iff by (auto simp: groups_ordered_map)
  then have "j = i" using assms(3,4) j nth_eq_iff_index_eq [of "map groupid zs" j i] by simp
  then show ?thesis by (simp add: j)
qed

lemma groups_update:
  assumes "groups_ordered zs" "i < length zs" "groupid z' = groupid (zs ! i)"
  shows "groups_ordered (zs[i := z'])"
    and "groupid ` set (zs[i := z']) = groupid ` set zs"
    and "y \<in> set (zs[i := z']) \<Longrightarrow> y = z' \<or> y \<in> set zs \<and> groupid y \<noteq> groupid z'"
proof -
  have "map groupid (zs[i := z']) = map groupid zs"
    using assms(2,3) by (simp add: map_update) (metis list_update_id nth_map)
  then show "groups_ordered (zs[i := z'])" "groupid ` set (zs[i := z']) = groupid ` set zs"
    using assms(1) by (simp_all add: groups_ordered_map del: map_update flip: set_map)
  show "y = z' \<or> y \<in> set zs \<and> groupid y \<noteq> groupid z'" if y: "y \<in> set (zs[i := z'])"
  proof -
    obtain j where j: "j < length zs" "y = zs[i := z'] ! j"
      using y by (auto simp: in_set_conv_nth)
    have "distinct (map groupid zs)"
      using assms(1) strict_sorted_iff by (auto simp: groups_ordered_map)
    then have "j \<noteq> i \<Longrightarrow> groupid (zs ! j) \<noteq> groupid (zs ! i)"
      using assms(2) j(1) nth_eq_iff_index_eq [of "map groupid zs" j i] by auto
    then show ?thesis using j assms(2,3) by (cases "j = i") auto
  qed
qed

lemma find_sched_group_spec:
  assumes "find_sched_group zs gid ct s = (r, zs', s')" "groups_ordered zs"
  shows "case r of
      None \<Rightarrow> zs' = zs
    | Some i \<Rightarrow> i < length zs' \<and> groupid (zs' ! i) = gid \<and> groups_ordered zs' \<and>
        (zs' = zs \<or> gid \<notin> groupid ` set zs \<and> zs' ! i = Zone {} gid ct [] \<and>
          set zs' = insert (Zone {} gid ct []) (set zs))"
  using assms
proof (induction zs arbitrary: r zs' s')
  case Nil
  then show ?case
    by (auto simp: find_sched_group.simps create_zone_def groups_ordered_def
        split: prod.splits option.splits if_splits)
next
  case (Cons z rest)
  consider (eq) "groupid z = gid" | (gt) "groupid z > gid" | (lt) "groupid z < gid" by force
  then show ?case
  proof cases
    case eq
    then show ?thesis using Cons.prems by (auto simp: find_sched_group.simps [of "z # rest"])
  next
    case gt
    then have "gid \<notin> groupid ` set (z # rest)" and "\<forall>x\<in>set rest. gid < groupid x"
      using Cons.prems(2) by (auto simp: groups_ordered_def)
    then show ?thesis using gt Cons.prems
      by (auto simp: find_sched_group.simps [of "z # rest"] create_zone_def groups_ordered_def
          split: prod.splits option.splits if_splits)
  next
    case lt
    then have nl: "groupid z \<noteq> gid" "\<not> gid < groupid z" by auto
    obtain r1 rest' s1 where f: "find_sched_group rest gid ct s = (r1, rest', s1)"
      by (cases rule: prod_cases3)
    have e: "r = map_option Suc r1" "zs' = z # rest'"
      using Cons.prems(1) f nl by (auto simp: find_sched_group.simps [of "z # rest"])
    from Cons.IH [OF f] Cons.prems(2) lt show ?thesis
      by (auto simp: e groups_ordered_def split: option.splits)
  qed
qed

lemma scan_aid_from:
  "z \<le> CPU_SETSIZE \<Longrightarrow>
   scan_aid cs z \<le> CPU_SETSIZE \<and> (scan_aid cs z < CPU_SETSIZE \<longrightarrow> scan_aid cs z \<in> cs) \<and>
   (\<forall>a\<in>cs. z \<le> a \<longrightarrow> a < CPU_SETSIZE \<longrightarrow> scan_aid cs z \<le> a)"
proof (induction cs z rule: scan_aid.induct)
  case (1 cs z)
  show ?case
  proof (cases "z < CPU_SETSIZE \<and> z \<notin> cs")
    case True
    then have "scan_aid cs z = scan_aid cs (z + 1)" by (simp add: scan_aid.simps [of cs z])
    moreover have "\<forall>a\<in>cs. z \<le> a \<longrightarrow> z + 1 \<le> a" using True by (metis Suc_eq_plus1 not_less_eq_eq le_antisym)
    ultimately show ?thesis using True "1.IH" by auto
  next
    case False
    then show ?thesis using "1.prems" by (auto simp: scan_aid.simps [of cs z])
  qed
qed

lemma scan_aid_mem: "cs \<noteq> {} \<Longrightarrow> cs \<subseteq> {..<CPU_SETSIZE} \<Longrightarrow> scan_aid cs 0 \<in> cs"
  using scan_aid_from [of 0 cs] by force

lemma share_level_iff:
  "schedulable z \<subseteq> {..<CPU_SETSIZE} \<Longrightarrow> share_level z \<longleftrightarrow> schedulable z \<noteq> {}"
  using scan_aid_mem [of "schedulable z"] scan_aid_from [of 0 "schedulable z"]
  by (auto simp: share_level_def)

section \<open>Topologize refines the placement of one processor\<close>

lemma zone_update_simps [simp]:
  "groupid (cpu_set aid z) = groupid z" "schedulable (cpu_set aid z) = insert aid (schedulable z)"
  "sub (cpu_set aid z) = sub z" "cpudesc (cpu_set aid z) = cpudesc z"
  "groupid (set_sub sb z) = groupid z" "schedulable (set_sub sb z) = schedulable z"
  "sub (set_sub sb z) = sb" "cpudesc (set_sub sb z) = cpudesc z"
  by (cases z; simp)+

lemma place_other:
  assumes "pm aid = None" "g \<noteq> p"
  shows "{a. \<exists>c. (pm(aid \<mapsto> (p, c0))) a = Some (g, c)} = {a. \<exists>c. pm a = Some (g, c)}"
    and "{a. (pm(aid \<mapsto> (p, c0))) a = Some (g, c)} = {a. pm a = Some (g, c)}"
    and "(pm(aid \<mapsto> (p, c0))) a = Some (g, c) \<longleftrightarrow> pm a = Some (g, c)"
  using assms by auto

lemma core_ok_other:
  "pm aid = None \<Longrightarrow> g \<noteq> p \<Longrightarrow> core_ok (pm(aid \<mapsto> (p, c0))) g y = core_ok pm g y"
  by (simp add: core_ok_def place_other del: fun_upd_apply)

lemma package_ok_other:
  assumes "pm aid = None" "groupid z \<noteq> p"
  shows "package_ok (pm(aid \<mapsto> (p, c0))) z = package_ok pm z"
  using assms by (simp add: package_ok_def core_ok_other place_other del: fun_upd_apply)

lemma set_sub_same [simp]: "set_sub (sub z) z = z"
  by (cases z) simp

lemma package_ok_nonempty: "package_ok pm z \<Longrightarrow> schedulable z \<noteq> {}"
  unfolding package_ok_def by blast

lemma package_schedulable:
  "package_ok pm z \<Longrightarrow> tm_rep tm pm \<Longrightarrow> schedulable z \<subseteq> {..<CPU_SETSIZE}"
  by (auto simp: package_ok_def tm_rep_def)

text \<open>A new package starts with one processor and no subgroups.\<close>

lemma package_ok_new:
  assumes "pm aid = None" "\<forall>a c. pm a \<noteq> Some (p, c)"
  shows "package_ok (pm(aid \<mapsto> (p, c0))) (cpu_set aid (Zone {} p ct []))"
  using assms by (auto simp: package_ok_def)

text \<open>The subgroups of a package are its cores.\<close>

definition cores_ok :: "placement \<Rightarrow> u32 \<Rightarrow> zone list \<Rightarrow> bool" where
  "cores_ok pm p ys \<longleftrightarrow> groups_ordered ys \<and> (\<forall>y\<in>set ys. core_ok pm p y) \<and>
     (\<forall>a c. pm a = Some (p, c) \<longrightarrow> c \<in> groupid ` set ys)"

lemma package_ok_cores:
  "package_ok pm z \<longleftrightarrow>
     schedulable z = {a. \<exists>c. pm a = Some (groupid z, c)} \<and> schedulable z \<noteq> {} \<and>
     (if sub z = [] then \<exists>a. schedulable z = {a} else cores_ok pm (groupid z) (sub z))"
  by (simp add: package_ok_def cores_ok_def)

lemma package_ok_coresI:
  assumes "schedulable z = {a. \<exists>c. pm a = Some (groupid z, c)}" "schedulable z \<noteq> {}" "sub z \<noteq> []"
    and "cores_ok pm (groupid z) (sub z)"
  shows "package_ok pm z"
  unfolding package_ok_cores using assms by presburger

lemma cores_ok_place:
  assumes "find_sched_group ys core ct s = (Some i, ys', s')" "cores_ok pm p ys" "pm aid = None"
  shows "cores_ok (pm(aid \<mapsto> (p, core))) p (ys'[i := cpu_set aid (ys' ! i)])"
proof -
  have ord: "groups_ordered ys" and ok: "\<forall>y\<in>set ys. core_ok pm p y"
    and all: "\<forall>a c. pm a = Some (p, c) \<longrightarrow> c \<in> groupid ` set ys"
    using assms(2) by (auto simp: cores_ok_def)
  have i: "i < length ys'" and g: "groupid (ys' ! i) = core" and ord': "groups_ordered ys'"
    and new: "ys' = ys \<or> core \<notin> groupid ` set ys \<and> ys' ! i = Zone {} core ct [] \<and>
      set ys' = insert (Zone {} core ct []) (set ys)"
    using find_sched_group_spec [OF assms(1) ord] by auto
  let ?z = "cpu_set aid (ys' ! i)" and ?pm = "pm(aid \<mapsto> (p, core))"
  have gz: "groupid ?z = groupid (ys' ! i)" by simp
  note up = groups_update [OF ord' i gz]
  have "sub (ys' ! i) = [] \<and> schedulable (ys' ! i) = {a. pm a = Some (p, core)}"
    using new
  proof
    assume "ys' = ys"
    then have "core_ok pm p (ys' ! i)" using ok i by simp
    then show ?thesis by (simp add: core_ok_def g)
  next
    assume n: "core \<notin> groupid ` set ys \<and> ys' ! i = Zone {} core ct [] \<and>
      set ys' = insert (Zone {} core ct []) (set ys)"
    then show ?thesis using all by auto
  qed
  then have z: "core_ok ?pm p ?z" using g assms(3) by (auto simp: core_ok_def)
  have "core_ok ?pm p y" if y: "y \<in> set (ys'[i := ?z])" for y
  proof (cases "y = ?z")
    case True
    then show ?thesis using z by simp
  next
    case False
    then have "y \<in> set ys'" "groupid y \<noteq> core" using up(3) [OF y] g by auto
    then have "y \<in> set ys" using new by auto
    then show ?thesis using ok \<open>groupid y \<noteq> core\<close> assms(3) by (auto simp: core_ok_def)
  qed
  moreover have "c \<in> groupid ` set (ys'[i := ?z])" if "?pm a = Some (p, c)" for a c
    using that all new i g unfolding up(2) by (fastforce split: if_splits)
  ultimately show ?thesis using up(1) unfolding cores_ok_def by blast
qed

text \<open>The first processor of a package, and the split of a package of one processor into its first core.\<close>

lemma package_first:
  assumes ok: "package_ok pm sg" and tm: "tm_rep tm pm"
  defines "oid \<equiv> first_aid (schedulable sg)"
  shows "oid \<in> schedulable sg" "oid < CPU_SETSIZE" "oid < length tm" "pm oid = Some (groupid sg, top_core (tm ! oid))"
proof -
  have sch: "schedulable sg = {a. \<exists>c. pm a = Some (groupid sg, c)}" "schedulable sg \<noteq> {}"
    using ok by (auto simp: package_ok_def)
  show oid: "oid \<in> schedulable sg"
    using scan_aid_mem [OF sch(2) package_schedulable [OF ok tm]] by (simp add: oid_def first_aid_def)
  show "oid < CPU_SETSIZE" "oid < length tm" "pm oid = Some (groupid sg, top_core (tm ! oid))"
    using oid sch(1) tm by (auto simp: tm_rep_def)
qed

lemma package_split:
  assumes ok: "package_ok pm sg" and "sub sg = []" and oid: "oid \<in> schedulable sg" and oc: "pm oid = Some (groupid sg, core)"
  shows "package_ok pm (set_sub [cpu_set oid (Zone {} core ct [])] sg)"
proof -
  have sch: "schedulable sg = {a. \<exists>c. pm a = Some (groupid sg, c)}" using ok by (auto simp: package_ok_def)
  have "\<exists>a. schedulable sg = {a}" using ok assms(2) unfolding package_ok_def by metis
  then have one: "schedulable sg = {oid}" using oid by (metis singletonD)
  then have "{a. pm a = Some (groupid sg, core)} = {oid}" using sch oc by auto
  moreover have "pm a = Some (groupid sg, c) \<Longrightarrow> c = core" for a c
    using one sch oc by (metis (mono_tags, lifting) mem_Collect_eq option.inject prod.inject singletonD)
  ultimately show ?thesis using one sch by (auto simp: package_ok_def core_ok_def groups_ordered_def)
qed

lemma package_place:
  assumes ok: "package_ok pm sg" "sub sg \<noteq> []" and f: "find_sched_group (sub sg) core ct s = (Some i, sb, s')"
    and fresh: "pm aid = None"
  shows "package_ok (pm(aid \<mapsto> (groupid sg, core))) (cpu_set aid (set_sub (sb[i := cpu_set aid (sb ! i)]) sg))"
proof -
  let ?ys = "sb[i := cpu_set aid (sb ! i)]"
  have cores: "cores_ok pm (groupid sg) (sub sg)" using ok by (metis package_ok_cores)
  have "cores_ok (pm(aid \<mapsto> (groupid sg, core))) (groupid sg) ?ys" using cores_ok_place [OF f cores fresh] .
  moreover have "?ys \<noteq> []" using find_sched_group_spec [OF f] cores by (auto simp: cores_ok_def)
  moreover have "insert aid (schedulable sg) = {a. \<exists>c. (pm(aid \<mapsto> (groupid sg, core))) a = Some (groupid sg, c)}"
    using ok(1) fresh by (auto simp: package_ok_def)
  ultimately show ?thesis by (intro package_ok_coresI) (simp_all only: zone_update_simps, auto)
qed

lemma topologize_sub_rep:
  assumes "topologize_sub tm aid core ct sg s = Some (r, sg', s')"
    and ok: "package_ok pm sg" and tm: "tm_rep tm pm" and fresh: "pm aid = None"
  shows "groupid sg' = groupid sg \<and> (if r = 0
    then package_ok (pm(aid \<mapsto> (groupid sg, core))) (cpu_set aid sg')
    else package_ok pm sg')"
proof -
  define oid where "oid = first_aid (schedulable sg)"
  note first = package_first [OF ok tm, folded oid_def]
  obtain mid s1 where mid: "(if sub sg = [] then
        (case create_zone (top_core (tm ! oid)) ct s of
           (Some n, s1) \<Rightarrow> (Some (set_sub [cpu_set oid n] sg), s1) | (None, s1) \<Rightarrow> (None, s1))
      else (Some sg, s)) = (mid, s1)" by fastforce
  show ?thesis
  proof (cases mid)
    case None
    then show ?thesis using assms(1) mid first ok
      by (auto simp: topologize_sub_def oid_def [symmetric] Let_def)
  next
    case (Some sg1)
    have sg1: "package_ok pm sg1" "groupid sg1 = groupid sg" "sub sg1 \<noteq> []"
      using mid Some package_split [OF ok _ first(1,4)] ok
      by (auto simp: create_zone_def split: if_splits prod.splits)
    obtain q sb s2 where f: "find_sched_group (sub sg1) core ct s1 = (q, sb, s2)"
      by (cases rule: prod_cases3)
    have res: "(r, sg', s') = (case q of None \<Rightarrow> (TORQUE_ERR_RESOURCE, set_sub sb sg1, s2)
        | Some i \<Rightarrow> (0, set_sub (sb[i := cpu_set aid (sb ! i)]) sg1, s2))"
      using assms(1) first mid Some f
      by (auto simp: topologize_sub_def oid_def [symmetric] Let_def split: option.splits)
    show ?thesis
    proof (cases q)
      case None
      have "cores_ok pm (groupid sg1) (sub sg1)" using sg1 by (metis package_ok_cores)
      then have "sb = sub sg1" using find_sched_group_spec [OF f] None by (simp add: cores_ok_def)
      then show ?thesis using res None sg1 by simp
    next
      case (Some i)
      from package_place [OF sg1(1,3) f [unfolded Some] fresh] show ?thesis
        using res Some sg1(2) by (simp del: fun_upd_apply)
    qed
  qed
qed

text \<open>The zone of a package after the step of \<open>topologize\<close> inside it, for a package that was there and for a new one.\<close>

lemma package_step:
  assumes step: "(if share_level z then topologize_sub tm aid core ct z s else Some (0, z, s)) = Some (r, sg, s')"
    and z: "package_ok pm z \<or> z = Zone {} (groupid z) ct [] \<and> (\<forall>a c. pm a \<noteq> Some (groupid z, c))"
    and tm: "tm_rep tm pm" and fresh: "pm aid = None"
  shows "groupid sg = groupid z \<and>
    (if r = 0 then package_ok (pm(aid \<mapsto> (groupid z, core))) (cpu_set aid sg) else package_ok pm sg)"
  using z
proof
  assume pk: "package_ok pm z"
  then have "share_level z"
    using share_level_iff [OF package_schedulable [OF pk tm]] package_ok_nonempty [OF pk] by simp
  then have "topologize_sub tm aid core ct z s = Some (r, sg, s')" using step by simp
  from topologize_sub_rep [OF this pk tm fresh] show ?thesis .
next
  assume new: "z = Zone {} (groupid z) ct [] \<and> (\<forall>a c. pm a \<noteq> Some (groupid z, c))"
  then have "schedulable z = {}" by (metis zone.sel(1))
  then have "\<not> share_level z" by (simp add: share_level_iff)
  then have "sg = Zone {} (groupid z) ct []" "r = 0" using step new by simp_all
  then show ?thesis using package_ok_new [of pm aid "groupid z" core ct] fresh new by simp
qed

lemma topo_rep_replace:
  assumes "groups_ordered zs" "i < length zs" "groupid sg = groupid (zs ! i)"
    and "\<And>z. z \<in> set zs \<Longrightarrow> groupid z \<noteq> groupid sg \<Longrightarrow> package_ok pm z" "package_ok pm sg"
    and "\<And>a p c. pm a = Some (p, c) \<Longrightarrow> p \<in> groupid ` set zs"
  shows "topo_rep (zs[i := sg]) pm"
  using assms(4-) groups_update [OF assms(1-3)] unfolding topo_rep_def by blast

text \<open>The group that \<open>find_sched_group\<close> finds or makes, and the others, which are as they were.\<close>

lemma found_group:
  assumes rep: "topo_rep zs pm" and f: "find_sched_group zs pkg ct s = (Some i, zs1, s1)"
  shows "i < length zs1 \<and> groupid (zs1 ! i) = pkg \<and> groups_ordered zs1"
    and "z \<in> set zs1 \<Longrightarrow> groupid z \<noteq> pkg \<Longrightarrow> package_ok pm z"
    and "pm a = Some (p, c) \<Longrightarrow> p \<in> groupid ` set zs1"
    and "package_ok pm (zs1 ! i) \<or> zs1 ! i = Zone {} (groupid (zs1 ! i)) ct [] \<and> (\<forall>a c. pm a \<noteq> Some (groupid (zs1 ! i), c))"
proof -
  have ord: "groups_ordered zs" and ok: "\<forall>z\<in>set zs. package_ok pm z"
    and all: "\<And>a p c. pm a = Some (p, c) \<Longrightarrow> p \<in> groupid ` set zs"
    using rep unfolding topo_rep_def by blast+
  show i: "i < length zs1 \<and> groupid (zs1 ! i) = pkg \<and> groups_ordered zs1"
    using find_sched_group_spec [OF f ord] by auto
  have new: "zs1 = zs \<or> pkg \<notin> groupid ` set zs \<and> zs1 ! i = Zone {} pkg ct [] \<and>
      set zs1 = insert (Zone {} pkg ct []) (set zs)"
    using find_sched_group_spec [OF f ord] by auto
  show "z \<in> set zs1 \<Longrightarrow> groupid z \<noteq> pkg \<Longrightarrow> package_ok pm z" using new ok by auto
  show "pm a = Some (p, c) \<Longrightarrow> p \<in> groupid ` set zs1" using all [of a p c] new by auto
  show "package_ok pm (zs1 ! i) \<or> zs1 ! i = Zone {} (groupid (zs1 ! i)) ct [] \<and> (\<forall>a c. pm a \<noteq> Some (groupid (zs1 ! i), c))"
    using new ok i all by (metis image_eqI nth_mem)
qed

lemma topologize_rep:
  assumes top: "topologize zs tm aid thread core pkg ct s = Some (r, zs', tm', s')"
    and rep: "topo_rep zs pm" and tm: "tm_rep tm pm" and fresh: "pm aid = None"
  shows "if r = 0 then topo_rep zs' (pm(aid \<mapsto> (pkg, core))) \<and> tm_rep tm' (pm(aid \<mapsto> (pkg, core)))
    else topo_rep zs' pm \<and> tm' = tm"
proof (cases "aid < CPU_SETSIZE")
  case False
  then show ?thesis using top rep by (auto simp: topologize_def)
next
  case aid: True
  let ?pm = "pm(aid \<mapsto> (pkg, core))"
  obtain q zs1 s1 where f: "find_sched_group zs pkg ct s = (q, zs1, s1)"
    by (cases rule: prod_cases3)
  show ?thesis
  proof (cases q)
    case None
    have "groups_ordered zs" using rep unfolding topo_rep_def by blast
    from find_sched_group_spec [OF f this] show ?thesis using None top aid f rep by (auto simp: topologize_def)
  next
    case (Some i)
    note found = found_group [OF rep f [unfolded Some]]
    note i = found(1)
    obtain sg s2 where step: "(if share_level (zs1 ! i)
        then topologize_sub tm aid core ct (zs1 ! i) s1 else Some (0, zs1 ! i, s1)) = Some (r, sg, s2)"
      and out: "if r \<noteq> 0 then zs' = zs1[i := sg] \<and> tm' = tm
        else aid < length tm \<and> zs' = zs1[i := cpu_set aid sg] \<and>
          tm' = tm[aid := \<lparr>top_thread = thread, top_core = core, top_package = pkg\<rparr>]"
      using top aid f Some
      by (auto simp: topologize_def split: option.splits if_split_asm)
    have tm': "r = 0 \<Longrightarrow> tm_rep tm' ?pm"
      using out tm aid by (auto simp: tm_rep_def nth_list_update)
    have "pkg \<in> groupid ` set zs1" using i by (metis image_eqI nth_mem)
    then have all: "?pm a = Some (p, c) \<Longrightarrow> p \<in> groupid ` set zs1" for a p c
      using found(3) by (auto split: if_splits)
    from package_step [OF step found(4) tm fresh] i
    have sg: "groupid sg = pkg" "r = 0 \<Longrightarrow> package_ok ?pm (cpu_set aid sg)"
      "r \<noteq> 0 \<Longrightarrow> package_ok pm sg" by auto
    show ?thesis
    proof (cases "r = 0")
      case True
      have "topo_rep (zs1[i := cpu_set aid sg]) ?pm"
        using sg True i found(2) all
        by (intro topo_rep_replace) (simp_all add: package_ok_other fresh del: fun_upd_apply)
      then show ?thesis using True out tm' by simp
    next
      case False
      have "topo_rep (zs1[i := sg]) pm"
        using sg False i found(2,3) by (intro topo_rep_replace) auto
      then show ?thesis using False out by simp
    qed
  qed
qed

section \<open>Lookup and release\<close>

lemma lookup_absent:
  "zs \<noteq> [] \<Longrightarrow> \<forall>z\<in>set zs. aid \<notin> schedulable z \<Longrightarrow> lookup_aid_intop tc descs zs aid = Some None"
proof (induction zs)
  case (Cons z zs)
  then show ?case by (cases z; cases zs) auto
qed simp

lemma lookup_present:
  assumes "z \<in> set zs" "aid \<in> schedulable z" "\<And>y. y \<in> set zs \<Longrightarrow> aid \<in> schedulable y \<Longrightarrow> y = z"
  shows "lookup_aid_intop tc descs zs aid =
    (if sub z \<noteq> [] then lookup_aid_intop tc descs (sub z) aid
     else Some (torque_cpu_getdesc tc descs (cpudesc z)))"
  using assms
proof (induction zs)
  case (Cons y zs)
  obtain sch g d sb where y: "y = Zone sch g d sb" by (cases y)
  show ?case
  proof (cases "aid \<in> sch")
    case True
    then have "y = z" using Cons.prems(3) [of y] by (simp add: y)
    then show ?thesis using True y by auto
  next
    case False
    then have "z \<in> set zs" using Cons.prems(1,2) y by auto
    moreover from this have "zs \<noteq> []" by auto
    moreover have "lookup_aid_intop tc descs zs aid =
      (if sub z \<noteq> [] then lookup_aid_intop tc descs (sub z) aid
       else Some (torque_cpu_getdesc tc descs (cpudesc z)))"
      using \<open>z \<in> set zs\<close> Cons.prems(2,3) by (intro Cons.IH) auto
    ultimately show ?thesis using False unfolding y by simp
  qed
qed simp

text \<open>The leaves of a topology: the groups that have no subgroups.\<close>

definition leaves :: "zone list \<Rightarrow> zone set" where
  "leaves zs = {z \<in> set zs. sub z = []} \<union> (\<Union>z\<in>set zs. set (sub z))"

lemma package_unique:
  "topo_rep zs pm \<Longrightarrow> y \<in> set zs \<Longrightarrow> z \<in> set zs \<Longrightarrow> aid \<in> schedulable y \<Longrightarrow> aid \<in> schedulable z \<Longrightarrow> y = z"
proof -
  assume rep: "topo_rep zs pm" and y: "y \<in> set zs" "aid \<in> schedulable y"
    and z: "z \<in> set zs" "aid \<in> schedulable z"
  then have py: "package_ok pm y" and pz: "package_ok pm z" by (auto simp: topo_rep_def)
  have "groupid y = groupid z" using py pz y(2) z(2) by (auto simp: package_ok_def)
  moreover obtain i where "i < length zs" "z = zs ! i" using z(1) by (auto simp: in_set_conv_nth)
  ultimately show "y = z" using groups_ordered_inj [of zs y i] rep y(1) by (simp add: topo_rep_def)
qed

lemma core_unique:
  assumes "cores_ok pm p ys" "x \<in> set ys" "y \<in> set ys" "aid \<in> schedulable x" "aid \<in> schedulable y"
  shows "x = y"
proof -
  have "core_ok pm p x" "core_ok pm p y" using assms by (auto simp: cores_ok_def)
  then have "groupid x = groupid y" using assms(4,5) by (auto simp: core_ok_def)
  moreover obtain i where "i < length ys" "y = ys ! i" using assms(3) by (auto simp: in_set_conv_nth)
  ultimately show ?thesis using groups_ordered_inj [of ys x i] assms(1,2) by (simp add: cores_ok_def)
qed

lemma lookup_aid_leaf:
  assumes rep: "topo_rep zs pm" and aid: "pm aid = Some (p, c)"
  shows "\<exists>leaf\<in>leaves zs. aid \<in> schedulable leaf \<and> sub leaf = [] \<and>
    lookup_aid tc descs zs aid = Some (torque_cpu_getdesc tc descs (cpudesc leaf))"
proof -
  obtain z where z: "z \<in> set zs" "groupid z = p" using rep aid by (fastforce simp: topo_rep_def)
  have ok: "package_ok pm z" using rep z by (simp add: topo_rep_def)
  have az: "aid \<in> schedulable z" using ok z aid unfolding package_ok_def by blast
  have look: "lookup_aid tc descs zs aid =
    (if sub z \<noteq> [] then lookup_aid_intop tc descs (sub z) aid
     else Some (torque_cpu_getdesc tc descs (cpudesc z)))"
    unfolding lookup_aid_def using package_unique [OF rep _ z(1) _ az]
    by (intro lookup_present [OF z(1) az]) blast
  show ?thesis
  proof (cases "sub z = []")
    case True
    then show ?thesis using look z az by (auto simp: leaves_def)
  next
    case False
    then have cs: "cores_ok pm p (sub z)" using ok z unfolding package_ok_cores by metis
    then obtain y where y: "y \<in> set (sub z)" "groupid y = c" using aid by (fastforce simp: cores_ok_def)
    then have yo: "core_ok pm p y" using cs by (simp add: cores_ok_def)
    then have ay: "aid \<in> schedulable y" "sub y = []" using y aid by (auto simp: core_ok_def)
    have "lookup_aid_intop tc descs (sub z) aid = Some (torque_cpu_getdesc tc descs (cpudesc y))"
      using lookup_present [OF y(1) ay(1)] core_unique [OF cs _ y(1) _ ay(1)] ay(2) by simp
    then show ?thesis using look False y z ay by (auto simp: leaves_def)
  qed
qed

lemma lookup_aid_unplaced:
  assumes "topo_rep zs pm" "zs \<noteq> []" "pm aid = None"
  shows "lookup_aid tc descs zs aid = Some None"
proof -
  have "aid \<notin> schedulable z" if "z \<in> set zs" for z
  proof -
    have "package_ok pm z" using assms(1) that by (simp add: topo_rep_def)
    then have "schedulable z = {a. \<exists>c. pm a = Some (groupid z, c)}" unfolding package_ok_def by blast
    then show ?thesis using assms(3) by simp
  qed
  then show ?thesis unfolding lookup_aid_def by (intro lookup_absent assms(2)) blast
qed

text \<open>Release frees every zone exactly once, whatever the depth.\<close>

fun zone_count :: "zone list \<Rightarrow> nat" where
  "zone_count [] = 0"
| "zone_count (Zone _ _ _ sb # rest) = Suc (zone_count sb + zone_count rest)"

lemma free_topology_calls:
  "calls (free_topology zs s) = calls s @ replicate (zone_count zs) (Sys_free ''zone'')"
proof (induction zs s rule: free_topology.induct)
  case (2 sch g d sb rest s)
  have "replicate (Suc (m + n)) c = replicate m c @ c # replicate n c" for m n and c :: syscall
    by (induction m) simp_all
  then show ?case using 2 by (simp add: sys_note_def)
qed simp

section \<open>The types that zones refer to\<close>

definition own_types :: "zone \<Rightarrow> nat set" where
  "own_types z = insert (cpudesc z) (cpudesc ` set (sub z))"

definition zone_types :: "zone list \<Rightarrow> nat set" where
  "zone_types zs = (\<Union>z\<in>set zs. own_types z)"

lemma zone_types_leaf: "leaf \<in> leaves zs \<Longrightarrow> cpudesc leaf \<in> zone_types zs"
  by (auto simp: leaves_def zone_types_def own_types_def)

lemma find_sched_group_types:
  assumes "find_sched_group zs gid ct s = (r, zs', s')"
  shows "set zs' \<subseteq> insert (Zone {} gid ct []) (set zs) \<and> (\<forall>i. r = Some i \<longrightarrow> i < length zs')"
  using assms
proof (induction zs arbitrary: r zs' s')
  case Nil
  then show ?case
    by (auto simp: find_sched_group.simps create_zone_def split: prod.splits option.splits if_splits)
next
  case (Cons z rest)
  obtain r1 rest' s1 where f: "find_sched_group rest gid ct s = (r1, rest', s1)"
    by (cases rule: prod_cases3)
  from Cons.IH [OF f] Cons.prems f show ?case
    by (auto simp: find_sched_group.simps [of "z # rest"] create_zone_def
        split: prod.splits option.splits if_splits)
qed

lemma sub_types:
  assumes "topologize_sub tm aid core ct sg s = Some (r, sg', s')"
  shows "own_types sg' \<subseteq> insert ct (own_types sg)"
proof -
  have upd: "cpudesc ` set (sb[i := cpu_set aid (sb ! i)]) \<subseteq> insert ct (cpudesc ` set zs)"
    if "find_sched_group zs core ct s1 = (Some i, sb, s2)" for zs s1 i sb s2
  proof -
    have "set sb \<subseteq> insert (Zone {} core ct []) (set zs)" "i < length sb"
      using find_sched_group_types [OF that] by auto
    then have "cpudesc ` set sb \<subseteq> insert ct (cpudesc ` set zs)" by fastforce
    moreover have "map cpudesc (sb[i := cpu_set aid (sb ! i)]) = map cpudesc sb"
      using \<open>i < length sb\<close> by (simp add: map_update) (metis list_update_id nth_map)
    ultimately show ?thesis by (metis set_map)
  qed
  have none: "cpudesc ` set sb \<subseteq> insert ct (cpudesc ` set zs)"
    if "find_sched_group zs core ct s1 = (None, sb, s2)" for zs s1 sb s2
    using find_sched_group_types [OF that] by fastforce
  have one: "insert ct (cpudesc ` set [cpu_set a (Zone {} g ct [])]) = {ct}" for a g by simp
  have "cpudesc sg' = cpudesc sg \<and> cpudesc ` set (sub sg') \<subseteq> insert ct (cpudesc ` set (sub sg))"
    using assms
    by (auto simp: topologize_sub_def create_zone_def Let_def
        split: if_splits prod.splits option.splits dest!: upd none) blast+
  then show ?thesis by (auto simp: own_types_def)
qed

lemma topologize_types:
  assumes "topologize zs tm aid thread core pkg ct s = Some (r, zs', tm', s')"
  shows "zone_types zs' \<subseteq> insert ct (zone_types zs)"
proof (cases "aid < CPU_SETSIZE")
  case False
  then show ?thesis using assms by (auto simp: topologize_def)
next
  case True
  obtain q zs1 s1 where f: "find_sched_group zs pkg ct s = (q, zs1, s1)"
    by (cases rule: prod_cases3)
  have sub1: "set zs1 \<subseteq> insert (Zone {} pkg ct []) (set zs)" "\<And>i. q = Some i \<Longrightarrow> i < length zs1"
    using find_sched_group_types [OF f] by auto
  have "own_types (Zone {} pkg ct []) = {ct}" by (simp add: own_types_def)
  then have t1: "zone_types zs1 \<subseteq> insert ct (zone_types zs)"
    using sub1(1) unfolding zone_types_def by blast
  have rep: "zone_types (zs1[i := sg]) \<subseteq> insert ct (zone_types zs1)"
    if "i < length zs1" "own_types sg \<subseteq> insert ct (own_types (zs1 ! i))" for i sg
  proof -
    have "set (zs1[i := sg]) \<subseteq> insert sg (set zs1)" by (rule set_update_subset_insert)
    moreover have "zs1 ! i \<in> set zs1" using that(1) by simp
    ultimately show ?thesis using that(2) unfolding zone_types_def by blast
  qed
  show ?thesis
  proof (cases q)
    case None
    then show ?thesis using assms True f t1 by (auto simp: topologize_def)
  next
    case (Some i)
    obtain sg s2 where step: "(if share_level (zs1 ! i)
        then topologize_sub tm aid core ct (zs1 ! i) s1 else Some (0, zs1 ! i, s1)) = Some (r, sg, s2)"
      and out: "zs' = (if r \<noteq> 0 then zs1[i := sg] else zs1[i := cpu_set aid sg])"
      using assms True f Some by (auto simp: topologize_def split: option.splits if_split_asm)
    have "own_types sg \<subseteq> insert ct (own_types (zs1 ! i))"
      using step sub_types by (auto split: if_splits)
    moreover have "own_types (cpu_set aid sg) = own_types sg" by (simp add: own_types_def)
    ultimately have "zone_types zs' \<subseteq> insert ct (zone_types zs1)"
      unfolding out using rep [OF sub1(2) [OF Some]] by simp
    then show ?thesis using t1 by blast
  qed
qed

section \<open>Properties\<close>

text \<open>
  Property C2: \<open>topologize\<close> refines the placement. If the zones represent the placement of the
  processors seen so far and the processor is new, success leaves zones that represent that
  placement with the processor added at the package and core it was given; a failure leaves
  a representation of the old placement and the map unchanged.
\<close>

theorem topologize_refines:
  assumes "topologize zs tm aid thread core pkg ct s = Some (r, zs', tm', s')"
    and "topo_rep zs pm" "tm_rep tm pm" "pm aid = None"
  shows "if r = 0 then topo_rep zs' (pm(aid \<mapsto> (pkg, core))) \<and> tm_rep tm' (pm(aid \<mapsto> (pkg, core)))
    else topo_rep zs' pm \<and> tm_rep tm' pm \<and> tm' = tm"
  using topologize_rep [OF assms] assms(3) by auto

theorem topologize_refines_witness:
  "\<exists>zs' tm' s'. topologize [] [zero_top_map] 0 0 1 2 3 (os_answering [ok_ret]) = Some (0, zs', tm', s') \<and>
     topo_rep zs' [0 \<mapsto> (2, 1)]"
proof -
  obtain zs' tm' s' where run: "topologize [] [zero_top_map] 0 0 1 2 3 (os_answering [ok_ret]) = Some (0, zs', tm', s')"
    by (simp add: topologize_def find_sched_group.simps create_zone_def io_simps share_level_iff)
  have "topo_rep [] Map.empty" "tm_rep [zero_top_map] Map.empty"
    by (simp_all add: topo_rep_def tm_rep_def groups_ordered_def)
  from topologize_refines [OF run this] run show ?thesis by auto
qed

text \<open>
  Property C29: \<open>lookup_aid\<close> inverts the placement. Over zones that represent a placement, the
  lookup of a placed processor finds the description of the leaf zone that can schedule it,
  and the lookup of any other processor finds nothing.
\<close>

theorem lookup_aid_correct:
  assumes "topo_rep zs pm" "zs \<noteq> []"
  shows "case pm aid of
      None \<Rightarrow> lookup_aid tc descs zs aid = Some None
    | Some _ \<Rightarrow> \<exists>leaf\<in>leaves zs. aid \<in> schedulable leaf \<and> sub leaf = [] \<and>
        lookup_aid tc descs zs aid = Some (torque_cpu_getdesc tc descs (cpudesc leaf))"
  using lookup_aid_unplaced [OF assms] lookup_aid_leaf [OF assms(1)] by (cases "pm aid") auto

theorem lookup_aid_correct_witness:
  "lookup_aid 1 [zero_cput] [Zone {4} 0 0 []] 5 = Some None"
proof -
  have "topo_rep [Zone {4} 0 0 []] [4 \<mapsto> (0, 0)]"
    by (auto simp: topo_rep_def groups_ordered_def package_ok_def split: if_splits)
  from lookup_aid_correct [OF this, where aid = 5 and tc = 1 and descs = "[zero_cput]"] show ?thesis by simp
qed

text \<open>
  Fact: \<open>reset_topology\<close> releases every zone exactly once and leaves no topology.
\<close>

theorem reset_topology_frees:
  "fst (reset_topology zs s) = [] \<and>
   calls (snd (reset_topology zs s)) = calls s @ replicate (zone_count zs) (Sys_free ''zone'')"
  by (simp add: reset_topology_def free_topology_calls)

text \<open>
  Fact: the map handed to \<open>topologize\<close> has one entry per processor of the mask, and it is
  indexed by the processor's number. A processor whose number reaches the size of the map,
  as in a mask with gaps, is stored outside of it.
\<close>

theorem topologize_outside_map:
  assumes "length tm \<le> aid" "aid < CPU_SETSIZE" "answers s = ok_ret # as"
  shows "topologize [] tm aid thread core pkg ct s = None"
  using assms
  by (simp add: topologize_def find_sched_group.simps create_zone_def io_simps share_level_iff)

theorem topologize_outside_map_witness:
  "topologize [] [zero_top_map] 5 0 0 0 0 (os_answering [ok_ret]) = None"
  by (rule topologize_outside_map) (simp_all add: os_answering_def)

text \<open>
  Fact: when a package gets its second processor, the zone made for the first one is given
  the second one's type. On a package with two types of processor the lookup of the first
  then yields the second's description.
\<close>

theorem first_zone_takes_second_type:
  "\<exists>zs tm s. topologize [Zone {0} 0 0 []] [zero_top_map, zero_top_map] 1 0 1 0 1
      (os_answering [ok_ret, ok_ret]) = Some (0, zs, tm, s) \<and>
    lookup_aid 2 [a, b] zs 0 = Some (Some b)"
  by (simp add: topologize_def topologize_sub_def find_sched_group.simps create_zone_def io_simps
      share_level_def first_aid_def scan_aid.simps lookup_aid_def torque_cpu_getdesc_def zero_top_map_def)

end
