(* ===== verification/Context.thy ===== *)
theory Context
  imports Topology
begin

text \<open>
  The state of a libtorque instance: \<open>torque_ctx\<close> with its event queue and event
  tables (\<^verbatim>\<open>src/src/libtorque/internal.h\<close>, \<^verbatim>\<open>src/src/libtorque/events/sources.h\<close>,
  \<^verbatim>\<open>src/src/libtorque/events/thread.h\<close>). The configuration modelled is Linux with
  \<open>signalfd\<close> and \<open>timerfd\<close>, with adns and OpenSSL.
\<close>

section \<open>Callbacks and event sources\<close>

text \<open>
  A function pointer names one of the library's own callbacks or a client's. A
  state pointer is null, the client's, the context, the resolver, or an object
  that the library allocated.
\<close>

datatype cbfn =
    Cb_user nat
  | Cb_signalfd_demultiplexer
  | Cb_rxcommonsignal
  | Cb_rxcommonsignal_handler
  | Cb_timer_passthru
  | Cb_buffered_rxfxn
  | Cb_buffered_txfxn
  | Cb_conn_unbuffered_txfxn
  | Cb_ssl_accept_rxfxn
  | Cb_ssl_rxfxn
  | Cb_ssl_txfxn
  | Cb_ssl_txrxfxn
  | Cb_accept_contrxfxn
  | Cb_accept_conttxfxn
  | Cb_adns_rx_callback
  | Cb_adns_tx_callback

datatype cbptr = Ptr_null | Ptr_user nat | Ptr_ctx | Ptr_dns | Ptr_obj nat

record evsource =
  rxfxn :: "cbfn option"
  txfxn :: "cbfn option"
  src_cbstate :: cbptr

definition zero_evsource :: evsource where
  "zero_evsource = \<lparr>rxfxn = None, txfxn = None, src_cbstate = Ptr_null\<rparr>"

record evtables =
  fdarray :: "evsource list"
  sigarray :: "evsource list"
  sigarraysize :: nat
  fdarraysize :: nat
  common_signalfd :: int

record evqueue =
  efd :: int
  dnsctx :: nat

section \<open>The context\<close>

text \<open>
  A context's \<open>ev\<close> points to the handler of the first thread; a handler is named by the
  thread it belongs to, and \<open>ctx_nexttid\<close> holds the \<open>nexttid\<close> fields of all of them.
\<close>

record torque_ctx =
  ctx_evq :: evqueue
  ctx_nodecount :: nat
  ctx_cpu_typecount :: nat
  ctx_cpudescs :: "torque_cput list"
  ctx_manodes :: "torque_nodet list"
  ctx_sched_zone :: "zone list"
  ctx_eventtables :: evtables
  ctx_ev :: "nat option"
  ctx_nexttid :: "nat \<rightharpoonup> nat"

definition torque_get_topology :: "torque_ctx \<Rightarrow> zone list" where
  "torque_get_topology ctx = ctx_sched_zone ctx"

definition torque_cpu_typecount :: "torque_ctx \<Rightarrow> nat" where
  "torque_cpu_typecount ctx = ctx_cpu_typecount ctx"

definition ctx_getdesc :: "torque_ctx \<Rightarrow> nat \<Rightarrow> torque_cput option" where
  "ctx_getdesc ctx n = torque_cpu_getdesc (ctx_cpu_typecount ctx) (ctx_cpudescs ctx) n"

text \<open>A context with nothing in it, for the witnesses.\<close>

definition zero_ctx :: torque_ctx where
  "zero_ctx = \<lparr>ctx_evq = \<lparr>efd = - 1, dnsctx = 0\<rparr>, ctx_nodecount = 0, ctx_cpu_typecount = 0,
     ctx_cpudescs = [], ctx_manodes = [], ctx_sched_zone = [],
     ctx_eventtables = \<lparr>fdarray = [], sigarray = [], sigarraysize = 0, fdarraysize = 0, common_signalfd = - 1\<rparr>,
     ctx_ev = None, ctx_nexttid = Map.empty\<rparr>"

end
