(* ===== verification/Memory.thy ===== *)
theory Memory
  imports Context
begin

text \<open>
  Memory detection, \<^verbatim>\<open>src/src/libtorque/hardware/memory.c\<close> (with the stubs of
  \<^verbatim>\<open>src/src/libtorque/hardware/numa.c\<close>): the page sizes a node supports, the size of
  the system's memory, the node array, and the largest page size, which the buffer
  allocator uses.
\<close>

section \<open>Nodes\<close>

definition add_node ::
  "nat \<Rightarrow> torque_nodet list \<Rightarrow> torque_nodet \<Rightarrow> sysst \<Rightarrow> nat option \<times> nat \<times> torque_nodet list \<times> sysst" where
  "add_node cnt nodes node s =
     (case sys_alloc (Sys_realloc ''manodes'') s of
        (ok, s') \<Rightarrow>
          if \<not> ok then (None, cnt, nodes, s')
          else (Some cnt, cnt + 1, nodes @ [node], s'))"

definition RLIM_INFINITY :: u64 where "RLIM_INFINITY = - 1"

definition determine_sysmem :: "sysst \<Rightarrow> u64 \<times> sysst" where
  "determine_sysmem s =
     (case sys_call (Sys_sysconf ''_SC_PHYS_PAGES'') s of
        (pages, s1) \<Rightarrow>
          if rv pages \<le> 0 then (0, s1)
          else
            (case sys_call (Sys_sysconf ''_SC_PAGESIZE'') s1 of
               (psize, s2) \<Rightarrow>
                 if rv psize \<le> 0 then (0, s2)
                 else
                   let ret = (of_int (rv pages) :: u64) * of_int (rv psize) in
                   (case sys_call (Sys_getrlimit ''RLIMIT_AS'') s2 of
                      (rl, s3) \<Rightarrow>
                        let rlim_cur = of_int (rout rl) :: u64 in
                        if rv rl = 0 \<and> rlim_cur > 0 \<and> rlim_cur \<noteq> RLIM_INFINITY \<and> rlim_cur < ret
                        then (rlim_cur, s3)
                        else (ret, s3))))"

section \<open>Page sizes\<close>

definition cmp_size :: "u64 \<Rightarrow> u64 \<Rightarrow> int" where
  "cmp_size a b = cmp_key a b"

definition add_pagesize ::
  "nat \<Rightarrow> u64 list \<Rightarrow> u64 \<Rightarrow> sysst \<Rightarrow> int \<times> nat \<times> u64 list \<times> sysst" where
  "add_pagesize psizes psizevals psize s =
     (case sys_alloc (Sys_realloc ''psizevals'') s of
        (ok, s') \<Rightarrow>
          if \<not> ok then (- 1, psizes, psizevals, s')
          else
            (case array_insert cmp_size psizes psize psizevals of
               (_, vals) \<Rightarrow> (0, psizes + 1, vals, s')))"

definition match_pagesize :: "nat \<Rightarrow> u64 list \<Rightarrow> u64 \<Rightarrow> bool" where
  "match_pagesize psizes psvals ps \<longleftrightarrow> match_from (\<lambda>v. v \<ge> ps) psizes 0 psvals \<noteq> None"

text \<open>The loop over the TLBs of one processor type, then the loop over the types.\<close>

fun tlb_pagesizes ::
  "torque_tlbt list \<Rightarrow> nat \<Rightarrow> u64 list \<Rightarrow> sysst \<Rightarrow> int \<times> nat \<times> u64 list \<times> sysst" where
  "tlb_pagesizes [] n vals s = (0, n, vals, s)"
| "tlb_pagesizes (tlb # tlbs) n vals s =
     (if \<not> match_pagesize n vals (ucast (tlb_pagesize tlb)) then
        (case add_pagesize n vals (ucast (tlb_pagesize tlb)) s of
           (r, n', vals', s') \<Rightarrow>
             if r \<noteq> 0 then (- 1, n', vals', s') else tlb_pagesizes tlbs n' vals' s')
      else tlb_pagesizes tlbs n vals s)"

function cpu_pagesizes ::
  "torque_ctx \<Rightarrow> nat \<Rightarrow> nat \<Rightarrow> u64 list \<Rightarrow> sysst \<Rightarrow> int \<times> nat \<times> u64 list \<times> sysst" where
  "cpu_pagesizes ctx cput n vals s =
     (if cput < ctx_cpu_typecount ctx then
        (case ctx_getdesc ctx cput of
           None \<Rightarrow> (- 1, n, vals, s)
         | Some cpu \<Rightarrow>
             (case tlb_pagesizes (take (cpu_tlbs cpu) (cpu_tlbdescs cpu)) n vals s of
                (r, n', vals', s') \<Rightarrow>
                  if r \<noteq> 0 then (- 1, n', vals', s')
                  else cpu_pagesizes ctx (cput + 1) n' vals' s'))
      else (0, n, vals, s))"
  by pat_completeness auto
termination
  by (relation "measure (\<lambda>(ctx, cput, n, vals, s). ctx_cpu_typecount ctx - cput)") auto

declare cpu_pagesizes.simps [simp del]

definition determine_pagesizes ::
  "torque_ctx \<Rightarrow> nat \<Rightarrow> u64 list \<Rightarrow> sysst \<Rightarrow> int \<times> nat \<times> u64 list \<times> sysst" where
  "determine_pagesizes ctx n vals s =
     (case sys_call (Sys_sysconf ''_SC_PAGESIZE'') s of
        (psize, s1) \<Rightarrow>
          if rv psize \<le> 0 then (- 1, n, vals, s1)
          else
            (case add_pagesize n vals (of_int (rv psize)) s1 of
               (r, n', vals', s2) \<Rightarrow>
                 if r \<noteq> 0 then (- 1, n', vals', s2) else cpu_pagesizes ctx 0 n' vals' s2))"

section \<open>Detection and release\<close>

text \<open>NUMA detection is a stub that always succeeds.\<close>

definition detect_numa :: "torque_ctx \<Rightarrow> int" where
  "detect_numa ctx = 0"

fun free_nodes :: "torque_nodet list \<Rightarrow> sysst \<Rightarrow> sysst" where
  "free_nodes [] s = s"
| "free_nodes (node # nodes) s = free_nodes nodes (sys_note (Sys_free ''psizevals'') s)"

definition free_memories :: "torque_ctx \<Rightarrow> sysst \<Rightarrow> torque_ctx \<times> sysst" where
  "free_memories ctx s =
     (ctx\<lparr>ctx_manodes := [], ctx_nodecount := 0\<rparr>,
      sys_note (Sys_free ''manodes'') (free_nodes (take (ctx_nodecount ctx) (ctx_manodes ctx)) s))"

definition detect_memories_err :: "torque_ctx \<Rightarrow> sysst \<Rightarrow> int \<times> torque_ctx \<times> sysst" where
  "detect_memories_err ctx s =
     (case free_memories ctx s of (ctx', s') \<Rightarrow> (- 1, ctx', sys_note (Sys_free ''psizevals'') s'))"

definition detect_memories :: "torque_ctx \<Rightarrow> sysst \<Rightarrow> int \<times> torque_ctx \<times> sysst" where
  "detect_memories ctx s =
     (case determine_pagesizes ctx 0 [] s of
        (r, n, vals, s1) \<Rightarrow>
          if r \<noteq> 0 then detect_memories_err ctx s1
          else
            (case determine_sysmem s1 of
               (sz, s2) \<Rightarrow>
                 if sz = 0 then detect_memories_err ctx s2
                 else
                   (case add_node (ctx_nodecount ctx) (ctx_manodes ctx)
                           \<lparr>node_size = sz, node_psizevals = vals, node_psizes = n, node_count = 1\<rparr> s2 of
                      (q, cnt, nodes, s3) \<Rightarrow>
                        if q = None then detect_memories_err ctx s3
                        else
                          let ctx' = ctx\<lparr>ctx_nodecount := cnt, ctx_manodes := nodes\<rparr> in
                          if detect_numa ctx' \<noteq> 0 then detect_memories_err ctx' s3
                          else (0, ctx', s3))))"

definition torque_mem_nodecount :: "torque_ctx \<Rightarrow> nat" where
  "torque_mem_nodecount ctx = ctx_nodecount ctx"

definition torque_node_getdesc :: "torque_ctx \<Rightarrow> nat \<Rightarrow> torque_nodet option" where
  "torque_node_getdesc ctx n = (if n < ctx_nodecount ctx then Some (ctx_manodes ctx ! n) else None)"

definition large_system_pagesize :: "torque_ctx \<Rightarrow> u64" where
  "large_system_pagesize ctx =
     foldl (\<lambda>ret node. foldl (\<lambda>r v. if v > r then v else r) ret
         (take (node_psizes node) (node_psizevals node)))
       0 (take (ctx_nodecount ctx) (ctx_manodes ctx))"

section \<open>Page sizes against a reference\<close>

text \<open>
  \<open>match_pagesize\<close> asks for an entry that is at least as large, so only a size greater
  than every recorded one is added: the array holds the successive maxima of the
  sequence \<^emph>\<open>system page size, then the TLB page sizes in order\<close>.
\<close>

fun maxima :: "u64 \<Rightarrow> u64 list \<Rightarrow> u64 list" where
  "maxima m [] = []"
| "maxima m (x # xs) = (if x > m then x # maxima x xs else maxima m xs)"

interpretation psizecmp: comparator cmp_size
  unfolding cmp_size_def using comparator_cmp_key [where f = id] by simp

lemma cmp_insert_last:
  "\<forall>y\<in>set ys. y < x \<Longrightarrow> cmp_insert cmp_size x ys = ys @ [x]"
  by (induction ys) (auto simp: cmp_size_def cmp_key_def)

lemma match_pagesize_iff: "match_pagesize (length vals) vals ps \<longleftrightarrow> (\<exists>v\<in>set vals. ps \<le> v)"
  using match_from_None [of 0 vals "length vals" "\<lambda>v. ps \<le> v"] by (auto simp: match_pagesize_def)

lemma add_pagesize_eq:
  "add_pagesize (length vals) vals ps s = (r, n, vals', s') \<Longrightarrow>
   r = 0 \<and> n = length vals' \<and> vals' = cmp_insert cmp_size ps vals \<or>
   r = - 1 \<and> n = length vals \<and> vals' = vals"
  by (auto simp: add_pagesize_def array_insert_eq split: prod.splits if_splits)

definition tlb_sizes :: "torque_tlbt list \<Rightarrow> u64 list" where
  "tlb_sizes tlbs = map (\<lambda>t. ucast (tlb_pagesize t)) tlbs"

definition psizes_upto :: "u64 \<Rightarrow> u64 list \<Rightarrow> bool" where
  "psizes_upto m vals \<longleftrightarrow> vals \<noteq> [] \<and> sorted_wrt (<) vals \<and> last vals = m"

lemma psizes_upto_le:
  assumes "psizes_upto m vals" "v \<in> set vals"
  shows "v \<le> m"
proof -
  obtain ys where "vals = ys @ [m]" using assms(1) by (metis append_butlast_last_id psizes_upto_def)
  then show ?thesis using assms by (auto simp: psizes_upto_def sorted_wrt_append)
qed

lemma psizes_upto_snoc:
  assumes "psizes_upto m vals" "m < x"
  shows "psizes_upto x (vals @ [x])"
proof -
  have "v < x" if "v \<in> set vals" for v using psizes_upto_le [OF assms(1) that] assms(2) by simp
  then show ?thesis using assms by (auto simp: psizes_upto_def sorted_wrt_append)
qed

lemma tlb_pagesizes_maxima:
  assumes "tlb_pagesizes tlbs (length vals) vals s = (0, n, vals', s')" "psizes_upto m vals"
  shows "vals' = vals @ maxima m (tlb_sizes tlbs) \<and> n = length vals' \<and>
    psizes_upto (foldl max m (tlb_sizes tlbs)) vals'"
  using assms
proof (induction tlbs arbitrary: vals m s)
  case Nil
  then show ?case by (auto simp: tlb_sizes_def psizes_upto_def)
next
  case (Cons t ts)
  let ?x = "ucast (tlb_pagesize t) :: u64"
  have mem: "m \<in> set vals" using Cons.prems(2) by (auto simp: psizes_upto_def)
  then have iff: "match_pagesize (length vals) vals ?x \<longleftrightarrow> ?x \<le> m"
    using psizes_upto_le [OF Cons.prems(2)] by (auto simp: match_pagesize_iff intro: order_trans)
  show ?case
  proof (cases "?x \<le> m")
    case True
    then have "tlb_pagesizes ts (length vals) vals s = (0, n, vals', s')"
      using Cons.prems(1) iff by simp
    from Cons.IH [OF this Cons.prems(2)] have "vals' = vals @ maxima m (tlb_sizes ts) \<and>
      n = length vals' \<and> psizes_upto (foldl max m (tlb_sizes ts)) vals'" .
    moreover have "\<not> m < ?x" "max m ?x = m" using True by (simp_all add: not_less max_absorb1)
    ultimately show ?thesis by (auto simp: tlb_sizes_def)
  next
    case False
    then have big: "m < ?x" by simp
    obtain r n1 vals1 s1 where a: "add_pagesize (length vals) vals ?x s = (r, n1, vals1, s1)"
      by (cases rule: prod_cases4)
    have "\<forall>y\<in>set vals. y < ?x" using psizes_upto_le [OF Cons.prems(2)] big by force
    then have v1: "vals1 = vals @ [?x]" "n1 = length vals1"
      and go: "tlb_pagesizes ts (length vals1) vals1 s1 = (0, n, vals', s')"
      using add_pagesize_eq [OF a] Cons.prems(1) iff False a cmp_insert_last
      by (auto split: if_splits)
    have "psizes_upto ?x vals1" unfolding v1 by (rule psizes_upto_snoc [OF Cons.prems(2) big])
    from Cons.IH [OF go this] have "vals' = vals1 @ maxima ?x (tlb_sizes ts) \<and>
      n = length vals' \<and> psizes_upto (foldl max ?x (tlb_sizes ts)) vals'" .
    moreover have "max m ?x = ?x" using big by (simp add: max_absorb2)
    ultimately show ?thesis using big by (auto simp: tlb_sizes_def v1)
  qed
qed

lemma maxima_append:
  "maxima m (xs @ ys) = maxima m xs @ maxima (foldl max m xs) ys"
proof (induction xs arbitrary: m)
  case (Cons x xs)
  have "max m x = (if x > m then x else m)" by (auto simp: max_def)
  with Cons show ?case by simp
qed simp

text \<open>All TLB page sizes of the processor types \<open>cput\<close> onwards, in detection order.\<close>

definition ctx_sizes :: "torque_ctx \<Rightarrow> nat \<Rightarrow> u64 list" where
  "ctx_sizes ctx cput =
     concat (map (\<lambda>i. tlb_sizes (cpu_tlbdescs (ctx_cpudescs ctx ! i))) [cput..<ctx_cpu_typecount ctx])"

definition ctx_types_wf :: "torque_ctx \<Rightarrow> bool" where
  "ctx_types_wf ctx \<longleftrightarrow> ctx_cpu_typecount ctx = length (ctx_cpudescs ctx) \<and>
     (\<forall>cpu\<in>set (ctx_cpudescs ctx). cput_wf cpu)"

lemma ctx_sizes_Cons:
  "cput < ctx_cpu_typecount ctx \<Longrightarrow>
   ctx_sizes ctx cput = tlb_sizes (cpu_tlbdescs (ctx_cpudescs ctx ! cput)) @ ctx_sizes ctx (Suc cput)"
  by (simp add: ctx_sizes_def upt_conv_Cons)

lemma cpu_pagesizes_maxima:
  assumes "cpu_pagesizes ctx cput (length vals) vals s = (0, n, vals', s')" "psizes_upto m vals"
    and "ctx_types_wf ctx"
  shows "vals' = vals @ maxima m (ctx_sizes ctx cput) \<and> n = length vals' \<and>
    psizes_upto (foldl max m (ctx_sizes ctx cput)) vals'"
  using assms
proof (induction "ctx_cpu_typecount ctx - cput" arbitrary: cput vals m s)
  case 0
  then show ?case by (auto simp: cpu_pagesizes.simps [of ctx cput] ctx_sizes_def)
next
  case (Suc d)
  then have lt: "cput < ctx_cpu_typecount ctx" by simp
  let ?cpu = "ctx_cpudescs ctx ! cput"
  have "?cpu \<in> set (ctx_cpudescs ctx)" using lt Suc.prems(3) by (simp add: ctx_types_wf_def)
  then have all: "take (cpu_tlbs ?cpu) (cpu_tlbdescs ?cpu) = cpu_tlbdescs ?cpu"
    using Suc.prems(3) by (auto simp: ctx_types_wf_def cput_wf_def)
  obtain r n1 vals1 s1 where t: "tlb_pagesizes (cpu_tlbdescs ?cpu) (length vals) vals s =
      (r, n1, vals1, s1)" by (cases rule: prod_cases4)
  have r: "r = 0" and go: "cpu_pagesizes ctx (Suc cput) n1 vals1 s1 = (0, n, vals', s')"
    using Suc.prems(1) lt t all
    by (auto simp: cpu_pagesizes.simps [of ctx cput] ctx_getdesc_def torque_cpu_getdesc_def
        split: if_splits)
  note tl = tlb_pagesizes_maxima [OF t [unfolded r] Suc.prems(2)]
  let ?m = "foldl max m (tlb_sizes (cpu_tlbdescs ?cpu))"
  have "d = ctx_cpu_typecount ctx - Suc cput" using Suc.hyps(2) by simp
  moreover have "cpu_pagesizes ctx (Suc cput) (length vals1) vals1 s1 = (0, n, vals', s')"
    using go tl by simp
  moreover have "psizes_upto ?m vals1" using tl by blast
  ultimately have "vals' = vals1 @ maxima ?m (ctx_sizes ctx (Suc cput)) \<and> n = length vals' \<and>
    psizes_upto (foldl max ?m (ctx_sizes ctx (Suc cput))) vals'"
    using Suc.prems(3) by (rule Suc.hyps(1))
  with tl show ?case by (auto simp: ctx_sizes_Cons [OF lt] maxima_append)
qed

lemma determine_pagesizes_maxima:
  assumes "determine_pagesizes ctx 0 [] s = (0, n, vals, s')" "ctx_types_wf ctx"
  shows "\<exists>psize. vals = psize # maxima psize (ctx_sizes ctx 0) \<and> n = length vals \<and>
    psizes_upto (foldl max psize (ctx_sizes ctx 0)) vals"
proof -
  obtain a s1 where sc: "sys_call (Sys_sysconf ''_SC_PAGESIZE'') s = (a, s1)" by fastforce
  let ?p = "of_int (rv a) :: u64"
  obtain r n1 vals1 s2 where ad: "add_pagesize (length ([]::u64 list)) [] ?p s1 = (r, n1, vals1, s2)"
    by (cases rule: prod_cases4)
  have v: "vals1 = [?p]" "n1 = length vals1"
    and go: "cpu_pagesizes ctx 0 (length vals1) vals1 s2 = (0, n, vals, s')"
    using assms(1) sc ad add_pagesize_eq [OF ad]
    by (auto simp: determine_pagesizes_def split: if_splits)
  have "psizes_upto ?p vals1" by (simp add: v psizes_upto_def)
  from cpu_pagesizes_maxima [OF go this assms(2)] show ?thesis by (auto simp: v)
qed

section \<open>The largest page size\<close>

lemma foldl_larger: "foldl (\<lambda>r v. if v > r then v else r) m vs = foldl max m vs" for m :: u64
proof -
  have "(\<lambda>r v. if v > r then v else r) = (max :: u64 \<Rightarrow> u64 \<Rightarrow> u64)"
    by (auto simp: fun_eq_iff max_def)
  then show ?thesis by simp
qed

lemma foldl_max_upto: "psizes_upto m vals \<Longrightarrow> foldl max 0 vals = m"
proof -
  assume u: "psizes_upto m vals"
  have le: "foldl max a vs \<le> b" if "a \<le> b" "\<forall>v\<in>set vs. v \<le> b" for a b :: u64 and vs
    using that by (induction vs arbitrary: a) auto
  obtain ys where v: "vals = ys @ [m]" using u by (metis append_butlast_last_id psizes_upto_def)
  have "foldl max 0 ys \<le> m"
    using psizes_upto_le [OF u] v by (intro le) auto
  then show ?thesis by (simp add: v max_absorb2)
qed

lemma detect_memories_result:
  assumes "detect_memories ctx s = (r, ctx', s')"
  shows "r \<in> {0, - 1}"
    and "r \<noteq> 0 \<Longrightarrow> ctx' = ctx\<lparr>ctx_manodes := [], ctx_nodecount := 0\<rparr>"
    and "r = 0 \<Longrightarrow> \<exists>n vals s1 sz. determine_pagesizes ctx 0 [] s = (0, n, vals, s1) \<and> sz \<noteq> 0 \<and>
      ctx' = ctx\<lparr>ctx_nodecount := ctx_nodecount ctx + 1, ctx_manodes := ctx_manodes ctx @
        [\<lparr>node_size = sz, node_psizevals = vals, node_psizes = n, node_count = 1\<rparr>]\<rparr>"
  using assms
  by (auto simp: detect_memories_def detect_memories_err_def free_memories_def detect_numa_def
      add_node_def Let_def split: prod.splits if_splits)

lemma large_pagesize_detected:
  assumes "detect_memories ctx s = (0, ctx', s')" "ctx_types_wf ctx"
    and "ctx_nodecount ctx = 0" "ctx_manodes ctx = []"
  shows "\<exists>psize. large_system_pagesize ctx' = foldl max psize (ctx_sizes ctx 0) \<and>
    psize \<in> set (node_psizevals (ctx_manodes ctx' ! 0)) \<and>
    large_system_pagesize ctx' \<in> set (node_psizevals (ctx_manodes ctx' ! 0))"
proof -
  obtain n vals s1 sz where d: "determine_pagesizes ctx 0 [] s = (0, n, vals, s1)"
    and c: "ctx' = ctx\<lparr>ctx_nodecount := ctx_nodecount ctx + 1, ctx_manodes := ctx_manodes ctx @
      [\<lparr>node_size = sz, node_psizevals = vals, node_psizes = n, node_count = 1\<rparr>]\<rparr>"
    using detect_memories_result(3) [OF assms(1)] by auto
  obtain psize where v: "vals = psize # maxima psize (ctx_sizes ctx 0)" "n = length vals"
    and u: "psizes_upto (foldl max psize (ctx_sizes ctx 0)) vals"
    using determine_pagesizes_maxima [OF d assms(2)] by blast
  have "large_system_pagesize ctx' = foldl max psize (ctx_sizes ctx 0)"
    using foldl_max_upto [OF u] v(2) assms(3,4)
    by (simp add: large_system_pagesize_def c foldl_larger)
  moreover have "foldl max psize (ctx_sizes ctx 0) \<in> set vals"
    using u by (metis last_in_set psizes_upto_def)
  moreover have "psize \<in> set vals" by (simp add: v(1))
  moreover have "node_psizevals (ctx_manodes ctx' ! 0) = vals" using assms(4) by (simp add: c)
  ultimately show ?thesis by metis
qed

section \<open>Properties\<close>

text \<open>One processor type with one TLB, for 2 MB pages, and the answers of a system with 4 KB pages.\<close>

definition sample_tlb :: "u32 \<Rightarrow> torque_tlbt" where
  "sample_tlb ps = \<lparr>tlb_entries = 64, tlb_pagesize = ps, tlb_associativity = 4, tlb_sharedways = 1,
     tlb_tlbtype = MEMTYPE_DATA, tlb_level = 1\<rparr>"

definition sample_types :: torque_ctx where
  "sample_types = zero_ctx\<lparr>ctx_cpu_typecount := 1,
     ctx_cpudescs := [zero_cput\<lparr>cpu_tlbs := 1, cpu_tlbdescs := [sample_tlb 0x200000]\<rparr>]\<rparr>"

lemma sample_types_wf: "ctx_types_wf sample_types"
  by (simp add: ctx_types_wf_def sample_types_def cput_wf_def zero_cput_def)

definition sample_memory :: "sysret list" where
  "sample_memory = [zero_ret\<lparr>rv := 4096\<rparr>, ok_ret, ok_ret, ok_ret, zero_ret\<lparr>rv := 4096\<rparr>, zero_ret, ok_ret]"

text \<open>
  Fact: the page sizes of a node. After the base page size, \<open>determine_pagesizes\<close> records
  the page sizes of the TLBs of all processor types that exceed everything recorded before,
  in increasing order; the last of them is the greatest of all.
\<close>

theorem pagesizes_are_maxima:
  assumes "determine_pagesizes ctx 0 [] s = (0, n, vals, s')" "ctx_types_wf ctx"
  shows "\<exists>psize. vals = psize # maxima psize (ctx_sizes ctx 0) \<and> n = length vals \<and>
    sorted_wrt (<) vals \<and> last vals = foldl max psize (ctx_sizes ctx 0)"
  using determine_pagesizes_maxima [OF assms] by (auto simp: psizes_upto_def)

theorem pagesizes_are_maxima_witness:
  "\<exists>n vals s'. determine_pagesizes sample_types 0 [] (os_answering sample_memory) = (0, n, vals, s') \<and>
     sorted_wrt (<) vals \<and> vals = [4096, 0x200000]"
proof -
  have "(case determine_pagesizes sample_types 0 [] (os_answering sample_memory) of
      (r, n, vals, s') \<Rightarrow> r = 0 \<and> vals = [4096, 0x200000])" by code_simp
  then obtain n vals s' where run: "determine_pagesizes sample_types 0 [] (os_answering sample_memory) =
      (0, n, vals, s')" and v: "vals = [4096, 0x200000]" by (auto split: prod.splits)
  from pagesizes_are_maxima [OF run sample_types_wf] run v show ?thesis by blast
qed

text \<open>
  Fact: a page size below one already recorded is not recorded, because \<open>match_pagesize\<close>
  asks for one that is not smaller instead of one that is equal. A processor with TLBs of
  4 MB and then 2 MB pages is said to have no 2 MB pages.
\<close>

theorem pagesize_missed:
  "fst (snd (snd (tlb_pagesizes [sample_tlb 0x400000, sample_tlb 0x200000] 1 [4096]
     (os_answering [ok_ret, ok_ret])))) = [4096, 0x400000]"
  by code_simp

text \<open>
  Fact: the page size that the buffer allocator uses is the greatest page size of the
  system and one of the sizes recorded for the node.
\<close>

theorem large_pagesize_is_greatest:
  assumes "detect_memories ctx s = (0, ctx', s')" "ctx_types_wf ctx"
    and "ctx_nodecount ctx = 0" "ctx_manodes ctx = []"
  shows "\<exists>psize. large_system_pagesize ctx' = foldl max psize (ctx_sizes ctx 0) \<and>
    psize \<in> set (node_psizevals (ctx_manodes ctx' ! 0)) \<and>
    large_system_pagesize ctx' \<in> set (node_psizevals (ctx_manodes ctx' ! 0))"
  using assms by (rule large_pagesize_detected)

theorem large_pagesize_is_greatest_witness:
  "\<exists>ctx' s'. detect_memories sample_types (os_answering sample_memory) = (0, ctx', s') \<and>
     large_system_pagesize ctx' \<in> set (node_psizevals (ctx_manodes ctx' ! 0))"
proof -
  have "fst (detect_memories sample_types (os_answering sample_memory)) = 0" by code_simp
  then obtain ctx' s' where run: "detect_memories sample_types (os_answering sample_memory) = (0, ctx', s')"
    by (metis prod.collapse)
  from large_pagesize_is_greatest [OF run sample_types_wf] run show ?thesis
    by (auto simp: sample_types_def zero_ctx_def)
qed

end
