(* ===== verification/Alloc.thy ===== *)
theory Alloc
  imports Memory
begin

text \<open>
  Page allocation, \<^verbatim>\<open>src/src/libtorque/alloc.c\<close> in its Linux configuration. A function
  that returns a pointer returns whether it is non-null; the sizes passed by reference
  are returned.
\<close>

definition PTHREAD_STACK_MIN :: u64 where "PTHREAD_STACK_MIN = 16384"
definition SIGSTKSZ :: u64 where "SIGSTKSZ = 8192"

definition get_pages :: "u64 \<Rightarrow> sysst \<Rightarrow> bool \<times> sysst" where
  "get_pages sz s = sys_alloc (Sys_mmap (unat sz)) s"

definition get_big_page :: "torque_ctx \<Rightarrow> sysst \<Rightarrow> bool \<times> u64 \<times> sysst" where
  "get_big_page ctx s =
     (let sz = large_system_pagesize ctx in
      if sz = 0 then (False, sz, s)
      else (case get_pages sz s of (ok, s') \<Rightarrow> (ok, sz, s')))"

definition get_stack_limit :: "u64 \<Rightarrow> sysst \<Rightarrow> u64 option \<times> sysst" where
  "get_stack_limit sz s =
     (if sz = 0 then
        (case sys_call (Sys_getrlimit ''RLIMIT_STACK'') s of
           (rl, s') \<Rightarrow>
             if rv rl \<noteq> 0 then (None, s')
             else
               let cur = of_int (rout rl) :: u64 in
               if cur = RLIM_INFINITY
               then (Some (if PTHREAD_STACK_MIN > SIGSTKSZ then PTHREAD_STACK_MIN else SIGSTKSZ), s')
               else (Some (cur * 1024), s'))
      else (Some sz, s))"

definition get_stack :: "u64 \<Rightarrow> sysst \<Rightarrow> bool \<times> u64 \<times> sysst" where
  "get_stack sz s =
     (case get_stack_limit sz s of
        (None, s') \<Rightarrow> (False, sz, s')
      | (Some n, s1) \<Rightarrow>
          if n < PTHREAD_STACK_MIN \<or> n < SIGSTKSZ then (False, n, s1)
          else (case get_pages n s1 of (ok, s2) \<Rightarrow> (ok, n, s2)))"

definition mod_pages :: "u64 \<Rightarrow> u64 \<Rightarrow> sysst \<Rightarrow> bool \<times> sysst" where
  "mod_pages olds news s = sys_alloc (Sys_mremap (unat olds) (unat news)) s"

definition dealloc :: "u64 \<Rightarrow> sysst \<Rightarrow> sysst" where
  "dealloc sz s = sys_note (Sys_munmap (unat sz)) s"

lemma sys_quiet_big_page: "get_big_page ctx s = (ok, sz, s') \<Longrightarrow> sys_quiet fd s s'"
  by (auto simp: get_big_page_def get_pages_def Let_def sys_quiet_refl split: if_splits prod.splits
      dest!: sys_quiet_alloc)

text \<open>A stack that was obtained is never smaller than either minimum.\<close>

lemma get_stack_minimum:
  "get_stack sz s = (True, n, s') \<Longrightarrow> PTHREAD_STACK_MIN \<le> n \<and> SIGSTKSZ \<le> n"
  by (auto simp: get_stack_def split: prod.splits option.splits if_splits)

lemma get_big_page_size:
  "get_big_page ctx s = (ok, n, s') \<Longrightarrow> n = large_system_pagesize ctx \<and> (ok \<longrightarrow> n \<noteq> 0)"
  by (auto simp: get_big_page_def Let_def split: prod.splits if_splits)

end
