(* ===== verification/Schedule.thy ===== *)
theory Schedule
  imports Alloc
begin

text \<open>
  Threads, \<^verbatim>\<open>src/src/libtorque/schedule.c\<close> with the creation of event handlers of
  \<^verbatim>\<open>src/src/libtorque/events/thread.c\<close>. The first part is sequential: \<open>spawn_thread\<close> with
  the new thread's part run up to its broadcast before the parent takes the lock. The
  second part is the handshake between the two threads as an interleaving of their
  steps, where every order is considered.
\<close>

section \<open>Affinity\<close>

function cpuset_count_from :: "nat set \<Rightarrow> nat \<Rightarrow> nat \<Rightarrow> nat" where
  "cpuset_count_from cs cpu n =
     (if cpu < CPU_SETSIZE then cpuset_count_from cs (cpu + 1) (if cpu \<in> cs then n + 1 else n) else n)"
  by pat_completeness auto
termination
  by (relation "measure (\<lambda>(cs, cpu, n). CPU_SETSIZE - cpu)") auto

declare cpuset_count_from.simps [simp del]

definition portable_cpuset_count :: "nat set \<Rightarrow> nat" where
  "portable_cpuset_count cs = cpuset_count_from cs 0 0"

definition pin_thread :: "nat \<Rightarrow> sysst \<Rightarrow> int \<times> sysst" where
  "pin_thread aid s =
     (case sys_int (Sys_setaffinity {aid}) s of (r, s') \<Rightarrow> (if r \<noteq> 0 then - 1 else 0, s'))"

definition unpin_thread :: "nat set \<Rightarrow> sysst \<Rightarrow> int \<times> sysst" where
  "unpin_thread cset s =
     (case sys_int (Sys_setaffinity cset) s of (r, s') \<Rightarrow> (if r \<noteq> 0 then - 1 else 0, s'))"

definition get_thread_aid :: "sysst \<Rightarrow> int \<times> sysst" where
  "get_thread_aid s =
     (case sys_call Sys_getaffinity s of
        (a, s') \<Rightarrow>
          if rv a \<noteq> 0 then (- 1, s')
          else
            let z = scan_aid (rset a) 0 in (if z < CPU_SETSIZE then int z else - 1, s'))"

section \<open>Event handlers\<close>

text \<open>The two arrays of an event vector; \<open>init_evectors\<close> makes them 512 entries long.\<close>

definition create_evector :: "sysst \<Rightarrow> int \<times> sysst" where
  "create_evector s =
     (case sys_alloc (Sys_malloc ''events'') s of
        (ok, s1) \<Rightarrow>
          if \<not> ok then (- 1, s1)
          else
            (case sys_alloc (Sys_malloc ''ctldata'') s1 of
               (ok, s2) \<Rightarrow> if \<not> ok then (- 1, sys_note (Sys_free ''events'') s2) else (0, s2)))"

definition init_evectors :: "sysst \<Rightarrow> int \<times> sysst" where
  "init_evectors s = (case create_evector s of (r, s1) \<Rightarrow> (if r \<noteq> 0 then - 1 else 0, s1))"

definition initialize_evhandler :: "sysst \<Rightarrow> int \<times> sysst" where
  "initialize_evhandler s = (case init_evectors s of (r, s1) \<Rightarrow> (if r \<noteq> 0 then - 1 else 0, s1))"

definition create_evhandler :: "sysst \<Rightarrow> bool \<times> sysst" where
  "create_evhandler s =
     (case sys_alloc (Sys_malloc ''evhandler'') s of
        (ok, s1) \<Rightarrow>
          if \<not> ok then (False, s1)
          else
            (case initialize_evhandler s1 of
               (r, s2) \<Rightarrow> if r = 0 then (True, s2) else (False, sys_note (Sys_free ''evhandler'') s2)))"

text \<open>What \<open>destroy_evhandler\<close> frees; the statistics that it prints first are in the theory Shutdown.\<close>

definition destroy_evector :: "sysst \<Rightarrow> sysst" where
  "destroy_evector s = sys_note (Sys_free ''ctldata'') (sys_note (Sys_free ''events'') s)"

definition destroy_evectors :: "sysst \<Rightarrow> sysst" where
  "destroy_evectors s = destroy_evector s"

definition destroy_evhandler :: "sysst \<Rightarrow> sysst" where
  "destroy_evhandler s = sys_note (Sys_free ''evhandler'') (destroy_evectors s)"

lemmas evhandler_defs = create_evhandler_def initialize_evhandler_def init_evectors_def create_evector_def
  destroy_evhandler_def destroy_evectors_def destroy_evector_def

section \<open>The new thread\<close>

datatype tstatus = THREAD_UNLAUNCHED | THREAD_PREFAIL | THREAD_STARTED

text \<open>Entering the circle of threads, under the lock.\<close>

definition link_thread :: "nat \<Rightarrow> torque_ctx \<Rightarrow> torque_ctx" where
  "link_thread tid ctx =
     (case ctx_ev ctx of
        None \<Rightarrow> ctx\<lparr>ctx_ev := Some tid, ctx_nexttid := (ctx_nexttid ctx)(tid \<mapsto> tid)\<rparr>
      | Some l \<Rightarrow>
          ctx\<lparr>ctx_nexttid := (ctx_nexttid ctx)(tid := ctx_nexttid ctx l, l \<mapsto> tid)\<rparr>)"

definition thread_earlyerr :: "bool \<Rightarrow> torque_ctx \<Rightarrow> sysst \<Rightarrow> tstatus \<times> torque_ctx \<times> sysst" where
  "thread_earlyerr have_ev ctx s =
     (let s1 = snd (sys_int (Sys_pthread ''mutex_unlock'')
                 (snd (sys_int (Sys_pthread ''mutex_lock'') s)))
      in (THREAD_PREFAIL, ctx, if have_ev then destroy_evhandler s1 else s1))"

text \<open>The body of \<open>thread\<close> up to the event loop.\<close>

definition thread_launch :: "nat \<Rightarrow> torque_ctx \<Rightarrow> sysst \<Rightarrow> tstatus \<times> torque_ctx \<times> sysst" where
  "thread_launch tid ctx s =
     (case sys_int (Sys_pthread ''setcancelstate'') s of
        (r, s1) \<Rightarrow>
          if r \<noteq> 0 then thread_earlyerr False ctx s1
          else
            (case create_evhandler s1 of
               (ok, s2) \<Rightarrow>
                 if \<not> ok then thread_earlyerr False ctx s2
                 else
                   (case sys_int (Sys_pthread ''mutex_lock'') s2 of
                      (r, s3) \<Rightarrow>
                        if r \<noteq> 0 then thread_earlyerr True ctx (destroy_evhandler s3)
                        else
                          (THREAD_STARTED, link_thread tid ctx,
                           snd (sys_int (Sys_pthread ''mutex_unlock'') s3)))))"

section \<open>Spawning\<close>

definition setup_thread_stack :: "sysst \<Rightarrow> bool \<times> u64 \<times> sysst" where
  "setup_thread_stack s =
     (case sys_int (Sys_pthread ''attr_init'') s of
        (r, s1) \<Rightarrow>
          if r \<noteq> 0 then (False, 0, s1)
          else
            (case get_stack 0 s1 of
               (ok, n, s2) \<Rightarrow>
                 if \<not> ok then (False, n, sys_note (Sys_pthread ''attr_destroy'') s2)
                 else
                   (case sys_int (Sys_pthread ''attr_setstack'') s2 of
                      (r, s3) \<Rightarrow>
                        if r \<noteq> 0
                        then (False, n, sys_note (Sys_pthread ''attr_destroy'') (dealloc n s3))
                        else (True, n, s3))))"

text \<open>The tail of \<open>spawn_thread\<close> once the status is known; \<open>|=\<close> accumulates results.\<close>

definition spawn_finish :: "nat \<Rightarrow> int \<Rightarrow> tstatus \<Rightarrow> sysst \<Rightarrow> int \<times> sysst" where
  "spawn_finish tid ret status s =
     (let ret1 = (if status \<noteq> THREAD_STARTED then - 1 else ret) in
      case sys_int (Sys_pthread ''mutex_unlock'') s of
        (r1, s1) \<Rightarrow>
      case sys_int (Sys_pthread ''cond_destroy'') s1 of
        (r2, s2) \<Rightarrow>
      case sys_int (Sys_pthread ''mutex_destroy'') s2 of
        (r3, s3) \<Rightarrow>
          let ret2 = ((ret1 OR r1) OR r2) OR r3
          in (ret2, if ret2 \<noteq> 0 then snd (sys_int (Sys_join tid) s3) else s3))"

definition spawn_undo :: "u64 \<Rightarrow> sysst \<Rightarrow> sysst" where
  "spawn_undo n s = sys_note (Sys_pthread ''attr_destroy'') (dealloc n s)"

definition spawn_thread :: "torque_ctx \<Rightarrow> sysst \<Rightarrow> int \<times> torque_ctx \<times> sysst" where
  "spawn_thread ctx s =
     (case setup_thread_stack s of
        (ok, n, s1) \<Rightarrow>
          if \<not> ok then (- 1, ctx, s1)
          else
        case sys_int (Sys_pthread ''mutex_init'') s1 of
          (r, s2) \<Rightarrow>
            if r \<noteq> 0 then (- 1, ctx, spawn_undo n s2)
            else
        case sys_int (Sys_pthread ''cond_init'') s2 of
          (r, s3) \<Rightarrow>
            if r \<noteq> 0 then (- 1, ctx, spawn_undo n (sys_note (Sys_pthread ''mutex_destroy'') s3))
            else
        case sys_call (Sys_pthread ''create'') s3 of
          (a, s4) \<Rightarrow>
            if rv a \<noteq> 0
            then (- 1, ctx, spawn_undo n (sys_note (Sys_pthread ''cond_destroy'')
                   (sys_note (Sys_pthread ''mutex_destroy'') s4)))
            else
              let tid = nat (rout a) in
              case thread_launch tid ctx s4 of
                (status, ctx', s5) \<Rightarrow>
              case sys_int (Sys_pthread ''attr_destroy'') s5 of
                (r1, s6) \<Rightarrow>
              case sys_int (Sys_pthread ''mutex_lock'') s6 of
                (r2, s7) \<Rightarrow>
              case spawn_finish tid (r1 OR r2) status s7 of
                (ret, s8) \<Rightarrow> (ret, ctx', s8))"

section \<open>Joining\<close>

definition block_thread :: "nat \<Rightarrow> sysst \<Rightarrow> int \<times> sysst" where
  "block_thread tid s =
     (case sys_int (Sys_join tid) s of (r, s') \<Rightarrow> (if r \<noteq> 0 then - 1 else 0, s'))"

definition SIGTERM :: nat where [simp]: "SIGTERM = 15"
definition SIGINT :: nat where [simp]: "SIGINT = 2"

definition reap_thread :: "nat \<Rightarrow> sysst \<Rightarrow> int \<times> sysst" where
  "reap_thread tid s =
     (case sys_int (Sys_kill SIGTERM) s of
        (r1, s1) \<Rightarrow> case block_thread tid s1 of (r2, s2) \<Rightarrow> (r1 OR r2, s2))"

text \<open>\<open>None\<close> stands for following the \<open>nexttid\<close> of a handler that does not exist.\<close>

definition reap_threads :: "torque_ctx \<Rightarrow> sysst \<Rightarrow> (int \<times> sysst) option" where
  "reap_threads ctx s =
     (case ctx_ev ctx of
        None \<Rightarrow> Some (0, s)
      | Some l \<Rightarrow>
          (case ctx_nexttid ctx l of None \<Rightarrow> None | Some t \<Rightarrow> Some (reap_thread t s)))"

definition block_threads :: "torque_ctx \<Rightarrow> sysst \<Rightarrow> (int \<times> sysst) option" where
  "block_threads ctx s =
     (case ctx_ev ctx of
        None \<Rightarrow> Some (0, s)
      | Some l \<Rightarrow>
          (case ctx_nexttid ctx l of None \<Rightarrow> None | Some t \<Rightarrow> Some (block_thread t s)))"

section \<open>The circle of threads\<close>

text \<open>
  The threads of a context form a circle: the leader first, then the others from the
  newest to the oldest, each handler's \<open>nexttid\<close> the next in the list and the last one's
  the leader.
\<close>

definition thread_ring :: "torque_ctx \<Rightarrow> nat list \<Rightarrow> bool" where
  "thread_ring ctx ts \<longleftrightarrow>
     distinct ts \<and> dom (ctx_nexttid ctx) = set ts \<and>
     (case ts of [] \<Rightarrow> ctx_ev ctx = None | l # _ \<Rightarrow> ctx_ev ctx = Some l) \<and>
     (\<forall>i<length ts. ctx_nexttid ctx (ts ! i) = Some (ts ! (Suc i mod length ts)))"

text \<open>Behind the new thread the circle goes on as it did.\<close>

lemma ring_insert_nth:
  "i \<le> length rest \<Longrightarrow>
   (l # rest) ! (Suc i mod Suc (length rest)) = (l # tid # rest) ! (Suc (Suc i) mod Suc (Suc (length rest)))"
  by (cases "i = length rest") simp_all

lemma link_thread_ring:
  assumes "thread_ring ctx ts" "tid \<notin> set ts"
  shows "thread_ring (link_thread tid ctx) (case ts of [] \<Rightarrow> [tid] | l # rest \<Rightarrow> l # tid # rest)"
proof (cases ts)
  case Nil
  then show ?thesis using assms by (auto simp: thread_ring_def link_thread_def)
next
  case (Cons l rest)
  have d: "distinct (l # rest)" and tid: "tid \<noteq> l" "tid \<notin> set rest"
    and ev: "ctx_ev ctx = Some l" and dm: "dom (ctx_nexttid ctx) = insert l (set rest)"
    and nx: "\<And>i. i < Suc (length rest) \<Longrightarrow>
      ctx_nexttid ctx ((l # rest) ! i) = Some ((l # rest) ! (Suc i mod Suc (length rest)))"
    using assms by (auto simp: thread_ring_def Cons)
  let ?new = "l # tid # rest" and ?nx = "(ctx_nexttid ctx)(tid := ctx_nexttid ctx l, l \<mapsto> tid)"
  have step: "?nx (?new ! i) = Some (?new ! (Suc i mod length ?new))" if i: "i < length ?new" for i
  proof -
    consider "i = 0" | "i = 1" | j where "i = Suc (Suc j)" "j < length rest"
      using i by (cases i; cases "i - 1") auto
    then show ?thesis
    proof cases
      case 2
      then show ?thesis using nx [of 0] ring_insert_nth [of 0 rest l tid] tid by simp
    next
      case 3
      then have "rest ! j \<noteq> tid" "rest ! j \<noteq> l" using tid d by (auto dest: nth_mem)
      then show ?thesis using nx [of "Suc j"] ring_insert_nth [of "Suc j" rest l tid] 3 by simp
    qed simp
  qed
  have "link_thread tid ctx = ctx\<lparr>ctx_nexttid := ?nx\<rparr>" using ev by (simp add: link_thread_def)
  moreover have "dom ?nx = set ?new" using dm nx [of 0] by (auto simp: dom_def)
  ultimately show ?thesis using step d tid ev unfolding Cons thread_ring_def by simp
qed

lemma linked_ring:
  assumes "ctx_ev ctx = None" "ctx_nexttid ctx = Map.empty" "distinct tids"
  shows "\<exists>ts. thread_ring (fold link_thread tids ctx) ts \<and> set ts = set tids \<and> length ts = length tids"
  using assms(3)
proof (induction tids rule: rev_induct)
  case Nil
  then show ?case using assms(1,2) by (auto simp: thread_ring_def)
next
  case (snoc t tids)
  then obtain ts where ts: "thread_ring (fold link_thread tids ctx) ts" "set ts = set tids"
    "length ts = length tids" by auto
  then have "thread_ring (fold link_thread (tids @ [t]) ctx) (case ts of [] \<Rightarrow> [t] | l # rest \<Rightarrow> l # t # rest)"
    using link_thread_ring [OF ts(1), of t] snoc.prems by simp
  then show ?case using ts(2,3) by (cases ts) fastforce+
qed

text \<open>Following \<open>nexttid\<close> from any thread meets every thread.\<close>

definition next_thread :: "torque_ctx \<Rightarrow> nat \<Rightarrow> nat" where
  "next_thread ctx t = the (ctx_nexttid ctx t)"

lemma ring_iterate:
  assumes "thread_ring ctx ts" "i < length ts"
  shows "(next_thread ctx ^^ k) (ts ! i) = ts ! ((i + k) mod length ts)"
proof (induction k)
  case 0
  then show ?case using assms(2) by simp
next
  case (Suc k)
  have lt: "(i + k) mod length ts < length ts" using assms(2) by (cases ts) auto
  have "ctx_nexttid ctx (ts ! ((i + k) mod length ts)) =
      Some (ts ! (Suc ((i + k) mod length ts) mod length ts))"
    using assms(1) lt unfolding thread_ring_def by blast
  then show ?case using Suc by (simp add: next_thread_def mod_Suc_eq)
qed

lemma ring_covers:
  assumes "thread_ring ctx ts" "t \<in> set ts" "u \<in> set ts"
  shows "\<exists>k<length ts. (next_thread ctx ^^ k) t = u"
proof -
  obtain i j where i: "i < length ts" "t = ts ! i" and j: "j < length ts" "u = ts ! j"
    using assms(2,3) by (auto simp: in_set_conv_nth)
  define k where "k = (j + length ts - i) mod length ts"
  have "(i + k) mod length ts = (i + (j + length ts - i)) mod length ts"
    by (simp add: k_def mod_add_right_eq)
  also have "\<dots> = j" using i j by simp
  finally have "(next_thread ctx ^^ k) t = u" using ring_iterate [OF assms(1) i(1)] i j by simp
  moreover have "k < length ts" using i by (cases ts) (auto simp: k_def)
  ultimately show ?thesis by blast
qed

section \<open>What spawning does\<close>

lemma thread_launch_cases:
  "thread_launch tid ctx s = (st, ctx', s') \<Longrightarrow>
   st = THREAD_STARTED \<and> ctx' = link_thread tid ctx \<or> st = THREAD_PREFAIL \<and> ctx' = ctx"
  by (auto simp: thread_launch_def thread_earlyerr_def Let_def split: prod.splits if_splits)

lemma int_or_zero: "(a OR b = 0) \<longleftrightarrow> a = 0 \<and> b = 0" for a b :: int
  by (simp add: or_eq_0_iff)

lemma spawn_finish_zero: "spawn_finish tid ret st s = (0, s') \<Longrightarrow> st = THREAD_STARTED \<and> ret = 0"
  by (auto simp: spawn_finish_def Let_def int_or_zero split: prod.splits if_splits)

lemma spawn_thread_cases:
  assumes "spawn_thread ctx s = (r, ctx', s')"
  shows "r \<noteq> 0 \<and> ctx' = ctx \<or> (\<exists>tid. ctx' = link_thread tid ctx)"
proof (cases "ctx' = ctx")
  case True
  have "r \<noteq> 0 \<or> (\<exists>tid. ctx' = link_thread tid ctx)"
  proof (rule ccontr)
    assume "\<not> ?thesis"
    then have r: "r = 0" and no: "\<And>tid. ctx' \<noteq> link_thread tid ctx" by auto
    show False using assms r no
      by (auto simp: spawn_thread_def Let_def split: prod.splits if_splits
          dest!: spawn_finish_zero thread_launch_cases)
  qed
  with True show ?thesis by blast
next
  case False
  then show ?thesis using assms
    by (auto simp: spawn_thread_def Let_def split: prod.splits if_splits
        dest!: thread_launch_cases)
qed

lemma cpuset_count_from_eq:
  "cpu \<le> CPU_SETSIZE \<Longrightarrow> cpuset_count_from cs cpu n = n + card (cs \<inter> {cpu..<CPU_SETSIZE})"
proof (induction cs cpu n rule: cpuset_count_from.induct)
  case (1 cs cpu n)
  show ?case
  proof (cases "cpu < CPU_SETSIZE")
    case True
    then have "{cpu..<CPU_SETSIZE} = insert cpu {cpu + 1..<CPU_SETSIZE}" by auto
    then show ?thesis using True "1.IH" by (simp add: cpuset_count_from.simps [of cs cpu n])
  next
    case False
    then show ?thesis by (simp add: cpuset_count_from.simps [of cs cpu n])
  qed
qed

lemma portable_cpuset_count_card: "portable_cpuset_count cs = card (cs \<inter> {..<CPU_SETSIZE})"
  by (simp add: portable_cpuset_count_def cpuset_count_from_eq lessThan_atLeast0 del: CPU_SETSIZE_def)

section \<open>The handshake\<close>

text \<open>
  Parent and child share the guard on the parent's stack: a mutex, a condition and
  the status. The parent's program counter runs through lock, test, wait, unlock and
  the destruction of the guard; the child's through lock, status, broadcast, unlock
  and its event loop (or its exit, after a failure). A parent that waits has given
  the mutex back and needs both the broadcast and the mutex to go on; a spurious
  wakeup is a wakeup without broadcast.
\<close>

datatype parent_pc = P_lock | P_test | P_sleep | P_awake | P_unlock | P_destroy
datatype child_pc = C_early | C_lock | C_set | C_broadcast | C_unlock | C_gone
datatype owner = Nobody | Parent | Child

record guard =
  g_owner :: owner
  g_status :: tstatus
  g_parent :: parent_pc
  g_child :: child_pc
  g_outcome :: tstatus

definition guard_init :: "tstatus \<Rightarrow> guard" where
  "guard_init outcome = \<lparr>g_owner = Nobody, g_status = THREAD_UNLAUNCHED, g_parent = P_lock,
     g_child = C_early, g_outcome = outcome\<rparr>"

inductive handshake :: "guard \<Rightarrow> guard \<Rightarrow> bool" where
  parent_lock: "g_parent g = P_lock \<Longrightarrow> g_owner g = Nobody \<Longrightarrow>
    handshake g (g\<lparr>g_owner := Parent, g_parent := P_test\<rparr>)"
| parent_wait: "g_parent g = P_test \<Longrightarrow> g_status g = THREAD_UNLAUNCHED \<Longrightarrow>
    handshake g (g\<lparr>g_owner := Nobody, g_parent := P_sleep\<rparr>)"
| parent_pass: "g_parent g = P_test \<Longrightarrow> g_status g \<noteq> THREAD_UNLAUNCHED \<Longrightarrow>
    handshake g (g\<lparr>g_parent := P_unlock\<rparr>)"
| parent_spurious: "g_parent g = P_sleep \<Longrightarrow> handshake g (g\<lparr>g_parent := P_awake\<rparr>)"
| parent_relock: "g_parent g = P_awake \<Longrightarrow> g_owner g = Nobody \<Longrightarrow>
    handshake g (g\<lparr>g_owner := Parent, g_parent := P_test\<rparr>)"
| parent_unlock: "g_parent g = P_unlock \<Longrightarrow>
    handshake g (g\<lparr>g_owner := Nobody, g_parent := P_destroy\<rparr>)"
| child_prepare: "g_child g = C_early \<Longrightarrow> handshake g (g\<lparr>g_child := C_lock\<rparr>)"
| child_lock: "g_child g = C_lock \<Longrightarrow> g_owner g = Nobody \<Longrightarrow>
    handshake g (g\<lparr>g_owner := Child, g_child := C_set\<rparr>)"
| child_set: "g_child g = C_set \<Longrightarrow>
    handshake g (g\<lparr>g_status := g_outcome g, g_child := C_broadcast\<rparr>)"
| child_broadcast: "g_child g = C_broadcast \<Longrightarrow>
    handshake g (g\<lparr>g_parent := (if g_parent g = P_sleep then P_awake else g_parent g),
      g_child := C_unlock\<rparr>)"
| child_unlock: "g_child g = C_unlock \<Longrightarrow>
    handshake g (g\<lparr>g_owner := Nobody, g_child := C_gone\<rparr>)"

definition handshake_inv :: "guard \<Rightarrow> bool" where
  "handshake_inv g \<longleftrightarrow>
     (g_owner g = Parent \<longleftrightarrow> g_parent g \<in> {P_test, P_unlock}) \<and>
     (g_owner g = Child \<longleftrightarrow> g_child g \<in> {C_set, C_broadcast, C_unlock}) \<and>
     (g_status g = (if g_child g \<in> {C_early, C_lock, C_set} then THREAD_UNLAUNCHED else g_outcome g)) \<and>
     (g_parent g \<in> {P_unlock, P_destroy} \<longrightarrow> g_child g = C_gone) \<and>
     (g_parent g = P_sleep \<longrightarrow> g_child g \<notin> {C_unlock, C_gone}) \<and>
     g_outcome g \<noteq> THREAD_UNLAUNCHED"

lemma handshake_inv_init: "outcome \<noteq> THREAD_UNLAUNCHED \<Longrightarrow> handshake_inv (guard_init outcome)"
  by (simp add: handshake_inv_def guard_init_def)

lemma handshake_inv_step: "handshake g g' \<Longrightarrow> handshake_inv g \<Longrightarrow> handshake_inv g'"
  by (induction rule: handshake.induct)
    (auto simp: handshake_inv_def split: if_splits, (metis child_pc.exhaust)?)

interpretation hs_inv: step_invariant handshake handshake_inv
  by unfold_locales (rule handshake_inv_step)

lemma handshake_reach_inv:
  "handshake\<^sup>*\<^sup>* (guard_init outcome) g \<Longrightarrow> outcome \<noteq> THREAD_UNLAUNCHED \<Longrightarrow> handshake_inv g"
  using hs_inv.reach_keeps handshake_inv_init by blast

lemma handshake_outcome: "handshake\<^sup>*\<^sup>* g g' \<Longrightarrow> g_outcome g' = g_outcome g"
  by (induction rule: rtranclp_induct) (auto elim: handshake.cases)

text \<open>No reachable state is stuck short of the end.\<close>

lemma handshake_progress:
  assumes "handshake_inv g" "g_parent g \<noteq> P_destroy"
  shows "\<exists>g'. handshake g g'"
proof (cases "g_owner g")
  case Nobody
  show ?thesis
  proof (cases "g_parent g")
    case P_lock
    then show ?thesis using Nobody by (blast intro: parent_lock)
  next
    case P_awake
    then show ?thesis using Nobody by (blast intro: parent_relock)
  next
    case P_sleep
    then show ?thesis by (blast intro: parent_spurious)
  qed (use assms Nobody in \<open>auto simp: handshake_inv_def\<close>)
next
  case Parent
  then have "g_parent g = P_test \<or> g_parent g = P_unlock" using assms(1) by (auto simp: handshake_inv_def)
  then show ?thesis by (blast intro: parent_wait parent_pass parent_unlock)
next
  case Child
  then have "g_child g = C_set \<or> g_child g = C_broadcast \<or> g_child g = C_unlock"
    using assms(1) by (auto simp: handshake_inv_def)
  then show ?thesis by (blast intro: child_set child_broadcast child_unlock)
qed

text \<open>
  From every reachable state the handshake can be completed: there is always a step
  that brings the child nearer to its end or, once it has left the guard, the parent.
\<close>

fun child_left :: "child_pc \<Rightarrow> nat" where
  "child_left C_early = 5"
| "child_left C_lock = 4"
| "child_left C_set = 3"
| "child_left C_broadcast = 2"
| "child_left C_unlock = 1"
| "child_left C_gone = 0"

fun parent_left :: "parent_pc \<Rightarrow> nat" where
  "parent_left P_test = 2"
| "parent_left P_unlock = 1"
| "parent_left P_destroy = 0"
| "parent_left _ = 3"

definition guard_left :: "guard \<Rightarrow> nat" where
  "guard_left g = 4 * child_left (g_child g) +
     (if g_child g = C_gone then parent_left (g_parent g) else if g_owner g = Parent then 1 else 0)"

lemma closer_by:
  "handshake g g' \<Longrightarrow> guard_left g' < guard_left g \<Longrightarrow>
   \<exists>g'. handshake g g' \<and> guard_left g' < guard_left g"
  by blast

lemma parent_closer:
  assumes inv: "handshake_inv g" and nd: "g_parent g \<noteq> P_destroy" and gone: "g_child g = C_gone"
  shows "\<exists>g'. handshake g g' \<and> guard_left g' < guard_left g"
proof -
  have o: "g_owner g = Nobody \<or> g_owner g = Parent \<or> g_owner g = Child" by (cases "g_owner g") auto
  have oc: "g_owner g \<noteq> Child" and st: "g_status g \<noteq> THREAD_UNLAUNCHED"
    using inv gone by (auto simp: handshake_inv_def)
  show ?thesis
  proof (cases "g_parent g")
    case P_lock
    then have "g_owner g = Nobody" using inv oc o by (auto simp: handshake_inv_def)
    then show ?thesis using P_lock gone
      by - (rule closer_by [OF parent_lock], auto simp: guard_left_def)
  next
    case P_test
    then show ?thesis using st gone
      by - (rule closer_by [OF parent_pass], auto simp: guard_left_def)
  next
    case P_sleep
    then show ?thesis using inv gone by (simp add: handshake_inv_def)
  next
    case P_awake
    then have "g_owner g = Nobody" using inv oc o by (auto simp: handshake_inv_def)
    then show ?thesis using P_awake gone
      by - (rule closer_by [OF parent_relock], auto simp: guard_left_def)
  next
    case P_unlock
    then show ?thesis using gone by - (rule closer_by [OF parent_unlock], auto simp: guard_left_def)
  next
    case P_destroy
    then show ?thesis using nd by simp
  qed
qed

lemma handshake_closer:
  assumes inv: "handshake_inv g" and nd: "g_parent g \<noteq> P_destroy"
  shows "\<exists>g'. handshake g g' \<and> guard_left g' < guard_left g"
proof -
  have o: "g_owner g = Nobody \<or> g_owner g = Parent \<or> g_owner g = Child"
    by (cases "g_owner g") auto
  show ?thesis
  proof (cases "g_child g")
    case C_early
    then show ?thesis by - (rule closer_by [OF child_prepare], auto simp: guard_left_def)
  next
    case C_lock
    show ?thesis
    proof (cases "g_owner g = Parent")
      case True
      then have "g_parent g = P_test" "g_status g = THREAD_UNLAUNCHED"
        using inv C_lock by (auto simp: handshake_inv_def)
      then show ?thesis using True C_lock
        by - (rule closer_by [OF parent_wait], auto simp: guard_left_def)
    next
      case False
      then have "g_owner g = Nobody" using inv C_lock o by (auto simp: handshake_inv_def)
      then show ?thesis using C_lock
        by - (rule closer_by [OF child_lock], auto simp: guard_left_def)
    qed
  next
    case C_set
    then show ?thesis by - (rule closer_by [OF child_set], auto simp: guard_left_def)
  next
    case C_broadcast
    then show ?thesis by - (rule closer_by [OF child_broadcast], auto simp: guard_left_def)
  next
    case C_unlock
    then have "g_parent g \<noteq> P_unlock \<and> g_parent g \<noteq> P_destroy" using inv by (auto simp: handshake_inv_def)
    then have "parent_left (g_parent g) \<le> 3" by (cases "g_parent g") auto
    then show ?thesis using C_unlock by - (rule closer_by [OF child_unlock], auto simp: guard_left_def)
  next
    case C_gone
    from parent_closer [OF inv nd this] show ?thesis .
  qed
qed

interpretation hs: step_variant handshake handshake_inv guard_left "\<lambda>g. g_parent g = P_destroy"
  by unfold_locales (meson handshake_closer handshake_inv_step)

section \<open>Properties\<close>

text \<open>
  Property C10: the threads of a context form one circle. After the threads of any list of
  different identifiers have entered one after the other, each of them is reached from each
  by following \<open>nexttid\<close> fewer times than there are threads: the chain of signals and
  joins that ends a context meets them all.
\<close>

theorem threads_form_circle:
  assumes "ctx_ev ctx = None" "ctx_nexttid ctx = Map.empty" "distinct tids"
    and "t \<in> set tids" "u \<in> set tids" "end_ctx = fold link_thread tids ctx"
  shows "\<exists>k<length tids. (next_thread end_ctx ^^ k) t = u"
proof -
  obtain ts where "thread_ring end_ctx ts" "set ts = set tids" "length ts = length tids"
    using linked_ring [OF assms(1,2,3)] assms(6) by blast
  then show ?thesis using ring_covers [of end_ctx ts t u] assms(4,5) by simp
qed

theorem threads_form_circle_witness:
  "\<exists>k<3. (next_thread (fold link_thread [7, 8, 9] zero_ctx) ^^ k) 9 = 8"
  using threads_form_circle [of zero_ctx "[7, 8, 9]" 9 8] by (simp add: zero_ctx_def numeral_3_eq_3)

text \<open>
  Property C11: safety of the guard that parent and child share. In every interleaving, with
  spurious wakeups, at most one of the two holds the mutex, and when the parent destroys the
  guard on its stack the child has left it for good and the parent has seen its status.
\<close>

theorem handshake_safe:
  assumes "handshake\<^sup>*\<^sup>* (guard_init outcome) g" "outcome \<noteq> THREAD_UNLAUNCHED"
  shows "\<not> (g_parent g \<in> {P_test, P_unlock} \<and> g_child g \<in> {C_set, C_broadcast, C_unlock}) \<and>
    (g_parent g \<in> {P_unlock, P_destroy} \<longrightarrow> g_child g = C_gone \<and> g_status g = outcome)"
  using handshake_reach_inv [OF assms] handshake_outcome [OF assms(1)]
  by (auto simp: handshake_inv_def guard_init_def)

theorem handshake_safe_witness:
  "\<exists>g. handshake\<^sup>*\<^sup>* (guard_init THREAD_STARTED) g \<and> g_parent g = P_destroy \<and> g_child g = C_gone \<and>
     g_status g = THREAD_STARTED"
proof -
  obtain g where run: "handshake\<^sup>*\<^sup>* (guard_init THREAD_STARTED) g" and "g_parent g = P_destroy"
    using hs.completes [OF handshake_inv_init [of THREAD_STARTED]] by auto
  with handshake_safe [OF run] show ?thesis by auto
qed



text \<open>
  Fact: when the new thread cannot take the lock it destroys its event handler, and the
  error exit then destroys it again.
\<close>

theorem evhandler_freed_twice:
  "\<exists>s'. thread_launch 7 ctx (os_answering [zero_ret, ok_ret, ok_ret, ok_ret, failed_ret]) =
      (THREAD_PREFAIL, ctx, s') \<and>
    filter (\<lambda>c. c = Sys_malloc ''evhandler'') (calls s') = [Sys_malloc ''evhandler''] \<and>
    filter (\<lambda>c. c = Sys_free ''evhandler'') (calls s') = [Sys_free ''evhandler'', Sys_free ''evhandler'']"
  by (simp add: thread_launch_def thread_earlyerr_def evhandler_defs io_simps Let_def)

end
