(* ===== verification/Buffers.thy ===== *)
theory Buffers
  imports Schedule
begin

text \<open>
  Receive buffers, \<^verbatim>\<open>src/src/libtorque/buffers.h\<close> and \<^verbatim>\<open>src/src/libtorque/buffers.c\<close>. The
  buffer is the list of its bytes; the three offsets are natural numbers (a mapping
  is far smaller than the range of \<open>size_t\<close>). The client's callback is a parameter: it
  receives the descriptor and the buffer, may call the system, and returns its result and the
  buffer it leaves.
\<close>

section \<open>The buffer\<close>

record torque_rxbuf =
  rx_buffer :: "u8 list"
  rx_buftot :: nat
  rx_bufoff :: nat
  rx_bufate :: nat

definition rxbuffer_advance :: "nat \<Rightarrow> torque_rxbuf \<Rightarrow> torque_rxbuf" where
  "rxbuffer_advance n rxb =
     (let ate = rx_bufate rxb + n in
      if ate = rx_buftot rxb then rxb\<lparr>rx_bufoff := 0, rx_bufate := 0\<rparr>
      else if rx_bufoff rxb = rx_buftot rxb then
        rxb\<lparr>rx_buffer := memmove_slots (rx_buffer rxb) 0 ate (rx_bufoff rxb - ate),
            rx_bufoff := rx_bufoff rxb - ate, rx_bufate := 0\<rparr>
      else rxb\<lparr>rx_bufate := ate\<rparr>)"

definition initialize_rxbuffer :: "torque_ctx \<Rightarrow> sysst \<Rightarrow> torque_rxbuf option \<times> sysst" where
  "initialize_rxbuffer ctx s =
     (case get_big_page ctx s of
        (ok, sz, s') \<Rightarrow>
          (if ok then Some \<lparr>rx_buffer = replicate (unat sz) 0, rx_buftot = unat sz, rx_bufoff = 0,
                            rx_bufate = 0\<rparr>
           else None, s'))"

definition free_rxbuffer :: "torque_rxbuf \<Rightarrow> sysst \<Rightarrow> sysst" where
  "free_rxbuffer rxb s = dealloc (of_nat (rx_buftot rxb)) s"

text \<open>The bytes received and not yet released, as the client sees them.\<close>

definition rxbuffer_valid :: "torque_rxbuf \<Rightarrow> nat \<times> u8 list" where
  "rxbuffer_valid rxb =
     (let valid = rx_bufoff rxb - rx_bufate rxb in (valid, take valid (drop (rx_bufate rxb) (rx_buffer rxb))))"

definition growrxbuf :: "torque_rxbuf \<Rightarrow> sysst \<Rightarrow> int \<times> torque_rxbuf \<times> sysst" where
  "growrxbuf rxb s =
     (let news = rx_buftot rxb * 2 in
      case mod_pages (of_nat (rx_buftot rxb)) (of_nat news) s of
        (ok, s') \<Rightarrow>
          if \<not> ok then (- 1, rxb, s')
          else
            (0, rxb\<lparr>rx_buffer := rx_buffer rxb @ replicate (news - rx_buftot rxb) 0,
                    rx_buftot := news\<rparr>, s'))"

text \<open>What a successful \<open>read\<close> into the buffer at offset \<open>at\<close> leaves there.\<close>

definition store_bytes :: "nat \<Rightarrow> u8 list \<Rightarrow> u8 list \<Rightarrow> u8 list" where
  "store_bytes at data buf = take at buf @ data @ drop (at + length data) buf"

definition rx_fill :: "u8 list \<Rightarrow> torque_rxbuf \<Rightarrow> torque_rxbuf" where
  "rx_fill data rxb =
     rxb\<lparr>rx_buffer := store_bytes (rx_bufoff rxb) data (rx_buffer rxb),
         rx_bufoff := rx_bufoff rxb + length data\<rparr>"

section \<open>The read loop\<close>

definition EINTR :: nat where [simp]: "EINTR = 4"
definition EAGAIN :: nat where [simp]: "EAGAIN = 11"

definition EVREAD :: u32 where "EVREAD = 0x2003" \<comment> \<open>\<open>EPOLLIN | EPOLLPRI | EPOLLRDHUP\<close>\<close>
definition EVWRITE :: u32 where "EVWRITE = 0x4" \<comment> \<open>\<open>EPOLLOUT\<close>\<close>
definition EVONESHOT :: u32 where "EVONESHOT = 0x40000000"
definition EVEDGET :: u32 where "EVEDGET = 0x80000000"

definition restorefd :: "int \<Rightarrow> u32 \<Rightarrow> sysst \<Rightarrow> int \<times> sysst" where
  "restorefd fd eflags s =
     (case sys_int (Sys_epoll_ctl ''MOD'' fd ((EVEDGET OR EVONESHOT) OR eflags)) s of
        (r, s') \<Rightarrow> (if r < 0 then - 1 else 0, s'))"

lemma sys_quiet_restorefd: "restorefd d fl s = (r, s') \<Longrightarrow> sys_quiet fd s s'"
  by (auto simp: restorefd_def split: prod.splits dest!: sys_quiet_int)

type_synonym rx_callback = "int \<Rightarrow> torque_rxbuf \<Rightarrow> sysst \<Rightarrow> int \<times> torque_rxbuf \<times> sysst"

definition rxback :: "rx_callback \<Rightarrow> int \<Rightarrow> torque_rxbuf \<Rightarrow> sysst \<Rightarrow> int \<times> torque_rxbuf \<times> sysst" where
  "rxback rx fd rxb s = (if rx_bufoff rxb - rx_bufate rxb \<noteq> 0 then rx fd rxb s else (0, rxb, s))"

text \<open>How the callback ends: the client said so, the descriptor is armed again for some events, or closed.\<close>

datatype rx_exit = RX_client | RX_rearmed u32 | RX_closed

text \<open>
  \<open>rx_make_room\<close> is the block at the top of the loop, for a full buffer. Its first
  component says how to go on: \<open>None\<close> to read, or the exit taken.
\<close>

definition rx_make_room ::
  "rx_callback \<Rightarrow> int \<Rightarrow> torque_rxbuf \<Rightarrow> sysst \<Rightarrow> rx_exit option \<times> torque_rxbuf \<times> sysst" where
  "rx_make_room rx fd rxb s =
     (if rx_buftot rxb - rx_bufoff rxb = 0 then
        (case rxback rx fd rxb s of
           (cb, rxb1, s1) \<Rightarrow>
             if cb \<noteq> 0 then (Some RX_client, rxb1, s1)
             else if rx_buftot rxb1 - rx_bufoff rxb1 = 0 then
               (case growrxbuf rxb1 s1 of
                  (r, rxb2, s2) \<Rightarrow> (if r \<noteq> 0 then Some RX_closed else None, rxb2, s2))
             else (None, rxb1, s1))
      else (None, rxb, s))"

definition rx_close :: "int \<Rightarrow> sysst \<Rightarrow> sysst" where
  "rx_close fd s = sys_note (Sys_close fd) s"

text \<open>After end of file or \<open>EAGAIN\<close>: rearm the descriptor, or close it when that fails.\<close>

definition rx_rearm :: "int \<Rightarrow> u32 \<Rightarrow> torque_rxbuf \<Rightarrow> sysst \<Rightarrow> rx_exit \<times> u8 list \<times> torque_rxbuf \<times> sysst" where
  "rx_rearm fd flags rxb s =
     (case restorefd fd flags s of
        (r, s') \<Rightarrow> if r \<noteq> 0 then (RX_closed, [], rxb, rx_close fd s') else (RX_rearmed flags, [], rxb, s'))"

lemma sys_read_answers:
  assumes "sys_read fd n s = (r, d, s')"
  shows "answers s = [] \<and> r = - 1 \<and> errno s' = 5 \<or> length (answers s') < length (answers s)"
proof (cases "answers s")
  case Nil
  then show ?thesis using assms by (auto simp: sys_read_def sys_call_def failed_ret_def)
next
  case (Cons a as)
  then show ?thesis using assms
    by (auto simp: sys_read_def sys_call_def Let_def split: if_splits)
qed

lemma sys_alloc_answers: "sys_alloc c s = (ok, s') \<Longrightarrow> length (answers s') \<le> length (answers s)"
  by (auto simp: sys_alloc_def split: prod.splits if_splits dest!: sys_call_answers(1))

text \<open>
  The loop of \<open>buffered_rxfxn\<close>; the second component collects the bytes that \<open>read\<close>
  delivered. \<open>None\<close> stands for running forever, which depends on the client.
\<close>

partial_function (option) buffered_rx_loop ::
  "rx_callback \<Rightarrow> int \<Rightarrow> torque_rxbuf \<Rightarrow> sysst \<Rightarrow> (rx_exit \<times> u8 list \<times> torque_rxbuf \<times> sysst) option" where
  "buffered_rx_loop rx fd rxb s =
     (case rx_make_room rx fd rxb s of
        (m, rxb1, s1) \<Rightarrow>
          if m = Some RX_client then Some (RX_client, [], rxb1, s1)
          else if m \<noteq> None then Some (RX_closed, [], rxb1, rx_close fd s1)
          else
            (case sys_read fd (rx_buftot rxb1 - rx_bufoff rxb1) s1 of
               (r, data, s2) \<Rightarrow>
                 if r > 0 then
                   Option.bind (buffered_rx_loop rx fd (rx_fill data rxb1) s2)
                     (\<lambda>(x, got, rxb', s'). Some (x, data @ got, rxb', s'))
                 else if r = 0 then
                   (case rx fd rxb1 s2 of
                      (cb, rxb2, s3) \<Rightarrow>
                        Some (if cb \<noteq> 0 then (RX_client, [], rxb2, s3) else rx_rearm fd EVWRITE rxb2 s3))
                 else if errno s2 = EAGAIN then
                   (case rxback rx fd rxb1 s2 of
                      (cb, rxb2, s3) \<Rightarrow>
                        Some (if cb \<noteq> 0 then (RX_client, [], rxb2, s3) else rx_rearm fd EVREAD rxb2 s3))
                 else if errno s2 \<noteq> EINTR then Some (RX_closed, [], rxb1, rx_close fd s2)
                 else buffered_rx_loop rx fd rxb1 s2))"

declare buffered_rx_loop.simps [code]

definition buffered_rxfxn ::
  "rx_callback \<Rightarrow> int \<Rightarrow> torque_rxbuf \<Rightarrow> sysst \<Rightarrow> (rx_exit \<times> u8 list \<times> torque_rxbuf \<times> sysst) option" where
  "buffered_rxfxn rx fd rxb s = buffered_rx_loop rx fd rxb s"

definition txback :: "rx_callback \<Rightarrow> int \<Rightarrow> torque_rxbuf \<Rightarrow> sysst \<Rightarrow> int \<times> torque_rxbuf \<times> sysst" where
  "txback tx fd rxb s =
     (if rx_bufoff rxb - rx_bufate rxb \<noteq> 0 then
        (case tx fd rxb s of
           (r, rxb', s1) \<Rightarrow>
             if r = 0 then (case restorefd fd EVREAD s1 of (q, s2) \<Rightarrow> (q, rxb', s2))
             else (- 1, rxb', s1))
      else (0, rxb, s))"

definition buffered_txfxn :: "rx_callback \<Rightarrow> int \<Rightarrow> torque_rxbuf \<Rightarrow> sysst \<Rightarrow> torque_rxbuf \<times> sysst" where
  "buffered_txfxn tx fd rxb s =
     (case txback tx fd rxb s of
        (r, rxb', s') \<Rightarrow> (rxb', if r \<noteq> 0 then sys_note (Sys_close fd) s' else s'))"

text \<open>
  The TLS variant: \<open>SSL_read\<close> returned \<open>r\<close> and, when positive, stored \<open>data\<close>. The
  destination is \<open>buffer + bufate\<close>.
\<close>

definition rxbuffer_ssl :: "int \<Rightarrow> u8 list \<Rightarrow> torque_rxbuf \<Rightarrow> int \<times> torque_rxbuf" where
  "rxbuffer_ssl r data rxb =
     (if r > 0 then
        (r, rxb\<lparr>rx_buffer := store_bytes (rx_bufate rxb) data (rx_buffer rxb),
                rx_bufoff := rx_bufoff rxb + nat r\<rparr>)
      else (r, rxb))"

section \<open>The contract of a byte queue\<close>

text \<open>
  A receive buffer is a queue of bytes: reading appends, releasing drops from the
  front, and growing changes neither. The clients' fact is that nothing is lost,
  duplicated or reordered, over any sequence of operations.
\<close>

datatype queue_op = Fill "u8 list" | Release nat | Grow

fun received :: "queue_op list \<Rightarrow> u8 list" where
  "received [] = []"
| "received (Fill d # ops) = d @ received ops"
| "received (_ # ops) = received ops"

locale byte_queue =
  fixes inv :: "'q \<Rightarrow> bool"
    and content :: "'q \<Rightarrow> u8 list"
    and room :: "'q \<Rightarrow> nat"
    and fill :: "u8 list \<Rightarrow> 'q \<Rightarrow> 'q"
    and release :: "nat \<Rightarrow> 'q \<Rightarrow> 'q"
    and grow :: "'q \<Rightarrow> 'q"
  assumes fill_law: "inv q \<Longrightarrow> length d \<le> room q \<Longrightarrow> inv (fill d q) \<and> content (fill d q) = content q @ d"
    and release_law: "inv q \<Longrightarrow> n \<le> length (content q) \<Longrightarrow>
      inv (release n q) \<and> content (release n q) = drop n (content q)"
    and grow_law: "inv q \<Longrightarrow> inv (grow q) \<and> content (grow q) = content q \<and> room q < room (grow q)"
begin

fun queue_run :: "queue_op list \<Rightarrow> 'q \<Rightarrow> ('q \<times> u8 list) option" where
  "queue_run [] q = Some (q, [])"
| "queue_run (Fill d # ops) q = (if length d \<le> room q then queue_run ops (fill d q) else None)"
| "queue_run (Release n # ops) q =
     (if n \<le> length (content q)
      then map_option (\<lambda>(q', out). (q', take n (content q) @ out)) (queue_run ops (release n q))
      else None)"
| "queue_run (Grow # ops) q = queue_run ops (grow q)"

lemma stream: "inv q \<Longrightarrow> queue_run ops q = Some (q', out) \<Longrightarrow>
  inv q' \<and> out @ content q' = content q @ received ops"
proof (induction ops arbitrary: q out)
  case Nil
  then show ?case by simp
next
  case (Cons op ops)
  show ?case
  proof (cases op)
    case (Fill d)
    then show ?thesis using Cons fill_law [of q d] by (auto split: if_splits)
  next
    case (Release n)
    then obtain out' where r: "queue_run ops (release n q) = Some (q', out')"
      and n: "n \<le> length (content q)" and out: "out = take n (content q) @ out'"
      using Cons.prems(2) by (auto split: if_splits)
    have "inv q' \<and> out' @ content q' = drop n (content q) @ received ops"
      using Cons.IH [OF _ r] release_law [OF Cons.prems(1) n] by simp
    then show ?thesis using out Release by simp
  next
    case Grow
    then show ?thesis using Cons.IH [of "grow q" out] Cons.prems grow_law [of q] by simp
  qed
qed

end

section \<open>Receive buffers are byte queues\<close>

definition rxbuf_inv :: "torque_rxbuf \<Rightarrow> bool" where
  "rxbuf_inv rxb \<longleftrightarrow> rx_bufate rxb \<le> rx_bufoff rxb \<and> rx_bufoff rxb \<le> rx_buftot rxb \<and>
     length (rx_buffer rxb) = rx_buftot rxb \<and> 0 < rx_buftot rxb"

definition rxbuf_content :: "torque_rxbuf \<Rightarrow> u8 list" where
  "rxbuf_content rxb = snd (rxbuffer_valid rxb)"

definition rxbuf_room :: "torque_rxbuf \<Rightarrow> nat" where
  "rxbuf_room rxb = rx_buftot rxb - rx_bufoff rxb"

definition rxbuf_grown :: "torque_rxbuf \<Rightarrow> torque_rxbuf" where
  "rxbuf_grown rxb = rxb\<lparr>rx_buffer := rx_buffer rxb @ replicate (rx_buftot rxb) 0,
     rx_buftot := rx_buftot rxb * 2\<rparr>"

lemma rxbuf_content_eq:
  "rxbuf_content rxb = drop (rx_bufate rxb) (take (rx_bufoff rxb) (rx_buffer rxb))"
  by (simp add: rxbuf_content_def rxbuffer_valid_def Let_def drop_take)

lemma length_rxbuf_content:
  "rxbuf_inv rxb \<Longrightarrow> length (rxbuf_content rxb) = rx_bufoff rxb - rx_bufate rxb"
  by (auto simp: rxbuf_content_eq rxbuf_inv_def min_def)

lemma rx_fill_law:
  assumes "rxbuf_inv rxb" "length d \<le> rxbuf_room rxb"
  shows "rxbuf_inv (rx_fill d rxb) \<and> rxbuf_content (rx_fill d rxb) = rxbuf_content rxb @ d"
proof -
  have le: "rx_bufoff rxb \<le> length (rx_buffer rxb)" "rx_bufate rxb \<le> rx_bufoff rxb"
    and fits: "rx_bufoff rxb + length d \<le> length (rx_buffer rxb)"
    using assms by (auto simp: rxbuf_inv_def rxbuf_room_def)
  have "take (rx_bufoff rxb + length d) (store_bytes (rx_bufoff rxb) d (rx_buffer rxb)) =
      take (rx_bufoff rxb) (rx_buffer rxb) @ d"
    using le by (simp add: store_bytes_def)
  then have "rxbuf_content (rx_fill d rxb) = rxbuf_content rxb @ d"
    using le by (simp add: rxbuf_content_eq rx_fill_def)
  moreover have "length (store_bytes (rx_bufoff rxb) d (rx_buffer rxb)) = length (rx_buffer rxb)"
    using fits by (simp add: store_bytes_def)
  ultimately show ?thesis using assms le fits by (simp add: rxbuf_inv_def rx_fill_def)
qed

lemma rxbuffer_advance_law:
  assumes "rxbuf_inv rxb" "n \<le> length (rxbuf_content rxb)"
  shows "rxbuf_inv (rxbuffer_advance n rxb) \<and>
    rxbuf_content (rxbuffer_advance n rxb) = drop n (rxbuf_content rxb)"
  using assms length_rxbuf_content [OF assms(1)]
  by (auto simp: rxbuffer_advance_def rxbuf_inv_def rxbuf_content_eq Let_def memmove_slots_def
      drop_take min_def add.commute)

lemma rxbuf_grown_law:
  "rxbuf_inv rxb \<Longrightarrow> rxbuf_inv (rxbuf_grown rxb) \<and>
   rxbuf_content (rxbuf_grown rxb) = rxbuf_content rxb \<and> rxbuf_room rxb < rxbuf_room (rxbuf_grown rxb)"
  by (auto simp: rxbuf_grown_def rxbuf_inv_def rxbuf_content_eq rxbuf_room_def)

interpretation rxq: byte_queue rxbuf_inv rxbuf_content rxbuf_room rx_fill rxbuffer_advance rxbuf_grown
  by unfold_locales (simp_all add: rx_fill_law rxbuffer_advance_law rxbuf_grown_law)

section \<open>The contract of a client\<close>

text \<open>What the library asks of a client: release at most what it was shown.\<close>

definition releases :: "torque_rxbuf \<Rightarrow> torque_rxbuf \<Rightarrow> bool" where
  "releases rxb rxb' \<longleftrightarrow> rxbuf_inv rxb' \<and>
     (\<exists>out. out @ rxbuf_content rxb' = rxbuf_content rxb)"

lemma releases_refl: "rxbuf_inv rxb \<Longrightarrow> releases rxb rxb"
  by (simp add: releases_def)

lemma releases_advance:
  "rxbuf_inv rxb \<Longrightarrow> n \<le> length (rxbuf_content rxb) \<Longrightarrow> releases rxb (rxbuffer_advance n rxb)"
  using rxq.release_law [of rxb n] unfolding releases_def by (metis append_take_drop_id)

text \<open>
  What a client may do to the system: \<open>s'\<close> follows \<open>s\<close> by calls of which, when it returns 0 (\<open>kept\<close>), none
  changes how the kernel watches the descriptor.
\<close>

definition client_step :: "int \<Rightarrow> bool \<Rightarrow> sysst \<Rightarrow> sysst \<Rightarrow> bool" where
  "client_step fd kept s s' \<longleftrightarrow> length (answers s') \<le> length (answers s) \<and>
     (\<exists>cs. calls s' = calls s @ cs \<and> (kept \<longrightarrow> (\<forall>c\<in>set cs. \<not> touches fd c)))"

text \<open>Calls that send nothing.\<close>

definition silent :: "sysst \<Rightarrow> sysst \<Rightarrow> bool" where
  "silent s s' \<longleftrightarrow> (\<exists>cs. calls s' = calls s @ cs \<and> (\<forall>c\<in>set cs. \<not> sends c))"

lemma client_step_refl: "client_step fd kept s s"
  by (simp add: client_step_def)

lemma client_step_trans: "client_step fd True a b \<Longrightarrow> client_step fd kept b c \<Longrightarrow> client_step fd kept a c"
  by (force simp: client_step_def)

lemma client_step_keep: "client_step fd True s s' \<Longrightarrow> client_step fd kept s s'"
  by (auto simp: client_step_def)

lemma sys_read_len: "sys_read fd n s = (r, d, s') \<Longrightarrow> length d \<le> n \<and> (r > 0 \<longrightarrow> r = int (length d))"
  by (auto simp: sys_read_def Let_def split: prod.splits if_splits)

lemma plain_call:
  "calls s' = calls s @ [c] \<Longrightarrow> length (answers s') \<le> length (answers s) \<Longrightarrow> \<not> touches fd c \<Longrightarrow> \<not> sends c \<Longrightarrow>
   client_step fd True s s' \<and> silent s s'"
  by (simp add: client_step_def silent_def)

lemma sys_read_call: "sys_read fd n s = (r, d, s') \<Longrightarrow> client_step fd' True s s' \<and> silent s s'"
  by (rule plain_call [where c = "Sys_read fd n"])
    (auto simp: sys_read_def Let_def touches_def sends_def split: prod.splits if_splits
      dest: sys_call_calls sys_call_answers(1))

lemma growrxbuf_call:
  assumes "growrxbuf rxb s = (r, rxb', s')"
  shows "rxb' = (if r = 0 then rxbuf_grown rxb else rxb) \<and> client_step fd True s s' \<and> silent s s'"
proof -
  obtain ok t where m: "mod_pages (of_nat (rx_buftot rxb)) (of_nat (rx_buftot rxb * 2)) s = (ok, t)" by fastforce
  then have "client_step fd True s t \<and> silent s t" unfolding mod_pages_def
    by (intro plain_call [OF sys_alloc_calls sys_alloc_answers]) (auto simp: touches_def sends_def)
  then show ?thesis using assms m by (auto simp: growrxbuf_def rxbuf_grown_def Let_def split: if_splits)
qed

text \<open>
  How a callback hands its descriptor back: everything before the last step leaves the registration alone;
  the last step arms it again, or closes it (after an attempt to arm it that failed, perhaps).
\<close>

definition rearm_call :: "int \<Rightarrow> u32 \<Rightarrow> syscall" where
  "rearm_call fd fl = Sys_epoll_ctl ''MOD'' fd ((EVEDGET OR EVONESHOT) OR fl)"

fun exit_calls :: "int \<Rightarrow> rx_exit \<Rightarrow> syscall list \<Rightarrow> bool" where
  "exit_calls fd RX_client tail \<longleftrightarrow> tail = []"
| "exit_calls fd (RX_rearmed fl) tail \<longleftrightarrow> tail = [rearm_call fd fl]"
| "exit_calls fd RX_closed tail \<longleftrightarrow> tail = [Sys_close fd] \<or> (\<exists>fl. tail = [rearm_call fd fl, Sys_close fd])"

definition handed_back :: "int \<Rightarrow> rx_exit \<Rightarrow> sysst \<Rightarrow> sysst \<Rightarrow> bool" where
  "handed_back fd x s s' \<longleftrightarrow>
     (\<exists>t tail. client_step fd (x \<noteq> RX_client) s t \<and> calls s' = calls t @ tail \<and> exit_calls fd x tail \<and>
        length (answers s') \<le> length (answers t))"

lemma handed_back_client: "client_step fd kept s s' \<Longrightarrow> handed_back fd RX_client s s'"
  unfolding handed_back_def by (rule exI [of _ s'], rule exI [of _ "[]"]) (auto simp: client_step_def)

lemma handed_back_close: "client_step fd True s t \<Longrightarrow> handed_back fd RX_closed s (rx_close fd t)"
  unfolding handed_back_def
  by (rule exI [of _ t], rule exI [of _ "[Sys_close fd]"]) (simp add: rx_close_def sys_note_def)

lemma handed_back_trans: "client_step fd True s t \<Longrightarrow> handed_back fd x t u \<Longrightarrow> handed_back fd x s u"
  unfolding handed_back_def by (metis client_step_trans)

lemma rx_rearm_back:
  assumes "rx_rearm fd fl rxb t = (x, got, rxb', s')" "client_step fd True s t"
  shows "handed_back fd x s s' \<and> got = [] \<and> rxb' = rxb \<and> x \<noteq> RX_client \<and> silent t s'"
proof -
  obtain r u where r: "sys_call (rearm_call fd fl) t = (r, u)" by fastforce
  have c: "calls u = calls t @ [rearm_call fd fl]" and a: "answers u = tl (answers t)"
    using sys_call_calls [OF r] sys_call_answers(1) [OF r] by simp_all
  have "x = (if rv r < 0 then RX_closed else RX_rearmed fl) \<and> s' = (if rv r < 0 then rx_close fd u else u) \<and>
      got = [] \<and> rxb' = rxb"
    using assms(1) r by (auto simp: rx_rearm_def restorefd_def rearm_call_def sys_int_def split: if_splits)
  then show ?thesis using assms(2) c a unfolding handed_back_def
    by (auto simp: rx_close_def sys_note_def rearm_call_def sends_def silent_def intro!: exI [of _ t])
qed

text \<open>
  The contract: \<open>holds fd got rxb s\<close> is a fact about the buffer, the system and the bytes received
  so far, which the client keeps when it returns 0, and which reading, growing and the library's own calls keep; \<open>ended\<close> is what
  the client leaves when it ends the callback. Then the whole callback returns, keeps the fact, and hands the descriptor back as its last
  step.
\<close>

locale rx_client =
  fixes rx :: rx_callback
    and holds ended :: "int \<Rightarrow> u8 list \<Rightarrow> torque_rxbuf \<Rightarrow> sysst \<Rightarrow> bool"
  assumes holds_inv: "holds fd got rxb s \<Longrightarrow> rxbuf_inv rxb"
    and holds_client: "holds fd got rxb s \<Longrightarrow> rx fd rxb s = (r, rxb', s') \<Longrightarrow>
      (if r = 0 then holds fd got rxb' s' else ended fd got rxb' s') \<and> client_step fd (r = 0) s s'"
    and holds_fill: "holds fd got rxb s \<Longrightarrow> length d \<le> rxbuf_room rxb \<Longrightarrow> holds fd (got @ d) (rx_fill d rxb) s"
    and holds_grown: "holds fd got rxb s \<Longrightarrow> holds fd got (rxbuf_grown rxb) s"
    and holds_calls: "holds fd got rxb s \<Longrightarrow> silent s s' \<Longrightarrow> holds fd got rxb s'"
begin

definition left_with :: "rx_exit \<Rightarrow> int \<Rightarrow> u8 list \<Rightarrow> torque_rxbuf \<Rightarrow> sysst \<Rightarrow> bool" where
  "left_with x = (if x = RX_client then ended else holds)"

lemma left_with_simps [simp]:
  "left_with RX_client = ended" "left_with RX_closed = holds" "left_with (RX_rearmed fl) = holds"
  by (simp_all add: left_with_def)

lemma rxback_keeps:
  "holds fd got rxb s \<Longrightarrow> rxback rx fd rxb s = (r, rxb', s') \<Longrightarrow>
   (if r = 0 then holds fd got rxb' s' else ended fd got rxb' s') \<and> client_step fd (r = 0) s s'"
  using holds_client [of fd got rxb s r rxb' s'] by (auto simp: rxback_def client_step_refl split: if_splits)

lemma holds_close: "holds fd got rxb s \<Longrightarrow> holds fd got rxb (rx_close fd s)"
  by (rule holds_calls) (auto simp: silent_def rx_close_def sys_note_def sends_def)

lemma grow_keeps:
  assumes "holds fd got rxb s" "growrxbuf rxb s = (r, rxb', s')"
  shows "holds fd got rxb' s' \<and> client_step fd True s s' \<and> (r = 0 \<longrightarrow> 0 < rxbuf_room rxb')"
  using holds_calls [OF assms(1)] holds_calls [OF holds_grown [OF assms(1)]] growrxbuf_call [OF assms(2), of fd]
    rxq.grow_law [OF holds_inv [OF assms(1)]] by (auto split: if_splits)

lemma make_room_keeps:
  assumes "holds fd got rxb s" "rx_make_room rx fd rxb s = (m, rxb', s')"
  shows "(if m = Some RX_client then ended fd got rxb' s' else holds fd got rxb' s') \<and>
    client_step fd (m \<noteq> Some RX_client) s s' \<and> (m = None \<longrightarrow> 0 < rxbuf_room rxb')"
proof (cases "rx_buftot rxb - rx_bufoff rxb = 0")
  case False
  then show ?thesis using assms by (auto simp: rx_make_room_def rxbuf_room_def client_step_refl)
next
  case True
  obtain cb rxb1 s1 where b: "rxback rx fd rxb s = (cb, rxb1, s1)" by (cases rule: prod_cases3)
  have k: "if cb = 0 then holds fd got rxb1 s1 else ended fd got rxb1 s1" "client_step fd (cb = 0) s s1"
    using rxback_keeps [OF assms(1) b] by simp_all
  obtain q rxb2 s2 where g: "growrxbuf rxb1 s1 = (q, rxb2, s2)" by (cases rule: prod_cases3)
  show ?thesis using assms(2) True b g k grow_keeps [OF _ g]
    by (auto simp: rx_make_room_def rxbuf_room_def split: if_splits intro: client_step_trans)
qed

lemma ended:
  assumes "client_step fd True s t" "(if cb = 0 then holds fd got rxb u else ended fd got rxb u) \<and> client_step fd (cb = 0) t u"
  shows "\<exists>x rxb' s'. (if cb \<noteq> 0 then (RX_client, [], rxb, u) else rx_rearm fd fl rxb u) = (x, [], rxb', s') \<and>
    left_with x fd got rxb' s' \<and> handed_back fd x s s'"
proof (cases "cb = 0")
  case True
  obtain x d rxb' s' where r: "rx_rearm fd fl rxb u = (x, d, rxb', s')" by (cases rule: prod_cases4)
  have "client_step fd True s u" using assms True client_step_trans by auto
  from rx_rearm_back [OF r this] show ?thesis using True r assms(2) holds_calls by (auto simp: left_with_def)
next
  case False
  then show ?thesis using assms client_step_trans handed_back_client by fastforce
qed

text \<open>The result of one turn: the callback is over, or the loop goes on with what was read.\<close>

definition turn :: "int \<Rightarrow> u8 list \<Rightarrow> torque_rxbuf \<Rightarrow> sysst \<Rightarrow> bool" where
  "turn fd got rxb s \<longleftrightarrow>
    (\<exists>x rxb' s'. buffered_rx_loop rx fd rxb s = Some (x, [], rxb', s') \<and> left_with x fd got rxb' s' \<and> handed_back fd x s s') \<or>
    (\<exists>d rxb1 t. holds fd (got @ d) rxb1 t \<and> client_step fd True s t \<and> length (answers t) < length (answers s) \<and>
      buffered_rx_loop rx fd rxb s =
        Option.bind (buffered_rx_loop rx fd rxb1 t) (\<lambda>(x, got, rxb', s'). Some (x, d @ got, rxb', s')))"

text \<open>The five ways a \<open>read\<close> can go, and the two in which the loop goes on.\<close>

lemma turn_read:
  assumes mr: "rx_make_room rx fd rxb s = (None, rxb1, s1)" and h: "holds fd got rxb1 s1" "client_step fd True s s1"
  shows "turn fd got rxb s"
proof -
  obtain r d s2 where rd: "sys_read fd (rx_buftot rxb1 - rx_bufoff rxb1) s1 = (r, d, s2)" by (cases rule: prod_cases3)
  have st: "client_step fd True s s2" and k: "holds fd got rxb1 s2"
    using sys_read_call [OF rd, of fd] holds_calls [of fd got rxb1 s1 s2] h by (auto intro: client_step_trans)
  have fewer: "r > 0 \<or> errno s2 = EINTR \<Longrightarrow> r \<noteq> 0 \<Longrightarrow> length (answers s2) < length (answers s)"
    using sys_read_answers [OF rd] h(2) by (auto simp: client_step_def)
  note unf = buffered_rx_loop.simps [of rx fd rxb s] mr prod.case option.case rd
  consider (data) "r > 0" | (eof) "r = 0" | (again) "r < 0" "errno s2 = EAGAIN"
    | (intr) "r < 0" "errno s2 = EINTR" | (err) "r < 0" "errno s2 \<noteq> EAGAIN" "errno s2 \<noteq> EINTR"
    by linarith
  then show ?thesis
  proof cases
    case data
    have "holds fd (got @ d) (rx_fill d rxb1) s2" using holds_fill [OF k] sys_read_len [OF rd] by (simp add: rxbuf_room_def)
    moreover have "buffered_rx_loop rx fd rxb s = Option.bind (buffered_rx_loop rx fd (rx_fill d rxb1) s2)
        (\<lambda>(x, got, rxb', s'). Some (x, d @ got, rxb', s'))" using data unfolding unf by simp
    ultimately show ?thesis unfolding turn_def using st fewer data by blast
  next
    case eof
    obtain cb rxb2 s3 where cb: "rx fd rxb1 s2 = (cb, rxb2, s3)" by (cases rule: prod_cases3)
    from ended [OF st holds_client [OF k cb], of EVWRITE] show ?thesis
      using eof cb unfolding turn_def unf by auto
  next
    case again
    obtain cb rxb2 s3 where cb: "rxback rx fd rxb1 s2 = (cb, rxb2, s3)" by (cases rule: prod_cases3)
    from ended [OF st rxback_keeps [OF k cb], of EVREAD] show ?thesis
      using again cb unfolding turn_def unf by auto
  next
    case intr
    then have "buffered_rx_loop rx fd rxb s = Option.bind (buffered_rx_loop rx fd rxb1 s2)
        (\<lambda>(x, got, rxb', s'). Some (x, [] @ got, rxb', s'))" unfolding unf by simp
    then show ?thesis unfolding turn_def using st k fewer intr by (metis append.right_neutral less_irrefl)
  next
    case err
    then show ?thesis using handed_back_close [OF st] holds_close [OF k] unfolding turn_def unf by auto
  qed
qed

lemma loop_step:
  assumes "holds fd got rxb s"
  shows "turn fd got rxb s"
proof -
  obtain m rxb1 s1 where mr: "rx_make_room rx fd rxb s = (m, rxb1, s1)" by (cases rule: prod_cases3)
  note k = make_room_keeps [OF assms mr]
  show ?thesis
  proof (cases m)
    case None
    then show ?thesis using turn_read mr k by auto
  next
    case (Some e)
    then show ?thesis using k unfolding turn_def buffered_rx_loop.simps [of rx fd rxb s] mr prod.case
      by (auto simp: handed_back_client rx_close_def [symmetric] intro: handed_back_close holds_close)
  qed
qed

lemma loop_returns:
  "holds fd got rxb s \<Longrightarrow> \<exists>x d rxb' s'. buffered_rx_loop rx fd rxb s = Some (x, d, rxb', s') \<and>
     left_with x fd (got @ d) rxb' s' \<and> handed_back fd x s s'"
proof (induction "length (answers s)" arbitrary: got rxb s rule: less_induct)
  case less
  from loop_step [OF less.prems, unfolded turn_def] show ?case
  proof (elim disjE exE conjE)
    fix d rxb1 t
    assume h: "holds fd (got @ d) rxb1 t" "client_step fd True s t" "length (answers t) < length (answers s)"
      and l: "buffered_rx_loop rx fd rxb s =
        Option.bind (buffered_rx_loop rx fd rxb1 t) (\<lambda>(x, got, rxb', s'). Some (x, d @ got, rxb', s'))"
    then show ?thesis using less.hyps [OF h(3,1)] handed_back_trans [OF h(2)] by force
  qed force
qed

end

lemma initialize_rxbuffer_empty:
  "initialize_rxbuffer ctx s = (Some rxb, s') \<Longrightarrow> rxbuf_inv rxb \<and> rxbuf_content rxb = []"
  by (auto simp: initialize_rxbuffer_def rxbuf_inv_def rxbuf_content_def rxbuffer_valid_def unat_gt_0
      dest!: get_big_page_size split: prod.splits if_splits)

section \<open>Clients that only release\<close>

definition good_client :: "rx_callback \<Rightarrow> bool" where
  "good_client rx \<longleftrightarrow> (\<forall>fd rxb s. rxbuf_inv rxb \<longrightarrow>
     (case rx fd rxb s of (r, rxb', s') \<Rightarrow> releases rxb rxb' \<and> client_step fd (r = 0) s s'))"

lemma good_client_stream:
  assumes "good_client rx"
  shows "rx_client rx (\<lambda>fd got rxb s. rxbuf_inv rxb \<and> (\<exists>out. out @ rxbuf_content rxb = c @ got))
    (\<lambda>fd got rxb s. rxbuf_inv rxb \<and> (\<exists>out. out @ rxbuf_content rxb = c @ got))"
proof
  fix fd got rxb s r rxb' s'
  assume h: "rxbuf_inv rxb \<and> (\<exists>out. out @ rxbuf_content rxb = c @ got)" and "rx fd rxb s = (r, rxb', s')"
  then have "releases rxb rxb' \<and> client_step fd (r = 0) s s'" using assms unfolding good_client_def by (metis (mono_tags, lifting) case_prod_conv)
  then show "(if r = 0 then rxbuf_inv rxb' \<and> (\<exists>out. out @ rxbuf_content rxb' = c @ got)
      else rxbuf_inv rxb' \<and> (\<exists>out. out @ rxbuf_content rxb' = c @ got)) \<and> client_step fd (r = 0) s s'"
    using h unfolding releases_def by (metis append.assoc)
next
  fix got d :: "u8 list" and rxb
  assume "rxbuf_inv rxb \<and> (\<exists>out. out @ rxbuf_content rxb = c @ got)" "length d \<le> rxbuf_room rxb"
  then show "rxbuf_inv (rx_fill d rxb) \<and> (\<exists>out. out @ rxbuf_content (rx_fill d rxb) = c @ got @ d)"
    using rxq.fill_law [of rxb d] by (metis append.assoc)
qed (use rxq.grow_law in auto)

lemma good_client_returns:
  assumes "good_client rx" "rxbuf_inv rxb"
  shows "\<exists>x got rxb' s'. buffered_rxfxn rx fd rxb s = Some (x, got, rxb', s') \<and> rxbuf_inv rxb' \<and>
    (\<exists>out. out @ rxbuf_content rxb' = rxbuf_content rxb @ got) \<and> handed_back fd x s s'"
proof -
  note c = good_client_stream [OF assms(1), of "rxbuf_content rxb"]
  have "rxbuf_inv rxb \<and> (\<exists>out. out @ rxbuf_content rxb = rxbuf_content rxb @ [])" using assms(2) by simp
  from rx_client.loop_returns [OF c this, of fd s] show ?thesis
    unfolding buffered_rxfxn_def rx_client.left_with_def [OF c] by simp
qed

section \<open>Properties\<close>

text \<open>
  Property C5: a receive buffer is a queue of bytes. Over any sequence of reads into the free
  space, releases by \<open>rxbuffer_advance\<close> (with its reset and its move to the front) and growth, the bytes
  released and the bytes still valid are the bytes received, in order.
\<close>

theorem rxbuffer_is_queue:
  assumes "rxbuf_inv rxb" "rxq.queue_run ops rxb = Some (rxb', out)"
  shows "rxbuf_inv rxb' \<and> out @ snd (rxbuffer_valid rxb') = snd (rxbuffer_valid rxb) @ received ops"
  using rxq.stream [OF assms] by (simp add: rxbuf_content_def)

definition sample_rxbuf :: torque_rxbuf where
  "sample_rxbuf = \<lparr>rx_buffer = [0, 0, 0, 0], rx_buftot = 4, rx_bufoff = 0, rx_bufate = 0\<rparr>"

theorem rxbuffer_is_queue_witness:
  "\<exists>rxb' out. rxq.queue_run [Fill [1, 2, 3, 4], Release 3, Fill [5], Grow, Release 2] sample_rxbuf = Some (rxb', out) \<and>
     out @ snd (rxbuffer_valid rxb') = [1, 2, 3, 4, 5]"
proof -
  have inv: "rxbuf_inv sample_rxbuf" by (simp add: rxbuf_inv_def sample_rxbuf_def)
  obtain rxb' out where run: "rxq.queue_run [Fill [1, 2, 3, 4], Release 3, Fill [5], Grow, Release 2] sample_rxbuf =
      Some (rxb', out)"
    by (simp add: sample_rxbuf_def rxbuf_room_def rxbuf_content_def rxbuffer_valid_def rx_fill_def store_bytes_def
        rxbuffer_advance_def memmove_slots_def rxbuf_grown_def Let_def)
  from rxbuffer_is_queue [OF inv run] run show ?thesis by (simp add: sample_rxbuf_def rxbuffer_valid_def)
qed


text \<open>A client that reads nothing.\<close>

definition idle_client :: rx_callback where
  "idle_client fd rxb s = (0, rxb, s)"

lemma idle_client_good: "good_client idle_client"
  by (auto simp: good_client_def idle_client_def releases_refl client_step_refl)




text \<open>
  Fact: a writable descriptor with nothing in its buffer is forgotten. \<open>buffered_txfxn\<close> then neither arms the descriptor
  again nor closes it; being one-shot, it is never reported again.
\<close>

theorem buffered_tx_forgets:
  assumes "rxbuf_inv rxb" "rxbuf_content rxb = []"
  shows "buffered_txfxn tx fd rxb s = (rxb, s)"
  using assms length_rxbuf_content [OF assms(1)] by (simp add: buffered_txfxn_def txback_def)

theorem buffered_tx_forgets_witness:
  "buffered_txfxn idle_client 3 sample_rxbuf (os_answering []) = (sample_rxbuf, os_answering [])"
  by (rule buffered_tx_forgets) (simp_all add: rxbuf_inv_def sample_rxbuf_def rxbuf_content_def rxbuffer_valid_def)

text \<open>
  Fact: the TLS variant reads to the start of the valid bytes instead of their end. Two
  bytes that arrive in a buffer that holds two unread bytes overwrite them, and bytes that were
  never received become valid.
\<close>

theorem rxbuffer_ssl_overwrites:
  "let rxb = sample_rxbuf\<lparr>rx_buffer := [1, 2, 0, 0], rx_bufoff := 2\<rparr>
   in snd (rxbuffer_valid rxb) = [1, 2] \<and>
      snd (rxbuffer_valid (snd (rxbuffer_ssl 2 [3, 4] rxb))) = [3, 4, 0, 0]"
  by code_simp

end
