(* ===== verification/Events.thy ===== *)
theory Events
  imports Buffers
begin

text \<open>
  Event sources and their registration: \<^verbatim>\<open>sources.h\<close>, \<^verbatim>\<open>sources.c\<close>, \<^verbatim>\<open>sysdep.h\<close>,
  \<^verbatim>\<open>sysdep.c\<close>, \<^verbatim>\<open>fd.c\<close>, \<^verbatim>\<open>signal.c\<close>, \<^verbatim>\<open>timer.c\<close> and \<^verbatim>\<open>timer.h\<close> of
  \<^verbatim>\<open>src/src/libtorque/events\<close>, in the Linux configuration with \<open>signalfd\<close> and \<open>timerfd\<close>. The
  event tables are lists indexed by descriptor or signal; an access outside a table is
  undefined behaviour and has the value \<open>None\<close>.
\<close>

section \<open>Source tables\<close>

definition set_evsource_rx :: "evsource list \<Rightarrow> nat \<Rightarrow> cbfn option \<Rightarrow> evsource list option" where
  "set_evsource_rx evs n rx = (if n < length evs then Some (evs[n := (evs ! n)\<lparr>rxfxn := rx\<rparr>]) else None)"

definition set_evsource_tx :: "evsource list \<Rightarrow> nat \<Rightarrow> cbfn option \<Rightarrow> evsource list option" where
  "set_evsource_tx evs n tx = (if n < length evs then Some (evs[n := (evs ! n)\<lparr>txfxn := tx\<rparr>]) else None)"

definition setup_evsource ::
  "evsource list \<Rightarrow> nat \<Rightarrow> cbfn option \<Rightarrow> cbfn option \<Rightarrow> cbptr \<Rightarrow> evsource list option" where
  "setup_evsource evs n rfxn tfxn v =
     (case set_evsource_rx evs n rfxn of
        None \<Rightarrow> None
      | Some evs1 \<Rightarrow>
          (case set_evsource_tx evs1 n tfxn of
             None \<Rightarrow> None
           | Some evs2 \<Rightarrow> Some (evs2[n := (evs2 ! n)\<lparr>src_cbstate := v\<rparr>])))"

text \<open>A handler yields the invocation it makes, if any.\<close>

type_synonym invocation = "cbfn \<times> nat \<times> cbptr"

definition handle_evsource_read :: "evsource list \<Rightarrow> nat \<Rightarrow> invocation list option" where
  "handle_evsource_read evs n =
     (if n < length evs then
        Some (case rxfxn (evs ! n) of None \<Rightarrow> [] | Some f \<Rightarrow> [(f, n, src_cbstate (evs ! n))])
      else None)"

definition handle_evsource_write :: "evsource list \<Rightarrow> nat \<Rightarrow> invocation list option" where
  "handle_evsource_write evs n =
     (if n < length evs then
        Some (case txfxn (evs ! n) of None \<Rightarrow> [] | Some f \<Rightarrow> [(f, n, src_cbstate (evs ! n))])
      else None)"

definition create_evsources :: "nat \<Rightarrow> sysst \<Rightarrow> evsource list option \<times> sysst" where
  "create_evsources n s =
     (case sys_alloc (Sys_malloc ''evsources'') s of
        (ok, s') \<Rightarrow> (if ok then Some (replicate n zero_evsource) else None, s'))"

definition destroy_evsources :: "sysst \<Rightarrow> int \<times> sysst" where
  "destroy_evsources s = (0, sys_note (Sys_free ''evsources'') s)"

section \<open>The kevent emulation\<close>

type_synonym kchange = "string \<times> int \<times> u32"

fun kevent_changes :: "kchange list \<Rightarrow> int \<Rightarrow> sysst \<Rightarrow> int \<times> sysst" where
  "kevent_changes [] ret s = (ret, s)"
| "kevent_changes ((op, fd, ev) # changes) ret s =
     (case sys_int (Sys_epoll_ctl op fd ev) s of
        (r, s') \<Rightarrow> kevent_changes changes (if r < 0 then - 1 else ret) s')"

text \<open>
  The loop \<open>do ret = epoll_wait(...) while(ret < 0 || errno == EINTR)\<close>; \<open>None\<close> stands for
  running forever.
\<close>

partial_function (option) kevent_retrieve :: "int \<Rightarrow> nat \<Rightarrow> sysst \<Rightarrow> (int \<times> (int \<times> u32) list \<times> sysst) option" where
  "kevent_retrieve epfd nevents s =
     (case sys_call (Sys_epoll_wait epfd nevents) s of
        (a, s') \<Rightarrow>
          if rv a < 0 \<or> errno s' = EINTR then kevent_retrieve epfd nevents s'
          else Some (rv a, take nevents (revents a), s'))"

declare kevent_retrieve.simps [code]

definition Kevent ::
  "int \<Rightarrow> kchange list \<Rightarrow> nat \<Rightarrow> sysst \<Rightarrow> (int \<times> (int \<times> u32) list \<times> sysst) option" where
  "Kevent epfd changelist nevents s =
     (case kevent_changes changelist 0 s of
        (ret, s') \<Rightarrow>
          if ret \<noteq> 0 then Some (ret, [], s')
          else if nevents = 0 then Some (0, [], s')
          else kevent_retrieve epfd nevents s')"

section \<open>Descriptors\<close>

definition add_fd_event ::
  "int \<Rightarrow> int \<Rightarrow> cbfn option \<Rightarrow> cbfn option \<Rightarrow> u32 \<Rightarrow> sysst \<Rightarrow> int \<times> sysst" where
  "add_fd_event epfd fd rfxn tfxn eflags s =
     (if eflags AND NOT EVONESHOT \<noteq> 0 then (- 1, s)
      else
        let ev0 = (EVEDGET OR 0x2) OR eflags; \<comment> \<open>\<open>EPOLLET | EPOLLPRI | eflags\<close>\<close>
            ev1 = (if rfxn \<noteq> None then ev0 OR EVREAD else ev0);
            ev2 = (if tfxn \<noteq> None then ev1 OR EVWRITE else ev1)
        in case Kevent epfd [(''ADD'', fd, ev2)] 0 s of
             Some (r, _, s') \<Rightarrow> (r, s')
           | None \<Rightarrow> (- 1, s))"

definition set_fdarray :: "evsource list \<Rightarrow> torque_ctx \<Rightarrow> torque_ctx" where
  "set_fdarray evs ctx = ctx\<lparr>ctx_eventtables := (ctx_eventtables ctx)\<lparr>fdarray := evs\<rparr>\<rparr>"

definition set_sigarray :: "evsource list \<Rightarrow> torque_ctx \<Rightarrow> torque_ctx" where
  "set_sigarray evs ctx = ctx\<lparr>ctx_eventtables := (ctx_eventtables ctx)\<lparr>sigarray := evs\<rparr>\<rparr>"

text \<open>The conversion \<open>(unsigned)fd\<close> makes every negative descriptor too large.\<close>

definition add_fd_to_evhandler ::
  "torque_ctx \<Rightarrow> int \<Rightarrow> cbfn option \<Rightarrow> cbfn option \<Rightarrow> cbptr \<Rightarrow> u32 \<Rightarrow> sysst \<Rightarrow>
     (int \<times> torque_ctx \<times> sysst) option" where
  "add_fd_to_evhandler ctx fd rfxn tfxn cbstate eflags s =
     (if fd < 0 \<or> nat fd \<ge> fdarraysize (ctx_eventtables ctx) then Some (- 1, ctx, s)
      else
        (case setup_evsource (fdarray (ctx_eventtables ctx)) (nat fd) rfxn tfxn cbstate of
           None \<Rightarrow> None
         | Some evs \<Rightarrow>
             (case add_fd_event (efd (ctx_evq ctx)) fd rfxn tfxn eflags s of
                (r, s') \<Rightarrow> Some (if r \<noteq> 0 then - 1 else 0, set_fdarray evs ctx, s'))))"

section \<open>Signals\<close>

function add_signals_from ::
  "nat set \<Rightarrow> cbfn option \<Rightarrow> cbptr \<Rightarrow> nat \<Rightarrow> nat \<Rightarrow> evsource list \<Rightarrow> evsource list option" where
  "add_signals_from sigs rfxn cbstate sigsz z evs =
     (if z < sigsz then
        (if z \<in> sigs then
           (case setup_evsource evs z rfxn None cbstate of
              None \<Rightarrow> None
            | Some evs' \<Rightarrow> add_signals_from sigs rfxn cbstate sigsz (z + 1) evs')
         else add_signals_from sigs rfxn cbstate sigsz (z + 1) evs)
      else Some evs)"
  by pat_completeness auto
termination
  by (relation "measure (\<lambda>(sigs, rfxn, cbstate, sigsz, z, evs). sigsz - z)") auto

declare add_signals_from.simps [simp del]

definition ENOSYS :: nat where [simp]: "ENOSYS = 38"
definition ENODEV :: nat where [simp]: "ENODEV = 19"
definition EINVAL :: nat where [simp]: "EINVAL = 22"

definition add_signal_to_evhandler ::
  "torque_ctx \<Rightarrow> nat set \<Rightarrow> cbfn option \<Rightarrow> cbptr \<Rightarrow> sysst \<Rightarrow> (torque_err \<times> torque_ctx \<times> sysst) option" where
  "add_signal_to_evhandler ctx sigs rfxn cbstate s =
     (let evt = ctx_eventtables ctx in
      case add_signals_from sigs rfxn cbstate (sigarraysize evt) 1 (sigarray evt) of
        None \<Rightarrow> None
      | Some evs \<Rightarrow>
          let ctx1 = set_sigarray evs ctx in
          case sys_call (Sys_signalfd sigs) s of
            (a, s1) \<Rightarrow>
              if rv a < 0 then
                Some (if errno s1 = ENOSYS then TORQUE_ERR_UNAVAIL else TORQUE_ERR_RESOURCE, ctx1, s1)
              else
                (case add_fd_to_evhandler ctx1 (rv a) (Some Cb_signalfd_demultiplexer) None Ptr_ctx 0 s1 of
                   None \<Rightarrow> None
                 | Some (ret, ctx2, s2) \<Rightarrow>
                     Some (if ret \<noteq> 0 then (ret, ctx2, sys_note (Sys_close (rv a)) s2) else (0, ctx2, s2))))"

definition init_signal_handlers :: "sysst \<Rightarrow> int \<times> sysst" where
  "init_signal_handlers s =
     (case sys_int (Sys_sigaction SIGTERM) s of
        (r, s1) \<Rightarrow>
          if r \<noteq> 0 then (- 1, s1)
          else (case sys_int (Sys_sigaction SIGINT) s1 of (q, s2) \<Rightarrow> (if q \<noteq> 0 then - 1 else 0, s2)))"

text \<open>
  The demultiplexer reads one \<open>signalfd_siginfo\<close> (128 bytes, the signal number in its
  first word) at a time. A short read is ignored. The result lists the invocations.
\<close>

definition signo_of :: "u8 list \<Rightarrow> nat" where
  "signo_of d = unat (d ! 0) + 256 * unat (d ! 1) + 65536 * unat (d ! 2) + 16777216 * unat (d ! 3)"

function signalfd_demultiplexer ::
  "int \<Rightarrow> evsource list \<Rightarrow> sysst \<Rightarrow> (invocation list \<times> sysst) option" where
  "signalfd_demultiplexer fd sigs s =
     (case sys_read fd 128 s of
        (r, data, s1) \<Rightarrow>
          (case (if r = 128 then handle_evsource_read sigs (signo_of data) else Some []) of
             None \<Rightarrow> None
           | Some ivs \<Rightarrow>
               if r \<ge> 0 \<or> errno s1 = EINTR then
                 (case signalfd_demultiplexer fd sigs s1 of
                    None \<Rightarrow> None
                  | Some (rest, s2) \<Rightarrow> Some (ivs @ rest, s2))
               else Some (ivs, s1)))"
  by pat_completeness auto
termination
proof (relation "measure (\<lambda>(fd, sigs, s). length (answers s))", goal_cases)
  case (2 fd sigs s r y data s1 ivs)
  then show ?case using sys_read_answers [of fd 128 s r data s1] by auto
qed simp

declare signalfd_demultiplexer.simps [simp del]

section \<open>Timers\<close>

text \<open>
  A timer's marshal is an object on the heap; \<open>timer_curry\<close> calls the client and frees
  it. Following a pointer to an object that is not there has the value \<open>None\<close>.
\<close>

record timerfd_marshal =
  tm_tfxn :: nat
  tm_cbstate :: nat

type_synonym timer_heap = "nat \<rightharpoonup> timerfd_marshal"

definition create_timerfd_marshal ::
  "nat \<Rightarrow> nat \<Rightarrow> timer_heap \<Rightarrow> sysst \<Rightarrow> nat option \<times> timer_heap \<times> sysst" where
  "create_timerfd_marshal tfxn cbstate h s =
     (case sys_ptr (Sys_malloc ''timerfd_marshal'') s of
        (None, s') \<Rightarrow> (None, h, s')
      | (Some p, s') \<Rightarrow> (Some p, h(p \<mapsto> \<lparr>tm_tfxn = tfxn, tm_cbstate = cbstate\<rparr>), s'))"

definition timer_curry :: "nat \<Rightarrow> timer_heap \<Rightarrow> ((nat \<times> nat) \<times> timer_heap) option" where
  "timer_curry p h =
     (case h p of
        None \<Rightarrow> None
      | Some marsh \<Rightarrow> Some ((tm_tfxn marsh, tm_cbstate marsh), h(p := None)))"

definition timer_passthru :: "nat \<Rightarrow> cbptr \<Rightarrow> timer_heap \<Rightarrow> ((nat \<times> nat) \<times> timer_heap) option" where
  "timer_passthru fd state h = (case state of Ptr_obj p \<Rightarrow> timer_curry p h | _ \<Rightarrow> None)"

definition free_marshal :: "nat \<Rightarrow> timer_heap \<Rightarrow> sysst \<Rightarrow> timer_heap \<times> sysst" where
  "free_marshal p h s = (h(p := None), sys_note (Sys_free ''timerfd_marshal'') s)"

definition add_timer_to_evhandler ::
  "torque_ctx \<Rightarrow> nat \<Rightarrow> nat \<Rightarrow> timer_heap \<Rightarrow> sysst \<Rightarrow>
     (torque_err \<times> torque_ctx \<times> timer_heap \<times> sysst) option" where
  "add_timer_to_evhandler ctx tfxn cbstate h s =
     (case create_timerfd_marshal tfxn cbstate h s of
        (None, h1, s1) \<Rightarrow> Some (TORQUE_ERR_RESOURCE, ctx, h1, s1)
      | (Some p, h1, s1) \<Rightarrow>
          (case sys_call Sys_timerfd_create s1 of
             (a, s2) \<Rightarrow>
               if rv a < 0 then
                 (case free_marshal p h1 s2 of
                    (h2, s3) \<Rightarrow>
                      Some (if errno s3 = EINVAL then TORQUE_ERR_INVAL
                            else if errno s3 = ENODEV \<or> errno s3 = ENOSYS then TORQUE_ERR_UNAVAIL
                            else TORQUE_ERR_RESOURCE, ctx, h2, s3))
               else
                 (case sys_int (Sys_timerfd_settime (rv a)) s2 of
                    (q, s3) \<Rightarrow>
                      if q \<noteq> 0 then
                        (case free_marshal p h1 (sys_note (Sys_close (rv a)) s3) of
                           (h2, s4) \<Rightarrow> Some (TORQUE_ERR_INVAL, ctx, h2, s4))
                      else
                        (case add_fd_to_evhandler ctx (rv a) (Some Cb_timer_passthru) None (Ptr_obj p) 0 s3 of
                           None \<Rightarrow> None
                         | Some (r, ctx', s4) \<Rightarrow>
                             if r \<noteq> 0 then
                               (case free_marshal p h1 (sys_note (Sys_close (rv a)) s4) of
                                  (h2, s5) \<Rightarrow> Some (TORQUE_ERR_ASSERT, ctx', h2, s5))
                             else Some (0, ctx', h1, s4)))))"

section \<open>Dispatch\<close>

text \<open>
  \<open>call\<close> is what the callbacks do to the context; the trace lists the invocations in
  order. The events of a round are handled from the last to the first.
\<close>

type_synonym callbacks = "invocation \<Rightarrow> torque_ctx \<Rightarrow> torque_ctx"

definition run_invocations :: "callbacks \<Rightarrow> invocation list \<Rightarrow> torque_ctx \<Rightarrow> torque_ctx" where
  "run_invocations call ivs ctx = foldl (\<lambda>c i. call i c) ctx ivs"

definition handle_event ::
  "callbacks \<Rightarrow> torque_ctx \<Rightarrow> int \<times> u32 \<Rightarrow> (torque_ctx \<times> invocation list) option" where
  "handle_event call ctx e =
     (case (if snd e AND EVREAD \<noteq> 0
            then handle_evsource_read (fdarray (ctx_eventtables ctx)) (nat (fst e)) else Some []) of
        None \<Rightarrow> None
      | Some inv1 \<Rightarrow>
          let ctx1 = run_invocations call inv1 ctx in
          (case (if snd e AND EVWRITE \<noteq> 0
                 then handle_evsource_write (fdarray (ctx_eventtables ctx1)) (nat (fst e)) else Some []) of
             None \<Rightarrow> None
           | Some inv2 \<Rightarrow> Some (run_invocations call inv2 ctx1, inv1 @ inv2)))"

fun handle_events ::
  "callbacks \<Rightarrow> torque_ctx \<Rightarrow> (int \<times> u32) list \<Rightarrow> (torque_ctx \<times> invocation list) option" where
  "handle_events call ctx [] = Some (ctx, [])"
| "handle_events call ctx (e # es) =
     (case handle_event call ctx e of
        None \<Rightarrow> None
      | Some (ctx1, inv1) \<Rightarrow>
          (case handle_events call ctx1 es of
             None \<Rightarrow> None
           | Some (ctx2, inv2) \<Rightarrow> Some (ctx2, inv1 @ inv2)))"

record evthreadstats =
  st_rounds :: u64
  st_events :: u64
  st_errors :: u64
  st_utimeus :: u64
  st_stimeus :: u64
  st_vctxsw :: u64
  st_ictxsw :: u64
  st_stackptr :: u64
  st_stacksize :: u64
  st_pollerr :: u64

definition zero_stats :: evthreadstats where
  "zero_stats = \<lparr>st_rounds = 0, st_events = 0, st_errors = 0, st_utimeus = 0, st_stimeus = 0, st_vctxsw = 0,
     st_ictxsw = 0, st_stackptr = 0, st_stacksize = 0, st_pollerr = 0\<rparr>"

text \<open>One turn of the loop of \<open>event_thread\<close>.\<close>

definition event_round ::
  "callbacks \<Rightarrow> torque_ctx \<Rightarrow> evthreadstats \<Rightarrow> nat \<Rightarrow> sysst \<Rightarrow>
     (torque_ctx \<times> evthreadstats \<times> invocation list \<times> sysst) option" where
  "event_round call ctx stats vsizes s =
     (case Kevent (efd (ctx_evq ctx)) [] vsizes s of
        None \<Rightarrow> None
      | Some (events, evs, s') \<Rightarrow>
          let stats1 = stats\<lparr>st_rounds := st_rounds stats + 1\<rparr> in
          if events < 0 then
            Some (ctx, if errno s' \<noteq> EINTR then stats1\<lparr>st_pollerr := st_pollerr stats1 + 1\<rparr> else stats1,
              [], s')
          else
            (case handle_events call ctx (rev (take (nat events) evs)) of
               None \<Rightarrow> None
             | Some (ctx', ivs) \<Rightarrow>
                 Some (ctx', stats1\<lparr>st_events := st_events stats1 + of_nat (length (take (nat events) evs))\<rparr>,
                   ivs, s')))"

section \<open>The contract of a source table\<close>

text \<open>
  What registration promises: inside the table it succeeds, the new entry is what a
  lookup finds, and the other entries stay. The clients' fact: after any sequence of
  registrations a lookup finds the latest one.
\<close>

locale registry =
  fixes inside :: "'t \<Rightarrow> nat \<Rightarrow> bool"
    and register :: "'t \<Rightarrow> nat \<Rightarrow> 'a \<Rightarrow> 't option"
    and entry :: "'t \<Rightarrow> nat \<Rightarrow> 'a option"
  assumes register_total: "inside t n \<Longrightarrow> register t n a \<noteq> None"
    and register_outside: "\<not> inside t n \<Longrightarrow> register t n a = None"
    and register_entry: "register t n a = Some t' \<Longrightarrow> entry t' m = (if m = n then Some a else entry t m)"
    and register_inside: "register t n a = Some t' \<Longrightarrow> inside t' m = inside t m"
begin

fun register_all :: "'t \<Rightarrow> (nat \<times> 'a) list \<Rightarrow> 't option" where
  "register_all t [] = Some t"
| "register_all t ((n, a) # rs) =
     (case register t n a of None \<Rightarrow> None | Some t' \<Rightarrow> register_all t' rs)"

lemma register_all_total: "\<forall>(n, a)\<in>set rs. inside t n \<Longrightarrow> register_all t rs \<noteq> None"
proof (induction rs arbitrary: t)
  case (Cons r rs)
  obtain n a where r: "r = (n, a)" by fastforce
  then obtain t' where t': "register t n a = Some t'" using Cons.prems register_total by fastforce
  have "\<forall>(n, a)\<in>set rs. inside t' n" using Cons.prems register_inside [OF t'] by auto
  then show ?case using Cons.IH r t' by simp
qed simp

lemma register_all_entry:
  "register_all t rs = Some t' \<Longrightarrow>
   entry t' m = (case map_of (rev rs) m of Some a \<Rightarrow> Some a | None \<Rightarrow> entry t m)"
proof (induction rs arbitrary: t)
  case (Cons r rs)
  obtain n a where r: "r = (n, a)" by fastforce
  obtain t1 where t1: "register t n a = Some t1" and go: "register_all t1 rs = Some t'"
    using Cons.prems r by (auto split: option.splits)
  have "map_of (rev (r # rs)) = map_of (rev rs @ [(n, a)])" by (simp add: r)
  then show ?case using Cons.IH [OF go] register_entry [OF t1, of m]
    by (auto simp: map_add_def split: option.splits)
qed simp

end

type_synonym registration = "cbfn option \<times> cbfn option \<times> cbptr"

definition src_inside :: "evsource list \<Rightarrow> nat \<Rightarrow> bool" where
  "src_inside evs n \<longleftrightarrow> n < length evs"

definition src_register :: "evsource list \<Rightarrow> nat \<Rightarrow> registration \<Rightarrow> evsource list option" where
  "src_register evs n r = (case r of (rf, tf, v) \<Rightarrow> setup_evsource evs n rf tf v)"

definition src_entry :: "evsource list \<Rightarrow> nat \<Rightarrow> registration option" where
  "src_entry evs n =
     (if n < length evs then Some (rxfxn (evs ! n), txfxn (evs ! n), src_cbstate (evs ! n)) else None)"

lemma setup_evsource_eq:
  "setup_evsource evs n rf tf v =
     (if n < length evs then Some (evs[n := \<lparr>rxfxn = rf, txfxn = tf, src_cbstate = v\<rparr>]) else None)"
proof (cases "n < length evs")
  case True
  obtain e where "evs ! n = e" by blast
  then show ?thesis using True
    by (cases e) (simp add: setup_evsource_def set_evsource_rx_def set_evsource_tx_def)
next
  case False
  then show ?thesis by (simp add: setup_evsource_def set_evsource_rx_def)
qed

interpretation src: registry src_inside src_register src_entry
  by unfold_locales
    (auto simp: src_inside_def src_register_def src_entry_def setup_evsource_eq nth_list_update
      split: if_splits)

section \<open>Registration and dispatch\<close>

definition tables_wf :: "torque_ctx \<Rightarrow> bool" where
  "tables_wf ctx \<longleftrightarrow>
     fdarraysize (ctx_eventtables ctx) = length (fdarray (ctx_eventtables ctx)) \<and>
     sigarraysize (ctx_eventtables ctx) = length (sigarray (ctx_eventtables ctx))"

abbreviation fd_entry :: "torque_ctx \<Rightarrow> nat \<Rightarrow> registration option" where
  "fd_entry ctx \<equiv> src_entry (fdarray (ctx_eventtables ctx))"

abbreviation sig_entry :: "torque_ctx \<Rightarrow> nat \<Rightarrow> registration option" where
  "sig_entry ctx \<equiv> src_entry (sigarray (ctx_eventtables ctx))"

lemma add_fd_cases:
  assumes "tables_wf ctx"
  shows "\<exists>r ctx' s'. add_fd_to_evhandler ctx fd rf tf v fl s = Some (r, ctx', s') \<and> tables_wf ctx' \<and>
    (if fd < 0 \<or> nat fd \<ge> fdarraysize (ctx_eventtables ctx) then r = - 1 \<and> ctx' = ctx \<and> s' = s
     else (r = 0 \<or> r = - 1) \<and> ctx_evq ctx' = ctx_evq ctx \<and>
       sigarray (ctx_eventtables ctx') = sigarray (ctx_eventtables ctx) \<and>
       (\<forall>n. fd_entry ctx' n = (if n = nat fd then Some (rf, tf, v) else fd_entry ctx n)))"
proof (cases "fd < 0 \<or> nat fd \<ge> fdarraysize (ctx_eventtables ctx)")
  case True
  then show ?thesis using assms by (auto simp: add_fd_to_evhandler_def)
next
  case False
  let ?evs = "fdarray (ctx_eventtables ctx)"
  have n: "src_inside ?evs (nat fd)" using False assms by (simp add: tables_wf_def src_inside_def)
  then obtain evs where r: "src_register ?evs (nat fd) (rf, tf, v) = Some evs"
    using src.register_total by fastforce
  then have len: "length evs = length ?evs"
    by (auto simp: src_register_def setup_evsource_eq split: if_splits)
  obtain q s' where e: "add_fd_event (efd (ctx_evq ctx)) fd rf tf fl s = (q, s')" by fastforce
  have "add_fd_to_evhandler ctx fd rf tf v fl s = Some (if q \<noteq> 0 then - 1 else 0, set_fdarray evs ctx, s')"
    using False r e by (simp add: add_fd_to_evhandler_def src_register_def)
  moreover have "tables_wf (set_fdarray evs ctx)" using assms len by (simp add: tables_wf_def set_fdarray_def)
  moreover have "\<forall>m. fd_entry (set_fdarray evs ctx) m =
      (if m = nat fd then Some (rf, tf, v) else fd_entry ctx m)"
    using src.register_entry [OF r] by (simp add: set_fdarray_def)
  ultimately show ?thesis using False by (auto simp: set_fdarray_def)
qed

lemma sys_quiet_add_fd:
  "add_fd_to_evhandler ctx fd rf tf v fl s = Some (r, ctx', s') \<Longrightarrow> sys_quiet sd s s'"
  by (auto simp: add_fd_to_evhandler_def add_fd_event_def Kevent_def Let_def sys_quiet_refl
      split: if_splits option.splits prod.splits dest!: sys_quiet_int [of _ _ _ _ sd])

lemma handle_read_entry:
  "src_entry evs n = Some (rf, tf, v) \<Longrightarrow>
   handle_evsource_read evs n = Some (case rf of None \<Rightarrow> [] | Some f \<Rightarrow> [(f, n, v)])"
  by (auto simp: src_entry_def handle_evsource_read_def split: if_splits)

lemma handle_write_entry:
  "src_entry evs n = Some (rf, tf, v) \<Longrightarrow>
   handle_evsource_write evs n = Some (case tf of None \<Rightarrow> [] | Some f \<Rightarrow> [(f, n, v)])"
  by (auto simp: src_entry_def handle_evsource_write_def split: if_splits)

text \<open>What a ready descriptor causes, by the table: the read callback, then the write callback.\<close>

definition ready_calls :: "torque_ctx \<Rightarrow> int \<times> u32 \<Rightarrow> invocation list" where
  "ready_calls ctx e =
     (case fd_entry ctx (nat (fst e)) of
        None \<Rightarrow> []
      | Some (rf, tf, v) \<Rightarrow>
          (if snd e AND EVREAD \<noteq> 0 then (case rf of None \<Rightarrow> [] | Some f \<Rightarrow> [(f, nat (fst e), v)]) else []) @
          (if snd e AND EVWRITE \<noteq> 0 then (case tf of None \<Rightarrow> [] | Some f \<Rightarrow> [(f, nat (fst e), v)]) else []))"

lemma run_invocations_id: "(\<And>i c. call i c = c) \<Longrightarrow> run_invocations call ivs ctx = ctx"
  by (induction ivs) (simp_all add: run_invocations_def)

lemma handle_event_ready:
  assumes "\<And>i c. call i c = c" "nat (fst e) < length (fdarray (ctx_eventtables ctx))"
  shows "handle_event call ctx e = Some (ctx, ready_calls ctx e)"
proof -
  obtain rf tf v where en: "fd_entry ctx (nat (fst e)) = Some (rf, tf, v)"
    using assms(2) by (auto simp: src_entry_def)
  show ?thesis
    using handle_read_entry [OF en] handle_write_entry [OF en] en run_invocations_id [OF assms(1)]
    by (simp add: handle_event_def ready_calls_def Let_def)
qed

lemma handle_events_ready:
  assumes "\<And>i c. call i c = c" "\<forall>e\<in>set es. nat (fst e) < length (fdarray (ctx_eventtables ctx))"
  shows "handle_events call ctx es = Some (ctx, concat (map (ready_calls ctx) es))"
  using assms(2) by (induction es) (simp_all add: handle_event_ready assms(1))

section \<open>Signals\<close>

lemma add_signals_entry:
  assumes "sigsz \<le> length evs"
  shows "\<exists>evs'. add_signals_from sigs rf v sigsz z evs = Some evs' \<and> length evs' = length evs \<and>
    (\<forall>n. src_entry evs' n = (if n \<in> sigs \<and> z \<le> n \<and> n < sigsz then Some (rf, None, v) else src_entry evs n))"
  using assms
proof (induction sigs rf v sigsz z evs rule: add_signals_from.induct)
  case (1 sigs rf v sigsz z evs)
  show ?case
  proof (cases "z < sigsz")
    case False
    then show ?thesis by (auto simp: add_signals_from.simps [of sigs rf v sigsz z])
  next
    case lt: True
    show ?thesis
    proof (cases "z \<in> sigs")
      case True
      obtain evs1 where r: "src_register evs z (rf, None, v) = Some evs1"
        using src.register_total [of evs z] lt "1.prems" by (fastforce simp: src_inside_def)
      have len: "length evs1 = length evs"
        using r by (auto simp: src_register_def setup_evsource_eq split: if_splits)
      have st: "setup_evsource evs z rf None v = Some evs1" using r by (simp add: src_register_def)
      obtain evs' where "add_signals_from sigs rf v sigsz (z + 1) evs1 = Some evs'"
        "length evs' = length evs1" and en: "\<forall>n. src_entry evs' n =
          (if n \<in> sigs \<and> z + 1 \<le> n \<and> n < sigsz then Some (rf, None, v) else src_entry evs1 n)"
        using "1.IH"(1) [OF lt True st] "1.prems" len by auto
      moreover have "src_entry evs' n =
          (if n \<in> sigs \<and> z \<le> n \<and> n < sigsz then Some (rf, None, v) else src_entry evs n)" for n
        using en src.register_entry [OF r, of n] lt True by (cases "n = z") auto
      ultimately show ?thesis using lt True st len
        by (simp add: add_signals_from.simps [of sigs rf v sigsz z])
    next
      case False
      obtain evs' where "add_signals_from sigs rf v sigsz (z + 1) evs = Some evs'"
        "length evs' = length evs" and en: "\<forall>n. src_entry evs' n =
          (if n \<in> sigs \<and> z + 1 \<le> n \<and> n < sigsz then Some (rf, None, v) else src_entry evs n)"
        using "1.IH"(2) [OF lt False "1.prems"] by auto
      moreover have "(n \<in> sigs \<and> z + 1 \<le> n \<and> n < sigsz) = (n \<in> sigs \<and> z \<le> n \<and> n < sigsz)" for n
        using False by (cases "n = z") auto
      ultimately show ?thesis using lt False
        by (simp add: add_signals_from.simps [of sigs rf v sigsz z])
    qed
  qed
qed

lemma add_signal_entries:
  assumes "tables_wf ctx" "add_signal_to_evhandler ctx sigs rf v s = Some (r, ctx', s')"
  shows "tables_wf ctx' \<and> length (sigarray (ctx_eventtables ctx')) = length (sigarray (ctx_eventtables ctx)) \<and>
    (\<forall>n. sig_entry ctx' n = (if n \<in> sigs \<and> 1 \<le> n \<and> n < sigarraysize (ctx_eventtables ctx)
       then Some (rf, None, v) else sig_entry ctx n))"
proof -
  let ?evt = "ctx_eventtables ctx"
  obtain evs where a: "add_signals_from sigs rf v (sigarraysize ?evt) 1 (sigarray ?evt) = Some evs"
    and len: "length evs = length (sigarray ?evt)"
    and en: "\<forall>n. src_entry evs n = (if n \<in> sigs \<and> 1 \<le> n \<and> n < sigarraysize ?evt
      then Some (rf, None, v) else src_entry (sigarray ?evt) n)"
    using add_signals_entry [of "sigarraysize ?evt" "sigarray ?evt" sigs rf v 1] assms(1)
    by (auto simp: tables_wf_def)
  let ?ctx1 = "set_sigarray evs ctx"
  have wf1: "tables_wf ?ctx1" using assms(1) len by (simp add: tables_wf_def set_sigarray_def)
  obtain ans s1 where sc: "sys_call (Sys_signalfd sigs) s = (ans, s1)" by fastforce
  show ?thesis
  proof (cases "rv ans < 0")
    case True
    then have "ctx' = ?ctx1" using assms(2) a sc by (auto simp: add_signal_to_evhandler_def Let_def)
    then show ?thesis using wf1 en len by (simp add: set_sigarray_def)
  next
    case False
    obtain q ctx2 s2 where f: "add_fd_to_evhandler ?ctx1 (rv ans) (Some Cb_signalfd_demultiplexer) None
        Ptr_ctx 0 s1 = Some (q, ctx2, s2)" and wf2: "tables_wf ctx2"
      and sg: "sigarray (ctx_eventtables ctx2) = sigarray (ctx_eventtables ?ctx1)"
      using add_fd_cases [OF wf1, of "rv ans" "Some Cb_signalfd_demultiplexer" None Ptr_ctx 0 s1]
      by (auto split: if_splits)
    then have "ctx' = ctx2" using assms(2) a sc False
      by (auto simp: add_signal_to_evhandler_def Let_def split: if_splits)
    then show ?thesis using wf2 sg en len by (simp add: set_sigarray_def)
  qed
qed

text \<open>One queued signal: the demultiplexer calls what is registered for it and goes on.\<close>

lemma demultiplex_one:
  assumes "sys_read fd 128 s = (128, data, s1)"
    and "src_entry sigs (signo_of data) = Some (Some f, tf, v)"
    and "signalfd_demultiplexer fd sigs s1 = Some (rest, s2)"
  shows "signalfd_demultiplexer fd sigs s = Some ((f, signo_of data, v) # rest, s2)"
  using assms handle_read_entry [OF assms(2)] by (simp add: signalfd_demultiplexer.simps [of fd sigs s])

lemma demultiplex_out_of_range:
  assumes "sys_read fd 128 s = (128, data, s1)" "length sigs \<le> signo_of data"
  shows "signalfd_demultiplexer fd sigs s = None"
  using assms by (simp add: signalfd_demultiplexer.simps [of fd sigs s] handle_evsource_read_def)

section \<open>The wait loop\<close>

lemma kevent_retrieve_result:
  assumes "kevent_retrieve epfd n s = Some res"
  shows "0 \<le> fst res \<and> errno (snd (snd res)) \<noteq> EINTR"
proof (rule kevent_retrieve.raw_induct [where
    P = "\<lambda>epfd n s res. 0 \<le> fst res \<and> errno (snd (snd res)) \<noteq> EINTR", OF _ assms])
  fix f epfd n s res
  assume IH: "\<And>epfd n s res. f epfd n s = Some res \<Longrightarrow> 0 \<le> fst res \<and> errno (snd (snd res)) \<noteq> EINTR"
    and eq: "(case sys_call (Sys_epoll_wait epfd n) s of
        (a, s') \<Rightarrow> if rv a < 0 \<or> errno s' = EINTR then f epfd n s'
          else Some (rv a, take n (revents a), s')) = Some res"
  show "0 \<le> fst res \<and> errno (snd (snd res)) \<noteq> EINTR"
    using eq IH by (auto split: prod.splits if_splits)
qed

lemma kevent_retrieve_step:
  "kevent_retrieve epfd n s =
     (case sys_call (Sys_epoll_wait epfd n) s of
        (a, s') \<Rightarrow> if rv a < 0 \<or> errno s' = EINTR then kevent_retrieve epfd n s'
          else Some (rv a, take n (revents a), s'))"
  by (rule kevent_retrieve.simps)

text \<open>A successful wait does not touch \<open>errno\<close>; a stale \<open>EINTR\<close> throws its events away.\<close>

lemma kevent_retrieve_drops:
  assumes "errno s = EINTR" "answers s = a # as" "0 \<le> rv a"
  shows "kevent_retrieve epfd n s =
    kevent_retrieve epfd n (s\<lparr>answers := as, calls := calls s @ [Sys_epoll_wait epfd n]\<rparr>)"
  using assms by (cases s) (subst kevent_retrieve_step, simp add: sys_call_def)

text \<open>Errors other than interruption are retried as well, for as long as they last.\<close>

lemma kevent_retrieve_errors:
  assumes "\<forall>a\<in>set (answers s). rv a < 0"
  shows "kevent_retrieve epfd n s = None"
proof -
  have "\<not> (\<forall>a\<in>set (answers s). rv a < 0)" if "kevent_retrieve epfd n s = Some res" for epfd n s res
  proof (rule kevent_retrieve.raw_induct [where P = "\<lambda>epfd n s res. \<not> (\<forall>a\<in>set (answers s). rv a < 0)", OF _ that])
    fix f epfd n s res
    assume IH: "\<And>epfd n s res. f epfd n s = Some res \<Longrightarrow> \<not> (\<forall>a\<in>set (answers s). rv a < 0)"
      and eq: "(case sys_call (Sys_epoll_wait epfd n) s of
          (a, s') \<Rightarrow> if rv a < 0 \<or> errno s' = EINTR then f epfd n s'
            else Some (rv a, take n (revents a), s')) = Some res"
    show "\<not> (\<forall>a\<in>set (answers s). rv a < 0)"
    proof (cases "answers s")
      case Nil
      then show ?thesis using eq IH by (fastforce simp: sys_call_def failed_ret_def)
    next
      case (Cons b bs)
      then show ?thesis using eq IH [of epfd n] by (fastforce simp: sys_call_def split: if_splits)
    qed
  qed
  then show ?thesis using assms by (metis not_None_eq)
qed

section \<open>Timers\<close>

lemma timer_fires_once:
  assumes "timer_passthru fd (Ptr_obj p) h = Some (c, h')"
  shows "timer_passthru fd' (Ptr_obj p) h' = None"
  using assms by (auto simp: timer_passthru_def timer_curry_def split: option.splits)

lemma add_timer_registers:
  assumes "tables_wf ctx" "add_timer_to_evhandler ctx tf v h s = Some (r, ctx', h', s')"
    and "h = Map.empty"
  shows "if r = 0 then \<exists>fd p. fd_entry ctx' fd = Some (Some Cb_timer_passthru, None, Ptr_obj p) \<and>
      h' = [p \<mapsto> \<lparr>tm_tfxn = tf, tm_cbstate = v\<rparr>]
    else h' = Map.empty"
proof -
  obtain q h1 s1 where c: "create_timerfd_marshal tf v h s = (q, h1, s1)" by (cases rule: prod_cases3)
  show ?thesis
  proof (cases q)
    case None
    then show ?thesis using assms c
      by (auto simp: add_timer_to_evhandler_def create_timerfd_marshal_def split: option.splits prod.splits)
  next
    case (Some p)
    then have h1: "h1 = [p \<mapsto> \<lparr>tm_tfxn = tf, tm_cbstate = v\<rparr>]"
      using c assms(3) by (auto simp: create_timerfd_marshal_def split: option.splits prod.splits)
    obtain a s2 where a: "sys_call Sys_timerfd_create s1 = (a, s2)" by fastforce
    obtain k s3 where k: "sys_int (Sys_timerfd_settime (rv a)) s2 = (k, s3)" by fastforce
    obtain z ctx2 s4 where f: "add_fd_to_evhandler ctx (rv a) (Some Cb_timer_passthru) None (Ptr_obj p) 0 s3 =
        Some (z, ctx2, s4)"
      and en: "z = 0 \<Longrightarrow> fd_entry ctx2 (nat (rv a)) = Some (Some Cb_timer_passthru, None, Ptr_obj p)"
      using add_fd_cases [OF assms(1), of "rv a" "Some Cb_timer_passthru" None "Ptr_obj p" 0 s3]
      by (auto split: if_splits)
    have none: "h1(p := None) = Map.empty" by (auto simp: h1)
    show ?thesis
      using assms(2) c Some a k f en h1 none
      by (auto simp: add_timer_to_evhandler_def free_marshal_def split: if_splits)
  qed
qed

section \<open>Properties\<close>

text \<open>
  Fact: the latest registration wins. After any sequence of registrations inside a source
  table, the entry of every descriptor or signal is the one registered last, or what it was
  before.
\<close>

theorem latest_registration_wins:
  assumes "\<forall>(n, r)\<in>set regs. n < length evs"
  shows "\<exists>evs'. src.register_all evs regs = Some evs' \<and>
    (\<forall>m. src_entry evs' m = (case map_of (rev regs) m of Some r \<Rightarrow> Some r | None \<Rightarrow> src_entry evs m))"
proof -
  have "src.register_all evs regs \<noteq> None" using assms by (intro src.register_all_total) (simp add: src_inside_def)
  then show ?thesis using src.register_all_entry by blast
qed

theorem latest_registration_wins_witness:
  "\<exists>evs'. src.register_all [zero_evsource] [(0, Some (Cb_user 1), None, Ptr_null), (0, Some (Cb_user 2), None, Ptr_null)] =
      Some evs' \<and> src_entry evs' 0 = Some (Some (Cb_user 2), None, Ptr_null)"
  using latest_registration_wins [of "[(0, Some (Cb_user 1), None, Ptr_null), (0, Some (Cb_user 2), None, Ptr_null)]"
      "[zero_evsource]"] by auto

text \<open>
  Property C24: a round of the event loop. When the wait delivered events on descriptors of the
  table, and the callbacks leave the context alone, the round invokes for each event, from the
  last to the first, the registered read callback if the event is readable and then the registered
  write callback if it is writable, each with its descriptor and registered state, and counts
  the events.
\<close>

theorem event_round_dispatches:
  assumes "\<And>i c. call i c = c" "Kevent (efd (ctx_evq ctx)) [] n s = Some (int (length evs), evs, s')"
    and "\<forall>e\<in>set evs. nat (fst e) < length (fdarray (ctx_eventtables ctx))"
  shows "event_round call ctx stats n s =
    Some (ctx, stats\<lparr>st_rounds := st_rounds stats + 1, st_events := st_events stats + of_nat (length evs)\<rparr>,
      concat (map (ready_calls ctx) (rev evs)), s')"
  using assms(2,3) handle_events_ready [where call = call and ctx = ctx and es = "rev evs", OF assms(1)]
  by (simp add: event_round_def Let_def)

definition sample_table :: torque_ctx where
  "sample_table = zero_ctx\<lparr>ctx_eventtables := \<lparr>fdarray = [\<lparr>rxfxn = Some (Cb_user 5), txfxn = None,
     src_cbstate = Ptr_user 6\<rparr>], sigarray = [], sigarraysize = 0, fdarraysize = 1, common_signalfd = - 1\<rparr>\<rparr>"

theorem event_round_dispatches_witness:
  "\<exists>stats s'. event_round (\<lambda>_ c. c) sample_table zero_stats 512
     (os_answering [ok_ret\<lparr>revents := [(0, 1)]\<rparr>]) = Some (sample_table, stats, [(Cb_user 5, 0, Ptr_user 6)], s') \<and>
     st_events stats = 1"
proof -
  obtain s' where wait: "Kevent (efd (ctx_evq sample_table)) [] 512 (os_answering [ok_ret\<lparr>revents := [(0, 1)]\<rparr>]) =
      Some (int (length [(0 :: int, 1 :: u32)]), [(0, 1)], s')"
    by (simp add: Kevent_def kevent_retrieve_step [of _ 512] io_simps)
  have "ready_calls sample_table (0, 1) = [(Cb_user 5, 0, Ptr_user 6)]"
    by (simp add: ready_calls_def sample_table_def src_entry_def EVREAD_def EVWRITE_def)
  with event_round_dispatches [where call = "\<lambda>_ c. c", OF refl wait] show ?thesis by (simp add: sample_table_def zero_stats_def)
qed

text \<open>
  Fact: the wait never reports an error. Its loop repeats every failure, so a round that
  returns has counted no poll error: the branch of \<open>event_thread\<close> that counts them, and the
  \<open>EINTR\<close> that it tests for, are never reached.
\<close>

theorem pollerr_never_counted:
  assumes "event_round call ctx stats n s = Some (ctx', stats', ivs, s')" "n \<noteq> 0"
  shows "st_pollerr stats' = st_pollerr stats \<and> st_rounds stats' = st_rounds stats + 1 \<and> errno s' \<noteq> EINTR"
proof -
  obtain k evs s1 where wait: "kevent_retrieve (efd (ctx_evq ctx)) n s = Some (k, evs, s1)"
    using assms by (auto simp: event_round_def Kevent_def split: option.splits)
  then have "0 \<le> k \<and> errno s1 \<noteq> EINTR" using kevent_retrieve_result by fastforce
  then show ?thesis using assms wait
    by (auto simp: event_round_def Kevent_def Let_def split: option.splits)
qed

theorem pollerr_never_counted_witness:
  "\<exists>ctx' stats' ivs s'. event_round (\<lambda>_ c. c) zero_ctx zero_stats 512
     (os_answering [failed_ret, zero_ret]) = Some (ctx', stats', ivs, s') \<and> st_pollerr stats' = 0 \<and> errno s' \<noteq> EINTR"
proof -
  obtain ctx' stats' ivs s' where run: "event_round (\<lambda>_ c. c) zero_ctx zero_stats 512
     (os_answering [failed_ret, zero_ret]) = Some (ctx', stats', ivs, s')"
    by (simp add: event_round_def Kevent_def kevent_retrieve_step [of _ 512] io_simps)
  from pollerr_never_counted [OF run] run show ?thesis by (simp add: zero_stats_def)
qed

text \<open>
  Fact: the condition of the wait loop is a disjunction where a conjunction is meant. After an
  interrupted wait, \<open>errno\<close> stays \<open>EINTR\<close> through the next, successful wait, whose events are
  thrown away while the loop goes round; with failures only, the loop does not end.
\<close>

theorem wait_discards_events:
  "(errno s = EINTR \<and> answers s = a # as \<and> 0 \<le> rv a \<longrightarrow>
      kevent_retrieve epfd n s =
      kevent_retrieve epfd n (s\<lparr>answers := as, calls := calls s @ [Sys_epoll_wait epfd n]\<rparr>)) \<and>
   (list_all (\<lambda>a. rv a < 0) (answers s) \<longrightarrow> kevent_retrieve epfd n s = None)"
  using kevent_retrieve_drops [of s a as epfd n] kevent_retrieve_errors [of s epfd n] by (auto simp: list_all_iff)

theorem wait_discards_events_witness:
  "kevent_retrieve 4 512 \<lparr>answers = [ok_ret\<lparr>revents := [(3, 1)]\<rparr>], calls = [], errno = 4\<rparr> = None"
  using wait_discards_events [of "\<lparr>answers = [ok_ret\<lparr>revents := [(3, 1)]\<rparr>], calls = [], errno = 4\<rparr>"
      "ok_ret\<lparr>revents := [(3, 1)]\<rparr>" "[]" 4 512]
    wait_discards_events [of "\<lparr>answers = [], calls = [Sys_epoll_wait 4 512], errno = 4\<rparr>" ok_ret "[]" 4 512]
  by (simp add: ok_ret_def)

text \<open>
  Fact: a timer's marshal is freed by its first expiry while its descriptor stays registered.
  After a successful \<open>add_timer_to_evhandler\<close>, the first expiry calls the client's function with its
  state; the second expiry, of a periodic timer, follows the freed pointer.
\<close>

theorem timer_used_after_free:
  assumes "tables_wf ctx" "add_timer_to_evhandler ctx tf v Map.empty s = Some (0, ctx', h', s')"
  shows "\<exists>fd p h1. fd_entry ctx' fd = Some (Some Cb_timer_passthru, None, Ptr_obj p) \<and>
    timer_passthru fd (Ptr_obj p) h' = Some ((tf, v), h1) \<and> timer_passthru fd (Ptr_obj p) h1 = None"
  using add_timer_registers [OF assms refl] by (auto simp: timer_passthru_def timer_curry_def)

theorem timer_used_after_free_witness:
  "\<exists>ctx' h' s' fd p h1. add_timer_to_evhandler sample_table 8 9 Map.empty
      (os_answering [ok_ret, zero_ret, zero_ret, zero_ret]) = Some (0, ctx', h', s') \<and>
    timer_passthru fd (Ptr_obj p) h' = Some ((8, 9), h1) \<and> timer_passthru fd (Ptr_obj p) h1 = None"
proof -
  have wf: "tables_wf sample_table" by (simp add: tables_wf_def sample_table_def)
  obtain ctx' h' s' where run: "add_timer_to_evhandler sample_table 8 9 Map.empty
      (os_answering [ok_ret, zero_ret, zero_ret, zero_ret]) = Some (0, ctx', h', s')"
    by (simp add: add_timer_to_evhandler_def create_timerfd_marshal_def add_fd_to_evhandler_def sample_table_def
        setup_evsource_eq add_fd_event_def Kevent_def io_simps Let_def)
  from timer_used_after_free [OF wf run] run show ?thesis by blast
qed

end
