(* ===== verification/Shutdown.thy ===== *)
theory Shutdown
  imports Events
begin

text \<open>
  The end of the event threads: the statistics they print and \<open>rxcommonsignal\<close> of
  \<^verbatim>\<open>src/src/libtorque/events/thread.c\<close>, with \<open>reap_thread\<close> of \<^verbatim>\<open>src/src/libtorque/schedule.c\<close>. One thread's part is a
  function; all threads together are a step relation, in which each thread that is
  signalled signals the next one of the circle, joins it, and exits.
\<close>

section \<open>Statistics\<close>

text \<open>The fields in the order of \<^verbatim>\<open>x-stats.h\<close>; the flag marks a pointer.\<close>

definition stat_fields :: "(string \<times> bool \<times> (evthreadstats \<Rightarrow> u64)) list" where
  "stat_fields =
     [(''rounds'', False, st_rounds), (''events'', False, st_events), (''errors'', False, st_errors),
      (''utimeus'', False, st_utimeus), (''stimeus'', False, st_stimeus), (''vctxsw'', False, st_vctxsw),
      (''ictxsw'', False, st_ictxsw), (''stackptr'', True, st_stackptr), (''stacksize'', False, st_stacksize),
      (''pollerr'', False, st_pollerr)]"

definition stat_text :: "string \<Rightarrow> bool \<Rightarrow> u64 \<Rightarrow> string" where
  "stat_text field ptr v =
     ''<'' @ field @ ''>'' @ (if ptr then ''0x'' @ hex_string (unat v) else dec_string (unat v)) @ ''</'' @ field @ ''>''"

definition printf :: "string \<Rightarrow> sysst \<Rightarrow> int \<times> sysst" where
  "printf text s = sys_int (Sys_printf text) s"

fun print_fields :: "(string \<times> bool \<times> (evthreadstats \<Rightarrow> u64)) list \<Rightarrow> evthreadstats \<Rightarrow> sysst \<Rightarrow> int \<times> sysst" where
  "print_fields [] stats s = (0, s)"
| "print_fields ((field, ptr, get) # fs) stats s =
     (if get stats \<noteq> 0 then
        (case printf (stat_text field ptr (get stats)) s of
           (r, s') \<Rightarrow> if r < 0 then (- 1, s') else print_fields fs stats s')
      else print_fields fs stats s)"

text \<open>
  The type that \<open>lookup_aid\<close> finds, as the index of its description (\<open>cpu - ctx->cpudescs\<close>). The outer option is
  \<open>None\<close> when a null pointer would be followed.
\<close>

fun lookup_type :: "zone list \<Rightarrow> nat \<Rightarrow> nat option option" where
  "lookup_type [] aid = None"
| "lookup_type (Zone sch g d sb # rest) aid =
     (if aid \<in> sch then (if sb \<noteq> [] then lookup_type sb aid else Some (Some d))
      else if rest = [] then Some None
      else lookup_type rest aid)"

lemma lookup_type_desc:
  "lookup_aid_intop n ds zs aid = map_option (\<lambda>d. Option.bind d (torque_cpu_getdesc n ds)) (lookup_type zs aid)"
  by (induction zs aid rule: lookup_type.induct) auto

definition print_evthread :: "torque_ctx \<Rightarrow> sysst \<Rightarrow> (int \<times> sysst) option" where
  "print_evthread ctx s =
     (case get_thread_aid s of
        (aid, s1) \<Rightarrow>
          if aid < 0 then Some (- 1, s1)
          else
            (case lookup_type (ctx_sched_zone ctx) (nat aid) of
               None \<Rightarrow> None
             | Some None \<Rightarrow> Some (- 1, s1)
             | Some (Some d) \<Rightarrow>
                 if d \<ge> ctx_cpu_typecount ctx then Some (- 1, s1)
                 else
                   (case printf (''aid=\"'' @ dec_string (nat aid) @ ''\" cputype=\"'' @ dec_string d @ ''\"'') s1 of
                      (r, s2) \<Rightarrow> Some (if r < 0 then - 1 else 0, s2))))"

definition print_evstats :: "torque_ctx \<Rightarrow> evthreadstats \<Rightarrow> sysst \<Rightarrow> (int \<times> sysst) option" where
  "print_evstats ctx stats s =
     (case printf ''<thread '' s of
        (r, s1) \<Rightarrow>
          if r < 0 then Some (- 1, s1)
          else
            (case print_evthread ctx s1 of
               None \<Rightarrow> None
             | Some (r, s2) \<Rightarrow>
                 if r \<noteq> 0 then Some (- 1, s2)
                 else
                   (case printf ''>'' s2 of
                      (r, s3) \<Rightarrow>
                        if r < 0 then Some (- 1, s3)
                        else
                          (case print_fields stat_fields stats s3 of
                             (r, s4) \<Rightarrow>
                               if r \<noteq> 0 then Some (- 1, s4)
                               else
                                 (case printf (''</thread>'' @ [CHR 0x0A]) s4 of
                                    (r, s5) \<Rightarrow> Some (if r < 0 then - 1 else 0, s5))))))"

text \<open>The whole of \<open>destroy_evhandler\<close>, with its output.\<close>

definition destroy_evhandler_stats :: "torque_ctx \<Rightarrow> evthreadstats \<Rightarrow> sysst \<Rightarrow> sysst option" where
  "destroy_evhandler_stats ctx stats s = map_option (\<lambda>(_, s'). destroy_evhandler s') (print_evstats ctx stats s)"

section \<open>One thread\<close>

definition EDEADLK :: nat where [simp]: "EDEADLK = 35"

text \<open>What a thread hands to the one that joins it.\<close>

datatype thread_result = Exit_canceled | Exit_null | Exit_joined int

text \<open>\<open>getrusage\<close> stores the user and system times (seconds, microseconds) and the context switches, in this order.\<close>

definition ru_field :: "nat \<Rightarrow> sysret \<Rightarrow> int" where
  "ru_field k a = (if k < length (revents a) then fst (revents a ! k) else 0)"

definition store_rusage :: "sysret \<Rightarrow> evthreadstats \<Rightarrow> evthreadstats" where
  "store_rusage ru stats =
     stats\<lparr>st_utimeus := word_of_int (ru_field 0 ru * 1000000 + ru_field 1 ru),
          st_stimeus := word_of_int (ru_field 2 ru * 1000000 + ru_field 3 ru),
          st_vctxsw := word_of_int (ru_field 4 ru), st_ictxsw := word_of_int (ru_field 5 ru)\<rparr>"

text \<open>
  The result is the thread's exit, or \<open>None\<close> inside when the function returns to its caller.
\<close>

definition rxcommonsignal ::
  "nat \<Rightarrow> torque_ctx \<Rightarrow> nat \<Rightarrow> evthreadstats \<Rightarrow> sysst \<Rightarrow> (thread_result option \<times> sysst) option" where
  "rxcommonsignal sig ctx tid stats s =
     (if sig = SIGTERM \<or> sig = SIGINT then
        (case ctx_nexttid ctx tid of
           None \<Rightarrow> None
         | Some nx \<Rightarrow>
             (case sys_int (Sys_pthread ''kill'') s of
                (_, s1) \<Rightarrow>
              case sys_call (Sys_join nx) s1 of
                (a, s2) \<Rightarrow>
              case sys_call Sys_getrusage s2 of
                (ru, s3) \<Rightarrow>
                  let ret = (if rv a = 0 then Exit_joined (rout a)
                             else if rv a \<noteq> int EDEADLK then Exit_null else Exit_canceled)
                  in (case destroy_evhandler_stats ctx (store_rusage ru stats) s3 of
                        None \<Rightarrow> None
                      | Some s4 \<Rightarrow> Some (Some ret, s4))))
      else Some (None, s))"

text \<open>What was written, in order.\<close>

fun printed_text :: "syscall \<Rightarrow> string" where
  "printed_text (Sys_printf t) = t"
| "printed_text _ = []"

definition printed :: "sysst \<Rightarrow> string" where
  "printed s = concat (map printed_text (calls s))"

definition stats_text :: "evthreadstats \<Rightarrow> string" where
  "stats_text stats = concat [stat_text f p (get stats). (f, p, get) \<leftarrow> stat_fields, get stats \<noteq> 0]"

lemma printf_printed: "printf t s = (r, s') \<Longrightarrow> printed s' = printed s @ t"
  by (auto simp: printf_def sys_int_def printed_def split: prod.splits dest!: sys_call_calls)

lemma print_fields_printed:
  "print_fields fs stats s = (0, s') \<Longrightarrow>
     printed s' = printed s @ concat [stat_text f p (get stats). (f, p, get) \<leftarrow> fs, get stats \<noteq> 0]"
  by (induction fs stats s rule: print_fields.induct)
    (auto split: prod.splits if_splits dest!: printf_printed)

lemma get_thread_aid_printed: "get_thread_aid s = (aid, s') \<Longrightarrow> printed s' = printed s"
  by (auto simp: get_thread_aid_def printed_def Let_def split: prod.splits if_splits dest!: sys_call_calls)

lemma print_evstats_printed:
  assumes "print_evstats ctx stats s = Some (0, s')"
  shows "\<exists>aid d. lookup_type (ctx_sched_zone ctx) aid = Some (Some d) \<and> d < ctx_cpu_typecount ctx \<and>
    printed s' = printed s @ ''<thread aid=\"'' @ dec_string aid @ ''\" cputype=\"'' @ dec_string d @ ''\">'' @
      stats_text stats @ ''</thread>'' @ [CHR 0x0A]"
proof -
  obtain r1 s1 where 1: "printf ''<thread '' s = (r1, s1)" by (cases rule: prod.exhaust)
  then obtain s2 where 2: "print_evthread ctx s1 = Some (0, s2)"
    using assms by (auto simp: print_evstats_def split: option.splits prod.splits if_splits)
  obtain r3 s3 where 3: "printf ''>'' s2 = (r3, s3)" by (cases rule: prod.exhaust)
  then obtain s4 where 4: "print_fields stat_fields stats s3 = (0, s4)"
    using assms 1 2 by (auto simp: print_evstats_def split: prod.splits if_splits)
  obtain r5 where 5: "printf (''</thread>'' @ [CHR 0x0A]) s4 = (r5, s')"
    using assms 1 2 3 4 by (auto simp: print_evstats_def split: prod.splits if_splits)
  obtain aid d where d: "lookup_type (ctx_sched_zone ctx) aid = Some (Some d)" "d < ctx_cpu_typecount ctx"
    and p: "printed s2 = printed s1 @ ''aid=\"'' @ dec_string aid @ ''\" cputype=\"'' @ dec_string d @ ''\"''"
    using 2 by (auto simp: print_evthread_def split: prod.splits option.splits if_splits
        dest!: get_thread_aid_printed printf_printed)
  show ?thesis
    using d p printf_printed [OF 1] printf_printed [OF 3] print_fields_printed [OF 4] printf_printed [OF 5]
    by (intro exI [of _ aid] exI [of _ d]) (simp add: stats_text_def)
qed

section \<open>All threads\<close>

text \<open>
  A thread waits for events; has read the signal; has passed it on; waits for the next thread;
  has exited. The caller of \<open>torque_stop\<close> has to send the signal to the process; has to join; waits; has
  returned from joining.
\<close>

datatype tmode = T_running | T_signalled | T_killed | T_joining | T_exited
datatype mmode = M_kill | M_join | M_waiting | M_done

text \<open>
  The signal is pending for single threads and for the process, which any one thread may
  read; \<open>r_claimed\<close> holds the threads that somebody joins or has joined, which nobody else can.
\<close>

record ring =
  r_mode :: "nat \<Rightarrow> tmode"
  r_main :: mmode
  r_pending :: "nat set"
  r_process :: bool
  r_claimed :: "nat set"

definition ring_start :: ring where
  "ring_start = \<lparr>r_mode = (\<lambda>_. T_running), r_main = M_kill, r_pending = {}, r_process = False, r_claimed = {}\<rparr>"

definition set_mode :: "nat \<Rightarrow> tmode \<Rightarrow> ring \<Rightarrow> ring" where
  "set_mode t m r = r\<lparr>r_mode := (r_mode r)(t := m)\<rparr>"

text \<open>
  The threads \<open>T\<close> with their \<open>nexttid\<close> \<open>nx\<close>; the caller joins \<open>first\<close>. When \<open>pthread_join\<close> reports a deadlock
  is up to the system: \<open>detects\<close>.
\<close>

inductive shutdown :: "nat set \<Rightarrow> (nat \<Rightarrow> nat) \<Rightarrow> nat \<Rightarrow> (ring \<Rightarrow> nat \<Rightarrow> bool) \<Rightarrow> ring \<Rightarrow> ring \<Rightarrow> bool"
  for T nx first detects where
  main_kill: "r_main r = M_kill \<Longrightarrow> shutdown T nx first detects r (r\<lparr>r_process := True, r_main := M_join\<rparr>)"
| main_join: "r_main r = M_join \<Longrightarrow> first \<notin> r_claimed r \<Longrightarrow>
    shutdown T nx first detects r (r\<lparr>r_claimed := insert first (r_claimed r), r_main := M_waiting\<rparr>)"
| main_refused: "r_main r = M_join \<Longrightarrow> first \<in> r_claimed r \<Longrightarrow> shutdown T nx first detects r (r\<lparr>r_main := M_done\<rparr>)"
| main_joined: "r_main r = M_waiting \<Longrightarrow> r_mode r first = T_exited \<Longrightarrow>
    shutdown T nx first detects r (r\<lparr>r_main := M_done\<rparr>)"
| read_process: "t \<in> T \<Longrightarrow> r_mode r t = T_running \<Longrightarrow> r_process r \<Longrightarrow>
    shutdown T nx first detects r (set_mode t T_signalled (r\<lparr>r_process := False\<rparr>))"
| read_own: "t \<in> T \<Longrightarrow> r_mode r t = T_running \<Longrightarrow> t \<in> r_pending r \<Longrightarrow>
    shutdown T nx first detects r (set_mode t T_signalled (r\<lparr>r_pending := r_pending r - {t}\<rparr>))"
| kill_next: "t \<in> T \<Longrightarrow> r_mode r t = T_signalled \<Longrightarrow>
    shutdown T nx first detects r (set_mode t T_killed (r\<lparr>r_pending := insert (nx t) (r_pending r)\<rparr>))"
| join_deadlock: "t \<in> T \<Longrightarrow> r_mode r t = T_killed \<Longrightarrow> detects r t \<Longrightarrow>
    shutdown T nx first detects r (set_mode t T_exited r)"
| join_refused: "t \<in> T \<Longrightarrow> r_mode r t = T_killed \<Longrightarrow> \<not> detects r t \<Longrightarrow> nx t \<in> r_claimed r \<Longrightarrow>
    shutdown T nx first detects r (set_mode t T_exited r)"
| join_wait: "t \<in> T \<Longrightarrow> r_mode r t = T_killed \<Longrightarrow> \<not> detects r t \<Longrightarrow> nx t \<notin> r_claimed r \<Longrightarrow>
    shutdown T nx first detects r (set_mode t T_joining (r\<lparr>r_claimed := insert (nx t) (r_claimed r)\<rparr>))"
| join_done: "t \<in> T \<Longrightarrow> r_mode r t = T_joining \<Longrightarrow> r_mode r (nx t) = T_exited \<Longrightarrow>
    shutdown T nx first detects r (set_mode t T_exited r)"

text \<open>
  Two systems: one that notices every circle of waiting threads, as the code expects, and one
  that only notices two threads that wait for each other or one that joins itself.
\<close>

definition detects_circles :: "nat \<Rightarrow> (nat \<Rightarrow> nat) \<Rightarrow> ring \<Rightarrow> nat \<Rightarrow> bool" where
  "detects_circles n nx r t \<longleftrightarrow>
     (\<exists>k<n. (nx ^^ k) (nx t) = t \<and> (\<forall>j<k. r_mode r ((nx ^^ j) (nx t)) = T_joining))"

definition detects_pairs :: "(nat \<Rightarrow> nat) \<Rightarrow> ring \<Rightarrow> nat \<Rightarrow> bool" where
  "detects_pairs nx r t \<longleftrightarrow> nx t = t \<or> nx (nx t) = t \<and> r_mode r (nx t) = T_joining"

definition is_circle :: "nat set \<Rightarrow> (nat \<Rightarrow> nat) \<Rightarrow> bool" where
  "is_circle T nx \<longleftrightarrow> finite T \<and> T \<noteq> {} \<and> nx ` T \<subseteq> T \<and> (\<forall>t\<in>T. \<forall>u\<in>T. \<exists>k<card T. (nx ^^ k) t = u)"

lemma set_mode_simps [simp]:
  "r_mode (set_mode t m r) = (r_mode r)(t := m)" "r_main (set_mode t m r) = r_main r"
  "r_pending (set_mode t m r) = r_pending r" "r_process (set_mode t m r) = r_process r"
  "r_claimed (set_mode t m r) = r_claimed r"
  by (simp_all add: set_mode_def)

lemma circle_reach: "is_circle T nx \<Longrightarrow> t \<in> T \<Longrightarrow> u \<in> T \<Longrightarrow> \<exists>k<card T. (nx ^^ k) t = u"
  unfolding is_circle_def by blast

lemma circle_boundary:
  assumes "is_circle T nx" "t \<in> T" "u \<in> T" "P t" "\<not> P u"
  shows "\<exists>v\<in>T. P v \<and> \<not> P (nx v)"
proof (rule ccontr)
  assume no: "\<not> ?thesis"
  have "(nx ^^ k) t \<in> T \<and> P ((nx ^^ k) t)" for k
    by (induction k) (use assms no in \<open>auto simp: is_circle_def\<close>)
  moreover obtain k where "(nx ^^ k) t = u" using circle_reach [OF assms(1-3)] by blast
  ultimately show False using assms(5) by metis
qed

section \<open>Progress\<close>

definition ring_inv :: "nat set \<Rightarrow> (nat \<Rightarrow> nat) \<Rightarrow> ring \<Rightarrow> bool" where
  "ring_inv T nx r \<longleftrightarrow>
     (\<forall>t\<in>T. r_mode r t \<in> {T_killed, T_joining, T_exited} \<longrightarrow> nx t \<in> r_pending r \<or> r_mode r (nx t) \<noteq> T_running) \<and>
     (r_main r \<noteq> M_kill \<longrightarrow> r_process r \<or> (\<exists>t\<in>T. r_mode r t \<noteq> T_running)) \<and>
     (\<exists>t\<in>T. r_mode r t \<noteq> T_joining)"

lemma ring_inv_start: "T \<noteq> {} \<Longrightarrow> ring_inv T nx ring_start"
  by (auto simp: ring_inv_def ring_start_def)

text \<open>When all other threads wait, the next join closes a circle, which is noticed.\<close>

lemma last_join_detected:
  assumes "is_circle T nx" "t \<in> T" "\<forall>u\<in>T - {t}. r_mode r u = T_joining"
  shows "detects_circles (card T) nx r t"
proof -
  have nt: "nx t \<in> T" using assms by (auto simp: is_circle_def)
  then obtain k where k: "k < card T" "(nx ^^ k) (nx t) = t" using circle_reach [OF assms(1) nt assms(2)] by blast
  define m where "m = (LEAST k. (nx ^^ k) (nx t) = t)"
  have m: "(nx ^^ m) (nx t) = t" "m \<le> k"
    unfolding m_def using k(2) by (rule LeastI, rule Least_le)
  have "(nx ^^ j) (nx t) \<in> T - {t}" if "j < m" for j
  proof -
    have "(nx ^^ j) (nx t) \<in> T" by (induction j) (use nt assms(1) in \<open>auto simp: is_circle_def\<close>)
    moreover have "(nx ^^ j) (nx t) \<noteq> t" using not_less_Least [OF that [unfolded m_def]] .
    ultimately show ?thesis by simp
  qed
  then show ?thesis using m k assms(3) unfolding detects_circles_def by (intro exI [of _ m]) auto
qed

lemma ring_inv_step:
  assumes "shutdown T nx first (detects_circles (card T) nx) r r'" "ring_inv T nx r" "is_circle T nx"
  shows "ring_inv T nx r'"
  using assms(1)
proof cases
  case (join_wait t)
  have "\<exists>u\<in>T. u \<noteq> t \<and> r_mode r u \<noteq> T_joining"
    using last_join_detected [OF assms(3) join_wait(2)] join_wait(4) by blast
  then show ?thesis using join_wait assms(2) by (auto simp: ring_inv_def)
qed (use assms(2) in \<open>auto simp: ring_inv_def split: if_splits\<close>)

lemma ring_stuck_done:
  assumes inv: "ring_inv T nx r" and c: "is_circle T nx" and first: "first \<in> T"
    and stuck: "\<And>r'. \<not> shutdown T nx first detects r r'"
  shows "r_main r = M_done \<and> (\<forall>t\<in>T. r_mode r t = T_exited)"
proof -
  have main: "r_main r = M_waiting \<or> r_main r = M_done"
    using stuck shutdown.main_kill shutdown.main_join shutdown.main_refused by (metis mmode.exhaust)
  have no_sig: "r_mode r t \<noteq> T_signalled" "r_mode r t \<noteq> T_killed" if "t \<in> T" for t
    using stuck shutdown.kill_next [OF that] shutdown.join_deadlock [OF that] shutdown.join_refused [OF that]
      shutdown.join_wait [OF that] by metis+
  have no_read: "\<not> (t \<in> T \<and> r_mode r t = T_running \<and> (r_process r \<or> t \<in> r_pending r))" for t
    using stuck shutdown.read_process shutdown.read_own by metis
  have left: "r_mode r t \<noteq> T_running" if tT: "t \<in> T" for t
  proof
    assume run: "r_mode r t = T_running"
    then have "\<exists>u\<in>T. r_mode r u \<noteq> T_running" using inv main no_read [of t] tT by (auto simp: ring_inv_def)
    then obtain v where v: "v \<in> T" "r_mode r v \<noteq> T_running" "r_mode r (nx v) = T_running"
      using circle_boundary [OF c _ tT, of _ "\<lambda>t. r_mode r t \<noteq> T_running"] run by auto
    moreover have "nx v \<in> T" using v c by (auto simp: is_circle_def)
    ultimately have "r_mode r v = T_signalled"
      using inv no_read [of "nx v"] by (cases "r_mode r v") (auto simp: ring_inv_def)
    then show False using no_sig v by blast
  qed
  have ex: "r_mode r t = T_exited" if tT: "t \<in> T" for t
  proof (rule ccontr)
    assume "r_mode r t \<noteq> T_exited"
    then have j: "r_mode r t = T_joining" using left [OF tT] no_sig [OF tT] by (cases "r_mode r t") auto
    obtain u where "u \<in> T" "r_mode r u \<noteq> T_joining" using inv by (auto simp: ring_inv_def)
    then obtain v where v: "v \<in> T" "r_mode r v = T_joining" "r_mode r (nx v) \<noteq> T_joining"
      using circle_boundary [OF c tT, of u "\<lambda>t. r_mode r t = T_joining"] j by auto
    moreover have "nx v \<in> T" using v c by (auto simp: is_circle_def)
    ultimately have "r_mode r (nx v) = T_exited" using left no_sig by (cases "r_mode r (nx v)") auto
    then show False using stuck shutdown.join_done v by metis
  qed
  then show ?thesis using main stuck shutdown.main_joined first by metis
qed

text \<open>Every step takes one thread, or the caller, forward.\<close>

fun mode_left :: "tmode \<Rightarrow> nat" where
  "mode_left T_running = 4"
| "mode_left T_signalled = 3"
| "mode_left T_killed = 2"
| "mode_left T_joining = 1"
| "mode_left T_exited = 0"

fun main_left :: "mmode \<Rightarrow> nat" where
  "main_left M_kill = 3"
| "main_left M_join = 2"
| "main_left M_waiting = 1"
| "main_left M_done = 0"

definition ring_left :: "nat set \<Rightarrow> ring \<Rightarrow> nat" where
  "ring_left T r = main_left (r_main r) + (\<Sum>t\<in>T. mode_left (r_mode r t))"

lemma sum_mode_less:
  assumes "finite T" "t \<in> T" "mode_left m < mode_left (f t)"
  shows "(\<Sum>u\<in>T. mode_left (if u = t then m else f u)) < (\<Sum>u\<in>T. mode_left (f u))"
  using assms by (intro sum_strict_mono_ex1) auto

lemma ring_left_less: "shutdown T nx first detects r r' \<Longrightarrow> finite T \<Longrightarrow> ring_left T r' < ring_left T r"
  by (induction rule: shutdown.induct) (auto simp: ring_left_def intro!: sum_mode_less)

interpretation ring: step_bounded "shutdown T nx first (detects_circles (card T) nx)"
  "\<lambda>r. is_circle T nx \<and> ring_inv T nx r" "ring_left T" for T nx first
  by unfold_locales (auto simp: is_circle_def intro: ring_inv_step ring_left_less)

section \<open>Properties\<close>

lemma thread_ring_circle:
  assumes "thread_ring ctx ts" "ts \<noteq> []"
  shows "is_circle (set ts) (next_thread ctx)" "ctx_ev ctx = Some (hd ts)" "next_thread ctx (hd ts) \<in> set ts"
proof -
  have "next_thread ctx (ts ! i) \<in> set ts" if "i < length ts" for i
  proof -
    have "Suc i mod length ts < length ts" using that by (intro mod_less_divisor) linarith
    then show ?thesis using ring_iterate [OF assms(1) that, of 1] by simp
  qed
  then have "next_thread ctx t \<in> set ts" if "t \<in> set ts" for t using that by (metis in_set_conv_nth)
  moreover have "card (set ts) = length ts" using assms(1) by (simp add: thread_ring_def distinct_card)
  moreover have "\<forall>t\<in>set ts. \<forall>u\<in>set ts. \<exists>k<length ts. (next_thread ctx ^^ k) t = u" using ring_covers [OF assms(1)] by auto
  ultimately show "is_circle (set ts) (next_thread ctx)" "next_thread ctx (hd ts) \<in> set ts"
    using assms(2) by (auto simp: is_circle_def)
  show "ctx_ev ctx = Some (hd ts)" using assms by (cases ts) (simp_all add: thread_ring_def)
qed

lemma circle_run:
  assumes c: "is_circle T nx" and first: "first \<in> T"
    and run: "(shutdown T nx first (detects_circles (card T) nx) ^^ k) ring_start r"
  shows "k \<le> 4 * card T + 3 \<and> ((\<exists>r'. shutdown T nx first (detects_circles (card T) nx) r r') \<or>
    r_main r = M_done \<and> (\<forall>t\<in>T. r_mode r t = T_exited))"
proof -
  have start: "is_circle T nx \<and> ring_inv T nx ring_start" using c by (auto simp: is_circle_def intro: ring_inv_start)
  have "ring_left T ring_start = 4 * card T + 3" by (simp add: ring_left_def ring_start_def)
  then have "k \<le> 4 * card T + 3" using ring.run_length [OF run start] by simp
  moreover have "ring_inv T nx r" using ring.run_keeps [OF run start] by simp
  ultimately show ?thesis using ring_stuck_done [OF _ c first] by blast
qed



text \<open>
  Fact: the code relies on the error \<open>EDEADLK\<close> for every circle. On a system that only notices two
  threads waiting for each other, three threads can end up waiting in a circle, none of them
  exited, after the caller of \<open>torque_stop\<close> has gone on to release the context they use.
\<close>

theorem shutdown_circle_of_three:
  assumes "ctx = fold link_thread [7, 8, 9] zero_ctx" "nx = next_thread ctx"
    and "step = shutdown {7, 8, 9} nx (nx 7) (detects_pairs nx)"
  shows "ctx_ev ctx = Some 7 \<and> (\<exists>r. step\<^sup>*\<^sup>* ring_start r \<and> r_main r = M_done \<and>
    (\<forall>t\<in>{7, 8, 9}. r_mode r t = T_joining) \<and> (\<forall>r'. \<not> step r r'))"
proof -
  have ev: "ctx_ev ctx = Some 7" and nx: "nx 7 = 9" "nx 9 = 8" "nx 8 = 7"
    using assms(1,2) by (simp_all add: zero_ctx_def link_thread_def next_thread_def)
  have st: "step = shutdown {7, 8, 9} nx 9 (detects_pairs nx)" using assms(3) nx by simp
  have one: "\<exists>r'. step\<^sup>*\<^sup>* ring_start r' \<and> r_main r' = M_join \<and> r_mode r' = (r_mode r)(t := T_joining) \<and>
      r_pending r' = insert (nx t) (r_pending r - {t}) \<and> r_process r' = False \<and> r_claimed r' = insert (nx t) (r_claimed r)"
    if "step\<^sup>*\<^sup>* ring_start r" "r_main r = M_join" "r_mode r t = T_running" "t \<in> {7, 8, 9}" "nx t \<notin> r_claimed r"
      "r_process r \<and> t \<notin> r_pending r \<or> \<not> r_process r \<and> t \<in> r_pending r" for r t
  proof -
    let ?a = "set_mode t T_signalled (if r_process r then r\<lparr>r_process := False\<rparr> else r\<lparr>r_pending := r_pending r - {t}\<rparr>)"
    let ?b = "set_mode t T_killed (?a\<lparr>r_pending := insert (nx t) (r_pending ?a)\<rparr>)"
    let ?c = "set_mode t T_joining (?b\<lparr>r_claimed := insert (nx t) (r_claimed ?b)\<rparr>)"
    have "step r ?a" using that st shutdown.read_process [of t "{7, 8, 9}" r] shutdown.read_own [of t "{7, 8, 9}" r] by auto
    moreover have "step ?a ?b" using that st shutdown.kill_next [of t "{7, 8, 9}" ?a] by auto
    moreover have "step ?b ?c"
      using that st nx shutdown.join_wait [of t "{7, 8, 9}" ?b "detects_pairs nx" nx 9]
      by (auto simp: detects_pairs_def)
    ultimately have "step\<^sup>*\<^sup>* ring_start ?c" using that(1) by (meson rtranclp.rtrancl_into_rtrancl)
    then show ?thesis using that by (intro exI [of _ ?c]) auto
  qed
  have "step ring_start (ring_start\<lparr>r_process := True, r_main := M_join\<rparr>)"
    using shutdown.main_kill [of ring_start "{7, 8, 9}" nx 9 "detects_pairs nx"] st by (simp add: ring_start_def)
  then obtain r1 where r1: "step\<^sup>*\<^sup>* ring_start r1" "r_main r1 = M_join" "r_mode r1 = (\<lambda>_. T_running)(7 := T_joining)"
    "r_pending r1 = {9}" "r_process r1 = False" "r_claimed r1 = {9}"
    using one [of "ring_start\<lparr>r_process := True, r_main := M_join\<rparr>" 7] nx by (auto simp: ring_start_def)
  obtain r2 where r2: "step\<^sup>*\<^sup>* ring_start r2" "r_main r2 = M_join" "r_mode r2 = (r_mode r1)(9 := T_joining)"
    "r_pending r2 = {8}" "r_process r2 = False" "r_claimed r2 = {8, 9}"
    using one [of r1 9] r1 nx by auto
  obtain r3 where r3: "step\<^sup>*\<^sup>* ring_start r3" "r_main r3 = M_join" "r_mode r3 = (r_mode r2)(8 := T_joining)"
    "r_claimed r3 = {7, 8, 9}" "r_process r3 = False"
    using one [of r2 8] r1 r2 nx by auto
  let ?r = "r3\<lparr>r_main := M_done\<rparr>"
  have "step r3 ?r" using r3 st by (simp add: shutdown.main_refused)
  then have "step\<^sup>*\<^sup>* ring_start ?r" using r3(1) by simp
  moreover have modes: "r_mode ?r 7 = T_joining" "r_mode ?r 8 = T_joining" "r_mode ?r 9 = T_joining"
    using r1(3) r2(3) r3(3) by simp_all
  moreover have "\<not> step ?r r'" for r'
    using modes nx unfolding st by (auto elim!: shutdown.cases)
  ultimately show ?thesis using ev by auto
qed

theorem shutdown_circle_of_three_witness:
  "\<exists>r :: ring. r_main r = M_done \<and> (\<forall>t\<in>{7, 8, 9}. r_mode r t = T_joining)"
  using shutdown_circle_of_three [OF refl refl refl] by (elim conjE exE) (intro exI conjI, assumption+)

text \<open>
  Fact: the statistics that a thread prints when it ends. When the output succeeds it is one element with the
  number of the thread's processor and of its type, and in it each statistic that is not
  zero, in the order of their list, in decimal (the stack's address in hexadecimal); numbers so printed
  are read back as they were.
\<close>

theorem stats_printed:
  assumes "print_evstats ctx stats s = Some (0, s')"
  shows "(\<exists>aid d. lookup_type (ctx_sched_zone ctx) aid = Some (Some d) \<and> d < ctx_cpu_typecount ctx \<and>
      printed s' = printed s @ ''<thread aid=\"'' @ dec_string aid @ ''\" cputype=\"'' @ dec_string d @ ''\">'' @
        stats_text stats @ ''</thread>'' @ [CHR 0x0A]) \<and>
    (\<forall>n. parse_radix 10 (dec_string n) = n \<and> parse_radix 16 (hex_string n) = n)"
  using print_evstats_printed [OF assms] by (simp add: parse_radix_string)

definition sample_zone :: torque_ctx where
  "sample_zone = zero_ctx\<lparr>ctx_sched_zone := [Zone {0} 0 0 []], ctx_cpu_typecount := 1, ctx_cpudescs := [zero_cput]\<rparr>"

theorem stats_printed_witness:
  "\<exists>s'. print_evstats sample_zone (zero_stats\<lparr>st_rounds := 12\<rparr>) (os_answering [ok_ret, zero_ret\<lparr>rset := {0}\<rparr>, ok_ret, ok_ret, ok_ret, ok_ret]) =
     Some (0, s') \<and> printed s' \<noteq> []"
proof -
  let ?s = "os_answering [ok_ret, zero_ret\<lparr>rset := {0}\<rparr>, ok_ret, ok_ret, ok_ret, ok_ret]"
  obtain s' where run: "print_evstats sample_zone (zero_stats\<lparr>st_rounds := 12\<rparr>) ?s = Some (0, s')"
    by (simp add: print_evstats_def print_evthread_def get_thread_aid_def scan_aid.simps [of _ 0] printf_def sample_zone_def
        stat_fields_def zero_stats_def io_simps Let_def)
  from stats_printed [OF run] run show ?thesis by auto
qed

end
