(* ===== verification/Evqueue.thy ===== *)
theory Evqueue
  imports Events
begin

text \<open>
  The event queue, \<^verbatim>\<open>src/src/libtorque/events/evq.c\<close>, the common signal sources and the
  epoll descriptor of \<^verbatim>\<open>src/src/libtorque/events/thread.c\<close>, and the resolver glue of
  \<^verbatim>\<open>src/src/libtorque/protos/dns.c\<close>. The adns library answers like the operating system;
  \<open>adns_beforepoll\<close> stores the descriptors it wants polled.
\<close>

section \<open>The resolver\<close>

definition torque_dns_init :: "sysst \<Rightarrow> int \<times> sysst" where
  "torque_dns_init s = (case sys_int (Sys_adns ''init'') s of (r, s') \<Rightarrow> (if r \<noteq> 0 then - 1 else 0, s'))"

definition torque_dns_shutdown :: "sysst \<Rightarrow> sysst" where
  "torque_dns_shutdown s = sys_note (Sys_adns ''finish'') s"

definition POLLOUT :: u32 where "POLLOUT = 0x4"
definition POLLIN_PRI :: u32 where "POLLIN_PRI = 0x3" \<comment> \<open>\<open>POLLIN | POLLPRI\<close>\<close>

fun load_dns_loop :: "torque_ctx \<Rightarrow> (int \<times> u32) list \<Rightarrow> sysst \<Rightarrow> (torque_ctx \<times> sysst) option" where
  "load_dns_loop ctx [] s = Some (ctx, s)"
| "load_dns_loop ctx ((fd, ev) # pfds) s =
     (case add_fd_to_evhandler ctx fd
             (if ev AND POLLIN_PRI \<noteq> 0 then Some Cb_adns_rx_callback else None)
             (if ev AND POLLOUT \<noteq> 0 then Some Cb_adns_tx_callback else None) Ptr_dns EVONESHOT s of
        None \<Rightarrow> None
      | Some (_, ctx', s') \<Rightarrow> load_dns_loop ctx' pfds s')"

definition load_dns_fds :: "torque_ctx \<Rightarrow> sysst \<Rightarrow> (int \<times> torque_ctx \<times> sysst) option" where
  "load_dns_fds ctx s =
     (case sys_call (Sys_adns ''beforepoll'') s of
        (a, s1) \<Rightarrow>
          if rv a \<noteq> 0 then Some (- 1, ctx, s1)
          else
            (case load_dns_loop ctx (rev (take 4 (revents a))) s1 of
               None \<Rightarrow> None
             | Some (ctx', s2) \<Rightarrow> Some (0, ctx', s2)))"

fun restore_dns_loop :: "(int \<times> u32) list \<Rightarrow> int \<Rightarrow> sysst \<Rightarrow> int \<times> sysst" where
  "restore_dns_loop [] ret s = (ret, s)"
| "restore_dns_loop ((fd, ev) # pfds) ret s =
     (case restorefd fd ((if ev AND POLLIN_PRI \<noteq> 0 then EVREAD else 0) OR
                         (if ev AND POLLOUT \<noteq> 0 then EVWRITE else 0)) s of
        (r, s') \<Rightarrow> restore_dns_loop pfds (ret OR r) s')"

definition restore_dns_fds :: "sysst \<Rightarrow> int \<times> sysst" where
  "restore_dns_fds s =
     (case sys_call (Sys_adns ''beforepoll'') s of
        (a, s1) \<Rightarrow>
          if rv a \<noteq> 0 then (- 1, s1) else restore_dns_loop (rev (take 4 (revents a))) 0 s1)"

record dnsmarshal =
  dm_cb :: nat
  dm_cbstate :: nat

type_synonym dns_heap = "nat \<rightharpoonup> dnsmarshal"

definition create_dnsmarshal :: "nat \<Rightarrow> nat \<Rightarrow> dns_heap \<Rightarrow> sysst \<Rightarrow> nat option \<times> dns_heap \<times> sysst" where
  "create_dnsmarshal cb cbstate h s =
     (case sys_ptr (Sys_malloc ''dnsmarshal'') s of
        (None, s') \<Rightarrow> (None, h, s')
      | (Some p, s') \<Rightarrow> (Some p, h(p \<mapsto> \<lparr>dm_cb = cb, dm_cbstate = cbstate\<rparr>), s'))"

text \<open>
  The loop over finished queries: \<open>adns_check\<close> returns 0 with the context pointer of
  one of them. The trace lists the client callbacks; each marshal is freed after use.
\<close>

function adns_check_loop :: "dns_heap \<Rightarrow> sysst \<Rightarrow> ((nat \<times> nat) list \<times> dns_heap \<times> sysst) option" where
  "adns_check_loop h s =
     (case sys_call (Sys_adns ''check'') s of
        (a, s1) \<Rightarrow>
          if rv a \<noteq> 0 then Some ([], h, s1)
          else
            (case h (nat (rout a)) of
               None \<Rightarrow> None
             | Some ds \<Rightarrow>
                 (case adns_check_loop (h(nat (rout a) := None))
                         (sys_note (Sys_free ''answer'') (sys_note (Sys_free ''dnsmarshal'') s1)) of
                    None \<Rightarrow> None
                  | Some (rest, h', s') \<Rightarrow> Some ((dm_cb ds, dm_cbstate ds) # rest, h', s'))))"
  by pat_completeness auto
termination
proof (relation "measure (\<lambda>(h, s). length (answers s))", goal_cases)
  case (2 h s a s1 ds)
  then have e: "sys_call (Sys_adns ''check'') s = (a, s1)" "rv a = 0" by simp_all
  then have "answers s \<noteq> []" by (auto simp: sys_call_def failed_ret_def)
  moreover have "answers s1 = tl (answers s)" using sys_call_answers(1) [OF e(1)] .
  ultimately show ?case by (simp add: sys_note_def)
qed simp

declare adns_check_loop.simps [simp del]

definition adns_rx_callback :: "dns_heap \<Rightarrow> sysst \<Rightarrow> ((nat \<times> nat) list \<times> dns_heap \<times> sysst) option" where
  "adns_rx_callback h s =
     (case sys_int (Sys_adns ''processany'') s of
        (r, s1) \<Rightarrow>
          if r \<noteq> 0 then Some ([], h, s1)
          else
            (case adns_check_loop h s1 of
               None \<Rightarrow> None
             | Some (cbs, h', s2) \<Rightarrow> Some (cbs, h', snd (restore_dns_fds s2))))"

text \<open>The result of \<open>gettimeofday\<close> is not used, nor is that of \<open>adns_afterpoll\<close>, which is told that the descriptor is writable.\<close>

definition adns_tx_callback :: "sysst \<Rightarrow> sysst" where
  "adns_tx_callback s = snd (sys_call (Sys_adns ''afterpoll'') (snd (sys_call (Sys_libc ''gettimeofday'') s)))"

section \<open>Common sources\<close>

text \<open>The library function of this name: \<open>None\<close> where it fails.\<close>

definition sigaddset :: "nat set \<Rightarrow> nat \<Rightarrow> nat set option" where
  "sigaddset ss n = (if 1 \<le> n \<and> n \<le> 64 then Some (insert n ss) else None)"

definition prep_common_sigset :: "nat set option" where
  "prep_common_sigset = Option.bind (sigaddset {} SIGTERM) (\<lambda>s. sigaddset s SIGINT)"

lemma prep_common_sigset_eq [simp]: "prep_common_sigset = Some {SIGTERM, SIGINT}"
  by (simp add: prep_common_sigset_def sigaddset_def insert_commute)

definition initialize_common_sources :: "torque_ctx \<Rightarrow> sysst \<Rightarrow> (int \<times> torque_ctx \<times> sysst) option" where
  "initialize_common_sources ctx s =
     (let evt = ctx_eventtables ctx in
      if SIGTERM \<ge> sigarraysize evt \<or> SIGINT \<ge> sigarraysize evt then Some (- 1, ctx, s)
      else
        (case prep_common_sigset of
           None \<Rightarrow> Some (- 1, ctx, s)
         | Some ss \<Rightarrow>
         case sys_int (Sys_signalfd ss) s of
           (fd, s1) \<Rightarrow>
             if fd < 0 then Some (- 1, ctx\<lparr>ctx_eventtables := evt\<lparr>common_signalfd := fd\<rparr>\<rparr>, s1)
             else
               (case setup_evsource (fdarray evt) (nat fd) (Some Cb_signalfd_demultiplexer) None Ptr_ctx of
                  None \<Rightarrow> None
                | Some fds \<Rightarrow>
               case setup_evsource (sigarray evt) SIGTERM (Some Cb_rxcommonsignal) None Ptr_ctx of
                  None \<Rightarrow> None
                | Some sigs1 \<Rightarrow>
               case setup_evsource sigs1 SIGINT (Some Cb_rxcommonsignal) None Ptr_ctx of
                  None \<Rightarrow> None
                | Some sigs2 \<Rightarrow>
                    let ctx' = ctx\<lparr>ctx_eventtables :=
                          evt\<lparr>common_signalfd := fd, fdarray := fds, sigarray := sigs2\<rparr>\<rparr>
                    in case init_signal_handlers s1 of
                         (r, s2) \<Rightarrow> Some (if r \<noteq> 0 then - 1 else 0, ctx', s2))))"

section \<open>The queue\<close>

definition create_efd :: "sysst \<Rightarrow> int \<times> sysst" where
  "create_efd s =
     (case sys_int Sys_epoll_create s of (fd, s') \<Rightarrow> (if fd < 0 then - 1 else fd, s'))"

definition add_commonfds_to_evhandler :: "int \<Rightarrow> torque_ctx \<Rightarrow> sysst \<Rightarrow> int \<times> sysst" where
  "add_commonfds_to_evhandler fd ctx s =
     (if fd < 0 then (- 1, s)
      else
        (case Kevent (efd (ctx_evq ctx)) [(''ADD'', fd, EVREAD)] 0 s of
           Some (r, _, s') \<Rightarrow> (if r \<noteq> 0 then - 1 else 0, s')
         | None \<Rightarrow> (- 1, s)))"

definition add_evqueue_baseevents :: "torque_ctx \<Rightarrow> sysst \<Rightarrow> (int \<times> torque_ctx \<times> sysst) option" where
  "add_evqueue_baseevents ctx s =
     (case load_dns_fds ctx s of
        None \<Rightarrow> None
      | Some (r, ctx', s1) \<Rightarrow>
          if r \<noteq> 0 then Some (- 1, ctx', s1)
          else
            (case add_commonfds_to_evhandler (common_signalfd (ctx_eventtables ctx')) ctx' s1 of
               (q, s2) \<Rightarrow> Some (q, ctx', s2)))"

definition init_evqueue :: "torque_ctx \<Rightarrow> sysst \<Rightarrow> (int \<times> torque_ctx \<times> sysst) option" where
  "init_evqueue ctx s =
     (case torque_dns_init s of
        (r, s1) \<Rightarrow>
          if r \<noteq> 0 then Some (- 1, ctx, s1)
          else
            (case create_efd s1 of
               (fd, s2) \<Rightarrow>
                 let ctx1 = ctx\<lparr>ctx_evq := (ctx_evq ctx)\<lparr>efd := fd\<rparr>\<rparr> in
                 if fd < 0 then Some (- 1, ctx1, torque_dns_shutdown s2)
                 else
                   (case add_evqueue_baseevents ctx1 s2 of
                      None \<Rightarrow> None
                    | Some (q, ctx2, s3) \<Rightarrow>
                        if q \<noteq> 0
                        then Some (- 1, ctx2, torque_dns_shutdown (sys_note (Sys_close fd) s3))
                        else Some (0, ctx2, s3))))"

definition destroy_evqueue :: "torque_ctx \<Rightarrow> sysst \<Rightarrow> int \<times> torque_ctx \<times> sysst" where
  "destroy_evqueue ctx s =
     (case sys_int (Sys_close (efd (ctx_evq ctx))) s of
        (r, s1) \<Rightarrow> (r, ctx\<lparr>ctx_evq := (ctx_evq ctx)\<lparr>efd := - 1\<rparr>\<rparr>, torque_dns_shutdown s1))"

section \<open>Lemmas\<close>

lemma set_fdarray_twice:
  fixes a b c :: evtables
  assumes "b = a\<lparr>fdarray := x\<rparr>" "c = b\<lparr>fdarray := y\<rparr>" shows "c = a\<lparr>fdarray := y\<rparr>"
  using assms by simp

lemma load_dns_loop_tables:
  "tables_wf ctx \<Longrightarrow> \<exists>ctx' s'. load_dns_loop ctx pfds s = Some (ctx', s') \<and> tables_wf ctx' \<and>
     ctx_evq ctx' = ctx_evq ctx \<and> sigarray (ctx_eventtables ctx') = sigarray (ctx_eventtables ctx) \<and>
     ctx_eventtables ctx' = (ctx_eventtables ctx)\<lparr>fdarray := fdarray (ctx_eventtables ctx')\<rparr>"
proof (induction pfds arbitrary: ctx s)
  case Nil
  then show ?case by simp
next
  case (Cons p pfds)
  obtain fd ev where p: "p = (fd, ev)" by fastforce
  let ?rf = "if ev AND POLLIN_PRI \<noteq> 0 then Some Cb_adns_rx_callback else None"
  let ?tf = "if ev AND POLLOUT \<noteq> 0 then Some Cb_adns_tx_callback else None"
  obtain r ctx1 s1 where a: "add_fd_to_evhandler ctx fd ?rf ?tf Ptr_dns EVONESHOT s = Some (r, ctx1, s1)"
    and wf: "tables_wf ctx1"
    using add_fd_cases [OF Cons.prems, of fd ?rf ?tf Ptr_dns EVONESHOT s] by blast
  have fr: "ctx_evq ctx1 = ctx_evq ctx \<and>
      ctx_eventtables ctx1 = (ctx_eventtables ctx)\<lparr>fdarray := fdarray (ctx_eventtables ctx1)\<rparr>"
    using a by (auto simp: add_fd_to_evhandler_def set_fdarray_def split: if_splits option.splits prod.splits)
  then have sg: "sigarray (ctx_eventtables ctx1) = sigarray (ctx_eventtables ctx)"
    by (metis evtables.select_convs(2) evtables.surjective evtables.update_convs(1))
  obtain ctx2 s2 where "load_dns_loop ctx1 pfds s1 = Some (ctx2, s2)" "tables_wf ctx2"
    "ctx_evq ctx2 = ctx_evq ctx1" "sigarray (ctx_eventtables ctx2) = sigarray (ctx_eventtables ctx1)"
    "ctx_eventtables ctx2 = (ctx_eventtables ctx1)\<lparr>fdarray := fdarray (ctx_eventtables ctx2)\<rparr>"
    using Cons.IH [OF wf, of s1] by blast
  then have "load_dns_loop ctx (p # pfds) s = Some (ctx2, s2)" "tables_wf ctx2"
    "ctx_evq ctx2 = ctx_evq ctx" "sigarray (ctx_eventtables ctx2) = sigarray (ctx_eventtables ctx)"
    and t: "ctx_eventtables ctx2 = (ctx_eventtables ctx1)\<lparr>fdarray := fdarray (ctx_eventtables ctx2)\<rparr>"
    using a fr sg p by simp_all
  moreover have "ctx_eventtables ctx2 = (ctx_eventtables ctx)\<lparr>fdarray := fdarray (ctx_eventtables ctx2)\<rparr>"
    using set_fdarray_twice [OF conjunct2 [OF fr] t] .
  ultimately show ?case by blast
qed

lemma load_dns_fds_tables:
  assumes "tables_wf ctx"
  shows "\<exists>r ctx' s'. load_dns_fds ctx s = Some (r, ctx', s') \<and> tables_wf ctx' \<and> ctx_evq ctx' = ctx_evq ctx \<and>
    ctx_eventtables ctx' = (ctx_eventtables ctx)\<lparr>fdarray := fdarray (ctx_eventtables ctx')\<rparr>"
proof -
  obtain a s1 where c: "sys_call (Sys_adns ''beforepoll'') s = (a, s1)" by fastforce
  obtain ctx' s' where "load_dns_loop ctx (rev (take 4 (revents a))) s1 = Some (ctx', s')" "tables_wf ctx'"
    "ctx_evq ctx' = ctx_evq ctx"
    "ctx_eventtables ctx' = (ctx_eventtables ctx)\<lparr>fdarray := fdarray (ctx_eventtables ctx')\<rparr>"
    using load_dns_loop_tables [OF assms] by blast
  then show ?thesis using c assms by (cases "rv a = 0") (simp_all add: load_dns_fds_def)
qed

text \<open>Setting the queue up returns, changes no signal source and closes what it opened when it fails.\<close>

lemma set_efd_tables [simp]:
  "tables_wf (ctx\<lparr>ctx_evq := q\<rparr>) = tables_wf ctx"
  by (simp add: tables_wf_def)

lemma init_evqueue_result:
  assumes "tables_wf ctx"
  shows "\<exists>r ctx' s'. init_evqueue ctx s = Some (r, ctx', s') \<and> (r = 0 \<or> r = - 1) \<and> tables_wf ctx' \<and>
    ctx_eventtables ctx' = (ctx_eventtables ctx)\<lparr>fdarray := fdarray (ctx_eventtables ctx')\<rparr> \<and>
    (r = 0 \<longrightarrow> 0 \<le> efd (ctx_evq ctx'))"
proof -
  obtain d s1 where d: "torque_dns_init s = (d, s1)" by fastforce
  obtain fd s2 where fd: "create_efd s1 = (fd, s2)" by fastforce
  let ?ctx1 = "ctx\<lparr>ctx_evq := (ctx_evq ctx)\<lparr>efd := fd\<rparr>\<rparr>"
  have wf: "tables_wf ?ctx1" using assms by simp
  obtain r ctx2 s3 where l: "load_dns_fds ?ctx1 s2 = Some (r, ctx2, s3)" and ok: "tables_wf ctx2"
    "ctx_evq ctx2 = ctx_evq ?ctx1"
    "ctx_eventtables ctx2 = (ctx_eventtables ctx)\<lparr>fdarray := fdarray (ctx_eventtables ctx2)\<rparr>"
    using load_dns_fds_tables [OF wf, of s2] by auto
  obtain q s4 where c: "add_commonfds_to_evhandler (common_signalfd (ctx_eventtables ctx2)) ctx2 s3 = (q, s4)"
    by fastforce
  have "add_evqueue_baseevents ?ctx1 s2 = Some (if r \<noteq> 0 then (- 1, ctx2, s3) else (q, ctx2, s4))"
    using l c by (simp add: add_evqueue_baseevents_def)
  then show ?thesis using d fd ok assms by (cases "d = 0"; cases "fd < 0") (simp_all add: init_evqueue_def Let_def)
qed

text \<open>Every finished query calls its client exactly once and frees its marshal.\<close>

lemma adns_check_loop_frees:
  "adns_check_loop h s = Some (cbs, h', s') \<Longrightarrow>
   h' \<subseteq>\<^sub>m h \<and> finite (dom h - dom h') \<and> card (dom h - dom h') = length cbs"
proof (induction h s arbitrary: cbs h' s' rule: adns_check_loop.induct)
  case (1 h s)
  obtain a s1 where c: "sys_call (Sys_adns ''check'') s = (a, s1)" by fastforce
  let ?p = "nat (rout a)"
  let ?s1 = "sys_note (Sys_free ''answer'') (sys_note (Sys_free ''dnsmarshal'') s1)"
  show ?case
  proof (cases "rv a = 0")
    case False
    then show ?thesis using "1.prems" c by (auto simp: adns_check_loop.simps [of h s])
  next
    case True
    then obtain ds where ds: "h ?p = Some ds"
      using "1.prems" c by (auto simp: adns_check_loop.simps [of h s] split: option.splits)
    obtain rest where go: "adns_check_loop (h(?p := None)) ?s1 = Some (rest, h', s')"
      and cbs: "cbs = (dm_cb ds, dm_cbstate ds) # rest"
      using "1.prems" c True ds by (auto simp: adns_check_loop.simps [of h s] split: option.splits)
    have ih: "h' \<subseteq>\<^sub>m h(?p := None) \<and> finite (dom (h(?p := None)) - dom h') \<and>
        card (dom (h(?p := None)) - dom h') = length rest"
      using "1.IH" [OF c [symmetric] _ ds go] True by (simp del: fun_upd_apply)
    then have le: "h' \<subseteq>\<^sub>m h" by (auto simp: map_le_def split: if_splits)
    have "?p \<notin> dom h'"
    proof
      assume "?p \<in> dom h'"
      then have "h' ?p = (h(?p := None)) ?p" using ih unfolding map_le_def by blast
      then show False using \<open>?p \<in> dom h'\<close> by auto
    qed
    then have eq: "dom h - dom h' = insert ?p (dom (h(?p := None)) - dom h')" using ds by auto
    show ?thesis using ih le cbs unfolding eq by simp
  qed
qed

section \<open>Writing to the resolver\<close>

text \<open>
  Fact: the write callback of the resolver makes no call to have its descriptor watched again. The descriptor was registered for one event,
  so once it was reported writable it stays disarmed, until an answer on another descriptor makes \<open>restore_dns_fds\<close> run.
\<close>

theorem adns_tx_never_rearms:
  "calls (adns_tx_callback s) = calls s @ [Sys_libc ''gettimeofday'', Sys_adns ''afterpoll'']"
  by (simp add: adns_tx_callback_def sys_call_def split: list.splits)

section \<open>Properties\<close>



end
