(* ===== verification/Arch.thy ===== *)
theory Arch
  imports Schedule
begin

text \<open>
  Architecture detection, \<^verbatim>\<open>src/src/libtorque/hardware/arch.c\<close> and
  \<^verbatim>\<open>src/src/libtorque/hardware/cuda.c\<close>: one pass over the processors of the affinity mask
  that pins itself to each, identifies it, groups it with the types already seen,
  places it in the topology and starts its thread.

  The instruction \<open>cpuid\<close> answers differently on each processor, so it is a function of
  the processor here. The arrays that \<open>detect_cputypes\<close> receives by reference are the
  context's own.
\<close>

section \<open>Processor types\<close>

definition add_cputype :: "torque_ctx \<Rightarrow> torque_cput \<Rightarrow> sysst \<Rightarrow> nat option \<times> torque_ctx \<times> sysst" where
  "add_cputype ctx acpu s =
     (case sys_alloc (Sys_realloc ''cpudescs'') s of
        (ok, s') \<Rightarrow>
          if \<not> ok then (None, ctx, s')
          else
            (Some (ctx_cpu_typecount ctx),
             ctx\<lparr>ctx_cpudescs := ctx_cpudescs ctx @ [acpu],
                 ctx_cpu_typecount := ctx_cpu_typecount ctx + 1\<rparr>, s'))"

definition free_cpudetails :: "sysst \<Rightarrow> sysst" where
  "free_cpudetails s =
     sys_note (Sys_free ''strdescription'')
       (sys_note (Sys_free ''memdescs'') (sys_note (Sys_free ''tlbdescs'') s))"

type_synonym position = "u32 \<times> u32 \<times> u32"

definition detect_cpudetails ::
  "bool \<Rightarrow> (nat \<Rightarrow> cpuid_fn) \<Rightarrow> nat \<Rightarrow> sysst \<Rightarrow>
     (torque_err \<times> torque_cput \<times> position option \<times> sysst) option" where
  "detect_cpudetails avail cpuids aid s =
     (case pin_thread aid s of
        (r, s1) \<Rightarrow>
          if r \<noteq> 0 then Some (TORQUE_ERR_AFFINITY, zero_cput, None, s1)
          else
            (case x86cpuid avail (cpuids aid) zero_cput s1 of
               None \<Rightarrow> None
             | Some (rc, details, pos, s2) \<Rightarrow>
                 if rc \<noteq> 0 then Some (TORQUE_ERR_CPUDETECT, zero_cput, None, free_cpudetails s2)
                 else Some (0, details, pos, s2)))"

definition compare_cpudetails :: "torque_cput \<Rightarrow> torque_cput \<Rightarrow> int" where
  "compare_cpudetails a b =
     (if cpu_spec a \<noteq> cpu_spec b then - 1
      else if cpu_memories a \<noteq> cpu_memories b \<or> cpu_tlbs a \<noteq> cpu_tlbs b then - 1
      else if cpu_tlbs a \<noteq> 0 \<and>
              take (cpu_tlbs a) (cpu_tlbdescs a) \<noteq> take (cpu_tlbs a) (cpu_tlbdescs b) then - 1
      else if cpu_memories a \<noteq> 0 \<and>
              take (cpu_memories a) (cpu_memdescs a) \<noteq> take (cpu_memories a) (cpu_memdescs b) then - 1
      else if cpu_threadspercore a \<noteq> cpu_threadspercore b \<or>
              cpu_coresperpackage a \<noteq> cpu_coresperpackage b then - 1
      else if cpu_isa a \<noteq> cpu_isa b then - 1
      else if cpu_strdescription a \<noteq> cpu_strdescription b then - 1
      else 0)"

definition match_cputype :: "torque_ctx \<Rightarrow> torque_cput \<Rightarrow> nat option" where
  "match_cputype ctx acpu =
     match_from (\<lambda>c. compare_cpudetails c acpu = 0) (ctx_cpu_typecount ctx) 0 (ctx_cpudescs ctx)"

text \<open>The branch shared by \<open>detect_cputypes\<close> and \<open>detect_cuda\<close>: count or add the type.\<close>

definition record_cputype :: "torque_ctx \<Rightarrow> torque_cput \<Rightarrow> sysst \<Rightarrow> nat option \<times> torque_ctx \<times> sysst" where
  "record_cputype ctx details s =
     (case match_cputype ctx details of
        Some i \<Rightarrow>
          (Some i,
           ctx\<lparr>ctx_cpudescs := (ctx_cpudescs ctx)
                 [i := (ctx_cpudescs ctx ! i)\<lparr>cpu_elements := cpu_elements (ctx_cpudescs ctx ! i) + 1\<rparr>]\<rparr>,
           free_cpudetails s)
      | None \<Rightarrow>
          (case add_cputype ctx (details\<lparr>cpu_elements := 1\<rparr>) s of
             (None, ctx', s') \<Rightarrow> (None, ctx', free_cpudetails s')
           | (Some i, ctx', s') \<Rightarrow> (Some i, ctx', s')))"

section \<open>The pass over the processors\<close>

definition detect_cpucount :: "sysst \<Rightarrow> nat \<times> nat set \<times> sysst" where
  "detect_cpucount s =
     (case sys_call Sys_getaffinity s of
        (a, s') \<Rightarrow>
          if rv a = 0 then (portable_cpuset_count (rset a), rset a, s') else (0, rset a, s'))"

text \<open>One processor: identify, record, place, start. The result is the error or 0.\<close>

definition cputype_step ::
  "bool \<Rightarrow> (nat \<Rightarrow> cpuid_fn) \<Rightarrow> nat \<Rightarrow> torque_ctx \<Rightarrow> top_map list \<Rightarrow> sysst \<Rightarrow>
     (torque_err \<times> torque_ctx \<times> top_map list \<times> sysst) option" where
  "cputype_step avail cpuids aid ctx tm s =
     (case detect_cpudetails avail cpuids aid s of
        None \<Rightarrow> None
      | Some (ret, details, pos, s1) \<Rightarrow>
          if ret \<noteq> 0 then Some (ret, ctx, tm, s1)
          else
            (case record_cputype ctx details s1 of
               (None, ctx1, s2) \<Rightarrow> Some (TORQUE_ERR_RESOURCE, ctx1, tm, s2)
             | (Some i, ctx1, s2) \<Rightarrow>
                 (case the pos of
                    (thread, core, pkg) \<Rightarrow>
                      (case topologize (ctx_sched_zone ctx1) tm aid thread core pkg i s2 of
                         None \<Rightarrow> None
                       | Some (r, zs, tm', s3) \<Rightarrow>
                           let ctx2 = ctx1\<lparr>ctx_sched_zone := zs\<rparr> in
                           if r \<noteq> 0 then Some (r, ctx2, tm', s3)
                           else
                             (case spawn_thread ctx2 s3 of
                                (q, ctx3, s4) \<Rightarrow>
                                  Some (if q \<noteq> 0 then TORQUE_ERR_RESOURCE else 0, ctx3, tm', s4))))))"

function cputypes_loop ::
  "bool \<Rightarrow> (nat \<Rightarrow> cpuid_fn) \<Rightarrow> nat set \<Rightarrow> nat \<Rightarrow> nat \<Rightarrow> nat \<Rightarrow> torque_ctx \<Rightarrow> top_map list \<Rightarrow> sysst \<Rightarrow>
     (torque_err \<times> torque_ctx \<times> sysst) option" where
  "cputypes_loop avail cpuids cset cpucount z aid ctx tm s =
     (if z < cpucount then
        let aid' = scan_aid cset aid in
        if aid' = CPU_SETSIZE then Some (TORQUE_ERR_AFFINITY, ctx, s)
        else
          (case cputype_step avail cpuids aid' ctx tm s of
             None \<Rightarrow> None
           | Some (r, ctx', tm', s') \<Rightarrow>
               if r \<noteq> 0 then Some (r, ctx', s')
               else cputypes_loop avail cpuids cset cpucount (z + 1) (aid' + 1) ctx' tm' s')
      else Some (0, ctx, s))"
  by pat_completeness auto
termination
  by (relation "measure (\<lambda>(avail, cpuids, cset, cpucount, z, aid, ctx, tm, s). cpucount - z)") auto

declare cputypes_loop.simps [simp del]

definition free_types :: "nat \<Rightarrow> sysst \<Rightarrow> sysst" where
  "free_types n s = (free_cpudetails ^^ n) s"

text \<open>The error exit: restore the mask, stop the threads, release everything.\<close>

definition cputypes_err ::
  "torque_err \<Rightarrow> nat set \<Rightarrow> torque_ctx \<Rightarrow> sysst \<Rightarrow> (torque_err \<times> torque_ctx \<times> sysst) option" where
  "cputypes_err ret cset ctx s =
     (case reap_threads ctx (snd (unpin_thread cset s)) of
        None \<Rightarrow> None
      | Some (_, s1) \<Rightarrow>
          Some (ret, ctx\<lparr>ctx_cpu_typecount := 0, ctx_cpudescs := []\<rparr>,
            sys_note (Sys_free ''topmap'') (sys_note (Sys_free ''cpudescs'')
              (free_types (ctx_cpu_typecount ctx) s1))))"

definition detect_cputypes ::
  "bool \<Rightarrow> (nat \<Rightarrow> cpuid_fn) \<Rightarrow> torque_ctx \<Rightarrow> sysst \<Rightarrow> (torque_err \<times> torque_ctx \<times> sysst) option" where
  "detect_cputypes avail cpuids ctx s =
     (let ctx0 = ctx\<lparr>ctx_cpu_typecount := 0, ctx_cpudescs := []\<rparr> in
      case detect_cpucount s of
        (cpucount, cset, s1) \<Rightarrow>
          if cpucount = 0 then cputypes_err TORQUE_ERR_AFFINITY cset ctx0 s1
          else
            (case sys_alloc (Sys_malloc ''topmap'') s1 of
               (ok, s2) \<Rightarrow>
                 if \<not> ok then cputypes_err TORQUE_ERR_RESOURCE cset ctx0 s2
                 else
                   (case cputypes_loop avail cpuids cset cpucount 0 0 ctx0
                           (replicate cpucount zero_top_map) s2 of
                      None \<Rightarrow> None
                    | Some (ret, ctx1, s3) \<Rightarrow>
                        if ret \<noteq> 0 then cputypes_err ret cset ctx1 s3
                        else
                          (case unpin_thread cset s3 of
                             (r, s4) \<Rightarrow>
                               if r \<noteq> 0 then cputypes_err TORQUE_ERR_AFFINITY cset ctx1 s4
                               else Some (0, ctx1, sys_note (Sys_free ''topmap'') s4)))))"

section \<open>CUDA devices\<close>

text \<open>
  The driver's entry points are calls; \<open>cudaGetDeviceProperties\<close> stores the two version
  numbers as the first descriptor pair of its answer.
\<close>

definition CUDA_ERROR_NO_DEVICE :: int where "CUDA_ERROR_NO_DEVICE = 100"

definition detect_cudadevcount :: "int \<Rightarrow> sysst \<Rightarrow> int \<times> sysst" where
  "detect_cudadevcount CUDA_VERSION s =
     (case sys_call (Sys_cuda ''cuInit'') s of
        (a, s1) \<Rightarrow>
          if rv a \<noteq> 0 then (if rv a = CUDA_ERROR_NO_DEVICE then 0 else - 1, s1)
          else
            (case sys_call (Sys_cuda ''cuDriverGetVersion'') s1 of
               (b, s2) \<Rightarrow>
                 if rv b \<noteq> 0 then (- 1, s2)
                 else if CUDA_VERSION > rout b then (- 1, s2)
                 else
                   (case sys_call (Sys_cuda ''cuDeviceGetCount'') s2 of
                      (c, s3) \<Rightarrow> if rv c \<noteq> 0 then (- 1, s3) else (rout c, s3))))"

definition cuda_props :: "sysret \<Rightarrow> cuda_details" where
  "cuda_props a =
     (case revents a of
        [] \<Rightarrow> \<lparr>cuda_major = 0, cuda_minor = 0\<rparr>
      | (major, minor) # _ \<Rightarrow> \<lparr>cuda_major = major, cuda_minor = uint minor\<rparr>)"

definition cudaid :: "nat \<Rightarrow> sysst \<Rightarrow> torque_err \<times> torque_cput \<times> sysst" where
  "cudaid devno s =
     (case sys_call (Sys_cuda ''cuDeviceGet'') s of
        (a, s1) \<Rightarrow>
          if rv a \<noteq> 0 then (TORQUE_ERR_INVAL, zero_cput, s1)
          else
      case sys_call (Sys_cuda ''cudaGetDeviceProperties'') s1 of
        (p, s2) \<Rightarrow>
          if rv p \<noteq> 0 then (TORQUE_ERR_INVAL, zero_cput, s2)
          else
      let cpu1 = zero_cput\<lparr>cpu_spec := Spec_cuda (cuda_props p)\<rparr> in
      case sys_call (Sys_cuda ''WARP_SIZE'') s2 of
        (w, s3) \<Rightarrow>
          if rv w \<noteq> 0 \<or> rout w \<le> 0 then (TORQUE_ERR_ASSERT, cpu1, s3)
          else
      let cpu2 = cpu1\<lparr>cpu_threadspercore := 1\<rparr> in
      case sys_call (Sys_cuda ''MULTIPROCESSOR_COUNT'') s3 of
        (m, s4) \<Rightarrow>
          if rv m \<noteq> 0 \<or> rout m \<le> 0 then (TORQUE_ERR_ASSERT, cpu2, s4)
          else
      let cpu3 = cpu2\<lparr>cpu_coresperpackage := of_int (rout m)\<rparr> in
      case sys_call (Sys_cuda ''cuDeviceTotalMem'') s4 of
        (t, s5) \<Rightarrow>
          if rv t \<noteq> 0 then (TORQUE_ERR_ASSERT, cpu3, s5)
          else
      case sys_alloc (Sys_malloc ''str'') s5 of
        (ok, s6) \<Rightarrow>
          if \<not> ok then (TORQUE_ERR_RESOURCE, cpu3, s6)
          else
      case sys_call (Sys_cuda ''cuDeviceGetName'') s6 of
        (n, s7) \<Rightarrow>
          if rv n \<noteq> 0 then (TORQUE_ERR_ASSERT, cpu3, sys_note (Sys_free ''str'') s7)
          else
            (0, cpu3\<lparr>cpu_strdescription := Some (bytes_string (takeWhile (\<lambda>c. c \<noteq> 0) (rdata n))),
                     cpu_isa := TORQUE_ISA_NVIDIA\<rparr>, s7))"

function cuda_loop :: "int \<Rightarrow> nat \<Rightarrow> torque_ctx \<Rightarrow> sysst \<Rightarrow> torque_err \<times> torque_ctx \<times> sysst" where
  "cuda_loop devs i ctx s =
     (if int i < devs then
        (case cudaid i s of
           (r, details, s1) \<Rightarrow>
             if r \<noteq> 0 then (- 1, ctx, s1)
             else
               (case record_cputype ctx details s1 of
                  (None, ctx1, s2) \<Rightarrow> (TORQUE_ERR_RESOURCE, ctx1, s2)
                | (Some _, ctx1, s2) \<Rightarrow> cuda_loop devs (i + 1) ctx1 s2))
      else (0, ctx, s))"
  by pat_completeness auto
termination
  by (relation "measure (\<lambda>(devs, i, ctx, s). nat (devs - int i))") auto

declare cuda_loop.simps [simp del]

definition detect_cuda :: "int \<Rightarrow> torque_ctx \<Rightarrow> sysst \<Rightarrow> torque_err \<times> torque_ctx \<times> sysst" where
  "detect_cuda CUDA_VERSION ctx s =
     (case detect_cudadevcount CUDA_VERSION s of
        (devs, s1) \<Rightarrow> if devs < 0 then (TORQUE_ERR_GPUDETECT, ctx, s1) else cuda_loop devs 0 ctx s1)"

section \<open>The whole architecture\<close>

definition free_architecture :: "torque_ctx \<Rightarrow> sysst \<Rightarrow> torque_ctx \<times> sysst" where
  "free_architecture ctx s =
     (case reset_topology (ctx_sched_zone ctx) s of
        (zs, s1) \<Rightarrow>
          free_memories (ctx\<lparr>ctx_sched_zone := zs, ctx_cpu_typecount := 0, ctx_cpudescs := []\<rparr>)
            (sys_note (Sys_free ''cpudescs'') (free_types (ctx_cpu_typecount ctx) s1)))"

definition arch_err :: "torque_err \<Rightarrow> torque_ctx \<Rightarrow> sysst \<Rightarrow> torque_err \<times> torque_ctx \<times> sysst" where
  "arch_err ret ctx s = (case free_architecture ctx s of (ctx', s') \<Rightarrow> (ret, ctx', s'))"

definition detect_architecture ::
  "bool \<Rightarrow> (nat \<Rightarrow> cpuid_fn) \<Rightarrow> int \<Rightarrow> torque_ctx \<Rightarrow> sysst \<Rightarrow> (torque_err \<times> torque_ctx \<times> sysst) option" where
  "detect_architecture avail cpuids CUDA_VERSION ctx s =
     (case detect_cputypes avail cpuids ctx s of
        None \<Rightarrow> None
      | Some (r, ctx1, s1) \<Rightarrow>
          if r \<noteq> 0 then Some (arch_err r ctx1 s1)
          else
            (case detect_cuda CUDA_VERSION ctx1 s1 of
               (r, ctx2, s2) \<Rightarrow>
                 if r \<noteq> 0 then Some (arch_err r ctx2 s2)
                 else
                   (case detect_memories ctx2 s2 of
                      (r, ctx3, s3) \<Rightarrow>
                        if r \<noteq> 0 then Some (arch_err TORQUE_ERR_MEMDETECT ctx3 s3)
                        else Some (0, ctx3, s3))))"

section \<open>Recording a type\<close>

definition type_key ::
  "torque_cput \<Rightarrow> cpu_spec \<times> torque_memt list \<times> torque_tlbt list \<times> u32 \<times> u32 \<times> torque_isat \<times> string option" where
  "type_key c = (cpu_spec c, cpu_memdescs c, cpu_tlbdescs c, cpu_threadspercore c,
     cpu_coresperpackage c, cpu_isa c, cpu_strdescription c)"

lemma compare_cpudetails_key:
  "cput_wf a \<Longrightarrow> cput_wf b \<Longrightarrow> compare_cpudetails a b = 0 \<longleftrightarrow> type_key a = type_key b"
  by (auto simp: compare_cpudetails_def type_key_def cput_wf_def split: if_splits)

definition elements_total :: "torque_ctx \<Rightarrow> nat" where
  "elements_total ctx = sum_list (map (\<lambda>c. unat (cpu_elements c)) (ctx_cpudescs ctx))"

definition types_ok :: "torque_ctx \<Rightarrow> bool" where
  "types_ok ctx \<longleftrightarrow> ctx_types_wf ctx \<and> distinct (map type_key (ctx_cpudescs ctx))"

definition hw_frame :: "torque_ctx \<Rightarrow> torque_ctx \<Rightarrow> bool" where
  \<comment> \<open>the types alone may differ\<close>
  "hw_frame ctx ctx' \<longleftrightarrow>
     ctx\<lparr>ctx_cpudescs := [], ctx_cpu_typecount := 0\<rparr> = ctx'\<lparr>ctx_cpudescs := [], ctx_cpu_typecount := 0\<rparr>"

lemma hw_frame_zone: "hw_frame ctx ctx' \<Longrightarrow> ctx_sched_zone ctx' = ctx_sched_zone ctx"
  by (simp add: hw_frame_def) (metis torque_ctx.select_convs(6) torque_ctx.update_convs(3,4)
      torque_ctx.surjective)

lemma hw_frame_nodes:
  "hw_frame ctx ctx' \<Longrightarrow> ctx_manodes ctx' = ctx_manodes ctx \<and> ctx_nodecount ctx' = ctx_nodecount ctx"
  by (simp add: hw_frame_def) (metis torque_ctx.select_convs(2,5) torque_ctx.update_convs(3,4)
      torque_ctx.surjective)

lemma hw_frame_trans: "hw_frame a b \<Longrightarrow> hw_frame b c \<Longrightarrow> hw_frame a c"
  by (simp add: hw_frame_def)

lemma match_cputype_None:
  assumes "types_ok ctx" "cput_wf d"
  shows "match_cputype ctx d = None \<longleftrightarrow> type_key d \<notin> type_key ` set (ctx_cpudescs ctx)"
proof -
  have n: "0 + length (ctx_cpudescs ctx) \<le> ctx_cpu_typecount ctx"
    and wf: "\<And>c. c \<in> set (ctx_cpudescs ctx) \<Longrightarrow> cput_wf c"
    using assms(1) by (simp_all add: types_ok_def ctx_types_wf_def)
  have "match_cputype ctx d = None \<longleftrightarrow> (\<forall>c\<in>set (ctx_cpudescs ctx). compare_cpudetails c d \<noteq> 0)"
    unfolding match_cputype_def by (rule match_from_None [OF n])
  then show ?thesis using compare_cpudetails_key [OF wf assms(2)] by (auto simp: image_iff)
qed

lemma match_cputype_Some:
  assumes "match_cputype ctx d = Some i"
  shows "i < length (ctx_cpudescs ctx) \<and> compare_cpudetails (ctx_cpudescs ctx ! i) d = 0"
  using match_from_Some [OF assms [unfolded match_cputype_def]] by simp

lemma sum_list_update_Suc:
  "i < length xs \<Longrightarrow> f y = Suc (f (xs ! i)) \<Longrightarrow>
   sum_list (map f (xs[i := y])) = Suc (sum_list (map f xs))"
proof (induction xs arbitrary: i)
  case (Cons x xs)
  then show ?case by (cases i) auto
qed simp

lemma sum_list_elem_le: "i < length xs \<Longrightarrow> f (xs ! i) \<le> sum_list (map f xs)" for f :: "'a \<Rightarrow> nat"
  using member_le_sum_list [of "f (xs ! i)" "map f xs"] by simp

lemma record_cputype_ok:
  assumes rec: "record_cputype ctx d s = (r, ctx', s')"
    and ok: "types_ok ctx" and wf: "cput_wf d"
  shows "types_ok ctx' \<and> hw_frame ctx ctx' \<and> (case r of
      None \<Rightarrow> ctx' = ctx
    | Some i \<Rightarrow> i < ctx_cpu_typecount ctx' \<and> type_key (ctx_cpudescs ctx' ! i) = type_key d \<and>
        ctx_cpu_typecount ctx \<le> ctx_cpu_typecount ctx' \<and>
        (elements_total ctx < 2 ^ 32 - 1 \<longrightarrow> elements_total ctx' = Suc (elements_total ctx)))"
proof (cases "match_cputype ctx d")
  case None
  then have new: "type_key d \<notin> type_key ` set (ctx_cpudescs ctx)"
    using match_cputype_None [OF ok wf] by simp
  have "type_key (d\<lparr>cpu_elements := 1\<rparr>) = type_key d" "cput_wf (d\<lparr>cpu_elements := 1\<rparr>)"
    using wf by (simp_all add: type_key_def cput_wf_def)
  then show ?thesis using rec None new ok
    by (auto simp: record_cputype_def add_cputype_def types_ok_def ctx_types_wf_def hw_frame_def
        elements_total_def nth_append split: prod.splits if_splits)
next
  case (Some i)
  then have i: "i < length (ctx_cpudescs ctx)" and cmp: "compare_cpudetails (ctx_cpudescs ctx ! i) d = 0"
    using match_cputype_Some by simp_all
  let ?c = "ctx_cpudescs ctx ! i"
  let ?n = "?c\<lparr>cpu_elements := cpu_elements ?c + 1\<rparr>"
  have r: "r = Some i" "ctx' = ctx\<lparr>ctx_cpudescs := (ctx_cpudescs ctx)[i := ?n]\<rparr>"
    using rec Some by (auto simp: record_cputype_def)
  have wfc: "cput_wf ?c" using ok i by (simp add: types_ok_def ctx_types_wf_def)
  have key: "type_key ?c = type_key d" using compare_cpudetails_key [OF wfc wf] cmp by simp
  have kn: "type_key ?n = type_key ?c" "cput_wf ?n" using wfc by (simp_all add: type_key_def cput_wf_def)
  have "map type_key ((ctx_cpudescs ctx)[i := ?n]) = map type_key (ctx_cpudescs ctx)"
    using i kn(1) by (simp add: map_update) (metis list_update_id nth_map)
  then have dist: "distinct (map type_key ((ctx_cpudescs ctx)[i := ?n]))"
    using ok by (simp add: types_ok_def)
  have tot: "elements_total ctx' = Suc (elements_total ctx)" if "elements_total ctx < 2 ^ 32 - 1"
  proof -
    have "unat (cpu_elements ?c) < 2 ^ 32 - 1"
      using sum_list_elem_le [OF i, of "\<lambda>c. unat (cpu_elements c)"] that by (simp add: elements_total_def)
    then have "unat (cpu_elements ?n) = Suc (unat (cpu_elements ?c))"
      by (simp add: unat_word_ariths)
    then show ?thesis
      using sum_list_update_Suc [OF i, of "\<lambda>c. unat (cpu_elements c)" ?n]
      by (simp add: elements_total_def r)
  qed
  have "\<forall>c\<in>set ((ctx_cpudescs ctx)[i := ?n]). cput_wf c"
    using ok kn(2) by (auto simp: types_ok_def ctx_types_wf_def dest: set_update_subset_insert [THEN subsetD])
  then show ?thesis using dist tot i key kn(1) ok
    by (simp add: r types_ok_def ctx_types_wf_def hw_frame_def)
qed

section \<open>The invariant of the pass\<close>

text \<open>
  After the processors of \<open>done\<close>: the recorded types are well formed and pairwise
  different, their element counts add up to the processors seen, the topology
  represents a placement of exactly those processors, and the zones refer to
  recorded types only.
\<close>

definition hw_inv :: "torque_ctx \<Rightarrow> top_map list \<Rightarrow> nat set \<Rightarrow> placement \<Rightarrow> bool" where
  "hw_inv ctx tm seen pm \<longleftrightarrow>
     types_ok ctx \<and> elements_total ctx = card seen \<and> topo_rep (ctx_sched_zone ctx) pm \<and>
     tm_rep tm pm \<and> dom pm = seen \<and> zone_types (ctx_sched_zone ctx) \<subseteq> {..<ctx_cpu_typecount ctx}"

text \<open>Where the instruction itself puts a processor.\<close>

definition reported_at :: "bool \<Rightarrow> (nat \<Rightarrow> cpuid_fn) \<Rightarrow> nat \<Rightarrow> u32 \<Rightarrow> u32 \<Rightarrow> bool" where
  "reported_at avail cpuids aid pkg core \<longleftrightarrow>
     (\<exists>s d thread s'. x86cpuid avail (cpuids aid) zero_cput s = Some (0, d, Some (thread, core, pkg), s'))"

definition placed_as_reported :: "bool \<Rightarrow> (nat \<Rightarrow> cpuid_fn) \<Rightarrow> placement \<Rightarrow> bool" where
  "placed_as_reported avail cpuids pm \<longleftrightarrow>
     (\<forall>aid pkg core. pm aid = Some (pkg, core) \<longrightarrow> reported_at avail cpuids aid pkg core)"

lemma spawn_thread_hw:
  assumes "spawn_thread ctx s = (r, ctx', s')"
  shows "ctx_cpudescs ctx' = ctx_cpudescs ctx \<and> ctx_cpu_typecount ctx' = ctx_cpu_typecount ctx \<and>
    ctx_sched_zone ctx' = ctx_sched_zone ctx"
  using spawn_thread_cases [OF assms] by (auto simp: link_thread_def split: option.splits)

lemma detect_cpudetails_ok:
  assumes "detect_cpudetails avail cpuids aid s = Some (0, d, pos, s')"
  shows "cput_wf d \<and> (\<exists>thread core pkg. pos = Some (thread, core, pkg) \<and>
    reported_at avail cpuids aid pkg core)"
proof -
  obtain s1 where x: "x86cpuid avail (cpuids aid) zero_cput s1 = Some (0, d, pos, s')"
    using assms by (auto simp: detect_cpudetails_def split: prod.splits if_splits option.splits)
  obtain p where "pos = Some p" using x86cpuid_ok [OF x] by auto
  moreover obtain thread core pkg where "p = (thread, core, pkg)" by (cases p)
  ultimately show ?thesis using x86cpuid_wf [OF x] x unfolding reported_at_def by blast
qed

lemma cputype_step_inv:
  assumes step: "cputype_step avail cpuids aid ctx tm s = Some (0, ctx', tm', s')"
    and inv: "hw_inv ctx tm seen pm" and rep: "placed_as_reported avail cpuids pm"
    and fresh: "aid \<notin> seen" and fin: "finite seen" and small: "card seen < 2 ^ 32 - 1"
  shows "\<exists>pm'. hw_inv ctx' tm' (insert aid seen) pm' \<and> placed_as_reported avail cpuids pm'"
proof -
  obtain d pos s1 where d: "detect_cpudetails avail cpuids aid s = Some (0, d, pos, s1)"
    using step by (auto simp: cputype_step_def split: option.splits if_splits)
  obtain thread core pkg where pos: "pos = Some (thread, core, pkg)"
    and here: "reported_at avail cpuids aid pkg core" and wf: "cput_wf d"
    using detect_cpudetails_ok [OF d] by blast
  obtain i ctx1 s2 where rc: "record_cputype ctx d s1 = (Some i, ctx1, s2)"
    using step d by (auto simp: cputype_step_def split: prod.splits option.splits)
  obtain zs s3 where top: "topologize (ctx_sched_zone ctx1) tm aid thread core pkg i s2 =
      Some (0, zs, tm', s3)"
    and sp: "spawn_thread (ctx1\<lparr>ctx_sched_zone := zs\<rparr>) s3 = (0, ctx', s')"
    using step d pos rc
    by (auto simp: cputype_step_def Let_def split: prod.splits option.splits if_splits)
  have ok: "types_ok ctx" "elements_total ctx < 2 ^ 32 - 1" "pm aid = None"
    using inv small fresh by (auto simp: hw_inv_def)
  note r = record_cputype_ok [OF rc ok(1) wf]
  have zone: "ctx_sched_zone ctx1 = ctx_sched_zone ctx" using r hw_frame_zone by blast
  have topo: "topo_rep zs (pm(aid \<mapsto> (pkg, core))) \<and> tm_rep tm' (pm(aid \<mapsto> (pkg, core)))"
    using topologize_rep [where pm = pm, OF top [unfolded zone]] ok(3) inv
    by (simp add: hw_inv_def del: fun_upd_apply)
  have "zone_types zs \<subseteq> insert i (zone_types (ctx_sched_zone ctx))"
    using topologize_types [OF top] zone by simp
  then have zt: "zone_types zs \<subseteq> {..<ctx_cpu_typecount ctx1}"
    using r inv by (auto simp: hw_inv_def)
  have "hw_inv ctx' tm' (insert aid seen) (pm(aid \<mapsto> (pkg, core)))"
    using r ok(2) topo zt inv fresh fin spawn_thread_hw [OF sp]
    by (auto simp: hw_inv_def types_ok_def ctx_types_wf_def elements_total_def)
  moreover have "placed_as_reported avail cpuids (pm(aid \<mapsto> (pkg, core)))"
    using rep here by (auto simp: placed_as_reported_def)
  ultimately show ?thesis by blast
qed

lemma scan_aid_ge: "z \<le> scan_aid cs z"
proof (induction cs z rule: scan_aid.induct)
  case (1 cs z)
  then show ?case by (auto simp: scan_aid.simps [of cs z])
qed

lemma scan_aid_next:
  assumes "aid \<le> CPU_SETSIZE" "scan_aid cset aid < CPU_SETSIZE"
  shows "insert (scan_aid cset aid) (cset \<inter> {..<aid}) = cset \<inter> {..<scan_aid cset aid + 1}"
    and "scan_aid cset aid \<notin> cset \<inter> {..<aid}"
proof -
  let ?a = "scan_aid cset aid"
  have "?a \<in> cset" and first: "\<forall>a\<in>cset. aid \<le> a \<longrightarrow> a < CPU_SETSIZE \<longrightarrow> ?a \<le> a"
    using scan_aid_from [OF assms(1), of cset] assms(2) by auto
  moreover have "aid \<le> ?a" by (rule scan_aid_ge)
  moreover have "b < aid \<or> b = ?a" if "b \<in> cset" "b < ?a + 1" for b
    using first that assms(2) by (metis leD le_antisym less_Suc_eq_le linorder_not_le
        order_le_less_trans Suc_eq_plus1)
  ultimately show "insert ?a (cset \<inter> {..<aid}) = cset \<inter> {..<?a + 1}" by fastforce
  show "?a \<notin> cset \<inter> {..<aid}" using scan_aid_ge [of aid cset] by auto
qed

lemma cputypes_loop_inv:
  assumes "cputypes_loop avail cpuids cset cpucount z aid ctx tm s = Some (0, ctx', s')"
    and "hw_inv ctx tm (cset \<inter> {..<aid}) pm" "placed_as_reported avail cpuids pm"
    and "aid \<le> CPU_SETSIZE" "card (cset \<inter> {..<aid}) = z" "z \<le> cpucount"
  shows "\<exists>tm' aid' pm'. hw_inv ctx' tm' (cset \<inter> {..<aid'}) pm' \<and>
    placed_as_reported avail cpuids pm' \<and> aid' \<le> CPU_SETSIZE \<and> card (cset \<inter> {..<aid'}) = cpucount"
  using assms
proof (induction avail cpuids cset cpucount z aid ctx tm s arbitrary: pm rule: cputypes_loop.induct)
  case (1 avail cpuids cset cpucount z aid ctx tm s)
  let ?a = "scan_aid cset aid"
  show ?case
  proof (cases "z < cpucount")
    case False
    then have "cputypes_loop avail cpuids cset cpucount z aid ctx tm s = Some (0, ctx, s)"
      by (simp add: cputypes_loop.simps [of _ _ _ _ z])
    then have "ctx' = ctx" "z = cpucount" using "1.prems"(1,6) False by simp_all
    then show ?thesis using "1.prems" by blast
  next
    case True
    then have ne: "?a \<noteq> CPU_SETSIZE"
      using "1.prems"(1) by (auto simp: cputypes_loop.simps [of _ _ _ _ z] Let_def split: if_splits)
    then have lt: "?a < CPU_SETSIZE" using scan_aid_from [OF "1.prems"(4), of cset] by simp
    obtain ctx1 tm1 s1 where st: "cputype_step avail cpuids ?a ctx tm s = Some (0, ctx1, tm1, s1)"
      and go: "cputypes_loop avail cpuids cset cpucount (z + 1) (?a + 1) ctx1 tm1 s1 = Some (0, ctx', s')"
      using "1.prems"(1) True ne
      by (auto simp: cputypes_loop.simps [of _ _ _ _ z] Let_def split: option.splits prod.splits if_splits)
    have c: "card (cset \<inter> {..<aid}) \<le> CPU_SETSIZE"
      using card_mono [of "{..<aid}" "cset \<inter> {..<aid}"] "1.prems"(4) by simp
    obtain pm1 where i1: "hw_inv ctx1 tm1 (cset \<inter> {..<?a + 1}) pm1" "placed_as_reported avail cpuids pm1"
      using cputype_step_inv [OF st "1.prems"(2,3) scan_aid_next(2) [OF "1.prems"(4) lt]] c
      unfolding scan_aid_next(1) [OF "1.prems"(4) lt] by auto
    have "card (cset \<inter> {..<?a + 1}) = z + 1"
      using scan_aid_next [OF "1.prems"(4) lt] "1.prems"(5)
      by (metis Suc_eq_plus1 card_insert_disjoint finite_Int finite_lessThan)
    then show ?thesis
      using "1.IH" [OF True refl ne st refl refl refl, of pm1] go i1 lt True by simp
  qed
qed

lemma reap_ring: "thread_ring ctx ts \<Longrightarrow> reap_threads ctx s \<noteq> None"
proof (cases ts)
  case (Cons l rest)
  assume r: "thread_ring ctx ts"
  then have ev: "ctx_ev ctx = Some l" by (simp add: thread_ring_def Cons)
  have "l \<in> dom (ctx_nexttid ctx)" using r by (simp add: thread_ring_def Cons)
  then obtain t where "ctx_nexttid ctx l = Some t" by blast
  then show ?thesis using ev by (simp add: reap_threads_def)
qed (simp add: thread_ring_def reap_threads_def)

lemma card_all:
  assumes "card (cs \<inter> {..<a}) = card (cs \<inter> {..<b})" "a \<le> b"
  shows "cs \<inter> {..<a} = cs \<inter> {..<b :: nat}"
  using assms by (intro card_subset_eq) auto

text \<open>The processors the operating system allows, as the pass learns of them.\<close>

definition affinity_mask :: "sysst \<Rightarrow> nat set" where
  "affinity_mask s = (case detect_cpucount s of (n, cset, s') \<Rightarrow> cset \<inter> {..<CPU_SETSIZE})"

lemma detect_cputypes_success:
  assumes det: "detect_cputypes avail cpuids ctx s = Some (0, ctx', s')"
    and zones: "ctx_sched_zone ctx = []"
  shows "affinity_mask s \<noteq> {} \<and>
    (\<exists>tm pm. hw_inv ctx' tm (affinity_mask s) pm \<and> placed_as_reported avail cpuids pm)"
proof -
  obtain n cset s1 where c: "detect_cpucount s = (n, cset, s1)" by (cases rule: prod_cases3)
  have err: "cputypes_err r m c t \<noteq> Some (0, ctx', s')" if "r \<noteq> 0" for r m c t
    using that by (auto simp: cputypes_err_def split: option.splits prod.splits)
  let ?ctx0 = "ctx\<lparr>ctx_cpu_typecount := 0, ctx_cpudescs := []\<rparr>"
  have n0: "n \<noteq> 0"
  proof
    assume "n = 0"
    then show False using det c err by (simp add: detect_cputypes_def)
  qed
  obtain s2 s3 where l: "cputypes_loop avail cpuids cset n 0 0 ?ctx0 (replicate n zero_top_map) s2 =
      Some (0, ctx', s3)"
    using det c n0 err
    by (auto simp: detect_cputypes_def Let_def split: prod.splits option.splits if_splits)
  have cnt: "n = card (cset \<inter> {..<CPU_SETSIZE})"
    using c n0 by (auto simp: detect_cpucount_def portable_cpuset_count_card split: prod.splits if_splits)
  have "hw_inv ?ctx0 (replicate n zero_top_map) (cset \<inter> {..<0}) Map.empty"
    using zones by (simp add: hw_inv_def types_ok_def ctx_types_wf_def elements_total_def topo_rep_def
        groups_ordered_def tm_rep_def zone_types_def)
  moreover have "placed_as_reported avail cpuids Map.empty" by (simp add: placed_as_reported_def)
  ultimately obtain tm a pm where i: "hw_inv ctx' tm (cset \<inter> {..<a}) pm"
    "placed_as_reported avail cpuids pm" "a \<le> CPU_SETSIZE" "card (cset \<inter> {..<a}) = n"
    using cputypes_loop_inv [OF l, of Map.empty] by auto
  have "cset \<inter> {..<a} = cset \<inter> {..<CPU_SETSIZE}" using card_all i(3,4) cnt by metis
  moreover have "affinity_mask s = cset \<inter> {..<CPU_SETSIZE}" using c by (simp add: affinity_mask_def)
  moreover have "affinity_mask s \<noteq> {}" using calculation(2) n0 cnt by (metis card.empty)
  ultimately show ?thesis using i by auto
qed

lemma detect_cputypes_failure:
  "detect_cputypes avail cpuids ctx s = Some (r, ctx', s') \<Longrightarrow> r \<noteq> 0 \<Longrightarrow>
   ctx_cpu_typecount ctx' = 0 \<and> ctx_cpudescs ctx' = []"
  by (auto simp: detect_cputypes_def cputypes_err_def Let_def split: prod.splits option.splits if_splits)

section \<open>Release\<close>

definition hw_empty :: "torque_ctx \<Rightarrow> bool" where
  "hw_empty ctx \<longleftrightarrow> ctx_sched_zone ctx = [] \<and> ctx_cpu_typecount ctx = 0 \<and> ctx_cpudescs ctx = [] \<and>
     ctx_nodecount ctx = 0 \<and> ctx_manodes ctx = []"

lemma free_architecture_empty: "hw_empty (fst (free_architecture ctx s))"
  by (simp add: free_architecture_def reset_topology_def free_memories_def hw_empty_def)

lemma free_nodes_calls:
  "calls (free_nodes nodes s) = calls s @ replicate (length nodes) (Sys_free ''psizevals'')"
  by (induction nodes arbitrary: s) (simp_all add: sys_note_def)

lemma detect_architecture_cases:
  assumes "detect_architecture avail cpuids ver ctx s = Some (r, ctx', s')"
  shows "r \<noteq> 0 \<and> hw_empty ctx' \<or> r = 0 \<and> (\<exists>ctx1 s1 ctx2 s2.
    detect_cputypes avail cpuids ctx s = Some (0, ctx1, s1) \<and>
    detect_cuda ver ctx1 s1 = (0, ctx2, s2) \<and> detect_memories ctx2 s2 = (0, ctx', s'))"
proof -
  have e: "arch_err q c t = (r, ctx', s') \<Longrightarrow> r = q \<and> hw_empty ctx'" for q c t
    using free_architecture_empty [of c t] by (auto simp: arch_err_def split: prod.splits)
  show ?thesis
    using assms
    by (auto simp: detect_architecture_def split: option.splits prod.splits if_splits dest!: e)
qed

section \<open>The detected architecture\<close>

lemma cudaid_wf: "cudaid devno s = (r, d, s') \<Longrightarrow> cput_wf d"
  by (auto simp: cudaid_def Let_def cput_wf_def zero_cput_def split: prod.splits if_splits)

lemma cuda_loop_types:
  assumes "cuda_loop devs i ctx s = (r, ctx', s')" "types_ok ctx"
  shows "types_ok ctx' \<and> hw_frame ctx ctx' \<and> ctx_cpu_typecount ctx \<le> ctx_cpu_typecount ctx'"
  using assms
proof (induction devs i ctx s rule: cuda_loop.induct)
  case (1 devs i ctx s)
  obtain rc d s1 where cu: "cudaid i s = (rc, d, s1)" by (cases rule: prod_cases3)
  obtain q ctx1 s2 where rec: "record_cputype ctx d s1 = (q, ctx1, s2)" by (cases rule: prod_cases3)
  note r = record_cputype_ok [OF rec "1.prems"(2) cudaid_wf [OF cu]]
  show ?case
  proof (cases "int i < devs \<and> rc = 0 \<and> q \<noteq> None")
    case False
    then show ?thesis using "1.prems" cu rec r
      by (auto simp: cuda_loop.simps [of devs i] hw_frame_def split: if_splits option.splits)
  next
    case True
    then obtain k where k: "q = Some k" by auto
    then have go: "cuda_loop devs (i + 1) ctx1 s2 = (r, ctx', s')"
      using "1.prems"(1) True cu rec by (simp add: cuda_loop.simps [of devs i])
    have "types_ok ctx' \<and> hw_frame ctx1 ctx' \<and> ctx_cpu_typecount ctx1 \<le> ctx_cpu_typecount ctx'"
      using "1.IH" True cu rec k go r by auto
    then show ?thesis using r k by (auto intro: hw_frame_trans)
  qed
qed

lemma detect_cuda_types:
  assumes "detect_cuda ver ctx s = (r, ctx', s')" "types_ok ctx"
  shows "types_ok ctx' \<and> hw_frame ctx ctx' \<and> ctx_cpu_typecount ctx \<le> ctx_cpu_typecount ctx'"
  using assms cuda_loop_types
  by (fastforce simp: detect_cuda_def hw_frame_def split: prod.splits if_splits)

text \<open>
  After a successful detection every processor of the affinity mask is found by
  \<open>lookup_aid\<close>, with a well-formed description.
\<close>

lemma detect_architecture_lookup:
  assumes det: "detect_architecture avail cpuids ver ctx s = Some (0, ctx', s')"
    and zones: "ctx_sched_zone ctx = []"
  shows "affinity_mask s \<noteq> {} \<and> (\<exists>pm. topo_rep (ctx_sched_zone ctx') pm \<and> dom pm = affinity_mask s \<and>
    placed_as_reported avail cpuids pm) \<and> types_ok ctx' \<and>
    (\<forall>aid\<in>affinity_mask s.
       \<exists>d. lookup_aid (ctx_cpu_typecount ctx') (ctx_cpudescs ctx') (ctx_sched_zone ctx') aid =
         Some (Some d) \<and> d \<in> set (ctx_cpudescs ctx'))"
proof -
  obtain ctx1 s1 ctx2 s2 where d1: "detect_cputypes avail cpuids ctx s = Some (0, ctx1, s1)"
    and d2: "detect_cuda ver ctx1 s1 = (0, ctx2, s2)" and d3: "detect_memories ctx2 s2 = (0, ctx', s')"
    using detect_architecture_cases [OF det] by auto
  obtain tm pm where c: "affinity_mask s \<noteq> {}"
    and inv: "hw_inv ctx1 tm (affinity_mask s) pm" and rep: "placed_as_reported avail cpuids pm"
    using detect_cputypes_success [OF d1 zones] by blast
  have t1: "types_ok ctx1" using inv by (simp add: hw_inv_def)
  note cu = detect_cuda_types [OF d2 t1]
  have same: "ctx_cpudescs ctx' = ctx_cpudescs ctx2" "ctx_cpu_typecount ctx' = ctx_cpu_typecount ctx2"
    "ctx_sched_zone ctx' = ctx_sched_zone ctx2"
    using detect_memories_result(3) [OF d3] by auto
  have zone: "ctx_sched_zone ctx' = ctx_sched_zone ctx1"
    using same(3) cu hw_frame_zone by metis
  have tr: "topo_rep (ctx_sched_zone ctx') pm" and dm: "dom pm = affinity_mask s"
    and zt: "zone_types (ctx_sched_zone ctx') \<subseteq> {..<ctx_cpu_typecount ctx'}"
    using inv cu same zone by (auto simp: hw_inv_def)
  have tk: "types_ok ctx'" using cu same by (simp add: types_ok_def ctx_types_wf_def)
  have "\<exists>d. lookup_aid (ctx_cpu_typecount ctx') (ctx_cpudescs ctx') (ctx_sched_zone ctx') aid =
      Some (Some d) \<and> d \<in> set (ctx_cpudescs ctx')" if "aid \<in> affinity_mask s" for aid
  proof -
    have "aid \<in> dom pm" using that dm by simp
    then obtain p k where "pm aid = Some (p, k)" by fastforce
    from lookup_aid_leaf [OF tr this] obtain leaf where "leaf \<in> leaves (ctx_sched_zone ctx')"
      and l: "lookup_aid (ctx_cpu_typecount ctx') (ctx_cpudescs ctx') (ctx_sched_zone ctx') aid =
        Some (torque_cpu_getdesc (ctx_cpu_typecount ctx') (ctx_cpudescs ctx') (cpudesc leaf))"
      by blast
    then have "cpudesc leaf < ctx_cpu_typecount ctx'" using zone_types_leaf zt by blast
    then show ?thesis using l tk by (simp add: torque_cpu_getdesc_def types_ok_def ctx_types_wf_def)
  qed
  then show ?thesis using c tr dm rep tk by blast
qed

section \<open>Detection leaves the event side alone\<close>

text \<open>What every step keeps, the two loops keep.\<close>

lemma cputypes_loop_preserves:
  assumes "\<And>aid ctx tm s r ctx' tm' s'.
      cputype_step avail cpuids aid ctx tm s = Some (r, ctx', tm', s') \<Longrightarrow> Q ctx \<Longrightarrow> Q ctx'"
    and "cputypes_loop avail cpuids cset n z aid ctx tm s = Some (r, ctx', s')" "Q ctx"
  shows "Q ctx'"
  using assms
proof (induction avail cpuids cset n z aid ctx tm s rule: cputypes_loop.induct)
  case (1 avail cpuids cset n z aid ctx tm s)
  show ?case
  proof (cases "z < n \<and> scan_aid cset aid \<noteq> CPU_SETSIZE")
    case False
    then show ?thesis using "1.prems" by (auto simp: cputypes_loop.simps [of _ _ _ n] split: if_splits)
  next
    case True
    obtain q ctx1 tm1 s1 where st: "cputype_step avail cpuids (scan_aid cset aid) ctx tm s = Some (q, ctx1, tm1, s1)"
      using "1.prems"(2) True by (auto simp: cputypes_loop.simps [of _ _ _ n] Let_def split: option.splits)
    have Q1: "Q ctx1" using "1.prems"(1) [OF st "1.prems"(3)] .
    show ?thesis
    proof (cases "q = 0")
      case q: True
      have rec: "cputypes_loop avail cpuids cset n (z + 1) (scan_aid cset aid + 1) ctx1 tm1 s1 = Some (r, ctx', s')"
        using "1.prems"(2) True st q by (simp add: cputypes_loop.simps [of _ _ _ n z])
      show ?thesis by (rule "1.IH" [OF _ refl _ st refl refl refl _ "1.prems"(1) rec Q1]) (use True q in simp_all)
    next
      case False
      then show ?thesis using "1.prems"(2) True st Q1 by (simp add: cputypes_loop.simps [of _ _ _ n z])
    qed
  qed
qed

lemma cuda_loop_preserves:
  assumes "\<And>i ctx s d s1 q ctx' s'.
      cudaid i s = (0, d, s1) \<Longrightarrow> record_cputype ctx d s1 = (q, ctx', s') \<Longrightarrow> Q ctx \<Longrightarrow> Q ctx'"
    and "cuda_loop devs i ctx s = (r, ctx', s')" "Q ctx"
  shows "Q ctx'"
  using assms
proof (induction devs i ctx s rule: cuda_loop.induct)
  case (1 devs i ctx s)
  obtain rc d s1 where cu: "cudaid i s = (rc, d, s1)" by (cases rule: prod_cases3)
  obtain q ctx1 s2 where rec: "record_cputype ctx d s1 = (q, ctx1, s2)" by (cases rule: prod_cases3)
  have Q1: "Q ctx1" if "rc = 0" using "1.prems"(1) [OF _ rec "1.prems"(3)] cu that by simp
  show ?case
  proof (cases "int i < devs \<and> rc = 0 \<and> q \<noteq> None")
    case False
    then show ?thesis using "1.prems"(2,3) cu rec Q1
      by (auto simp: cuda_loop.simps [of devs i] split: if_splits option.splits)
  next
    case True
    then obtain k where k: "q = Some k" by blast
    have go: "cuda_loop devs (i + 1) ctx1 s2 = (r, ctx', s')"
      using "1.prems"(2) True k cu rec by (simp add: cuda_loop.simps [of devs i])
    show ?thesis
      by (rule "1.IH" [OF _ cu [symmetric] refl _ rec [symmetric] k refl "1.prems"(1) go]) (use True Q1 in simp_all)
  qed
qed

definition ev_frame :: "torque_ctx \<Rightarrow> torque_ctx \<Rightarrow> bool" where
  "ev_frame ctx ctx' \<longleftrightarrow> ctx_eventtables ctx' = ctx_eventtables ctx \<and> ctx_evq ctx' = ctx_evq ctx"

lemma spawn_thread_ev: "spawn_thread ctx s = (r, ctx', s') \<Longrightarrow> ev_frame ctx ctx'"
  using spawn_thread_cases [of ctx s r ctx' s'] by (auto simp: ev_frame_def link_thread_def split: option.splits)

lemma record_cputype_ev: "record_cputype ctx d s = (r, ctx', s') \<Longrightarrow> ev_frame ctx ctx'"
  by (auto simp: record_cputype_def add_cputype_def ev_frame_def split: option.splits prod.splits if_splits)

lemma cputype_step_ev:
  assumes "cputype_step avail cpuids aid ctx tm s = Some (r, ctx', tm', s')"
  shows "ev_frame ctx ctx'"
  using assms
  by (auto simp: cputype_step_def Let_def ev_frame_def [of ctx] ev_frame_def [of "_\<lparr>ctx_sched_zone := _\<rparr>"]
      split: option.splits prod.splits if_splits dest!: record_cputype_ev spawn_thread_ev)

lemma cputypes_loop_ev:
  assumes "cputypes_loop avail cpuids cset n z aid ctx tm s = Some (r, ctx', s')"
  shows "ev_frame ctx ctx'"
  by (rule cputypes_loop_preserves [OF _ assms]) (auto simp: ev_frame_def dest!: cputype_step_ev)

lemma cuda_loop_ev:
  assumes "cuda_loop devs i ctx s = (r, ctx', s')"
  shows "ev_frame ctx ctx'"
  by (rule cuda_loop_preserves [OF _ assms]) (auto simp: ev_frame_def dest!: record_cputype_ev)

lemma detect_cputypes_ev:
  assumes "detect_cputypes avail cpuids ctx s = Some (r, ctx', s')"
  shows "ev_frame ctx ctx'"
proof -
  have err: "cputypes_err q m c t = Some (r, ctx', s') \<Longrightarrow> ev_frame c ctx'" for q m c t
    by (auto simp: cputypes_err_def ev_frame_def split: option.splits prod.splits)
  have e: "ev_frame (ctx\<lparr>ctx_cpu_typecount := 0, ctx_cpudescs := []\<rparr>) c = ev_frame ctx c" for c
    by (simp add: ev_frame_def)
  have tr: "ev_frame a b \<Longrightarrow> ev_frame b c \<Longrightarrow> ev_frame a c" for a b c by (simp add: ev_frame_def)
  show ?thesis using assms
    by (auto simp: detect_cputypes_def Let_def split: option.splits prod.splits if_splits
        dest!: err cputypes_loop_ev simp: e intro: tr)
qed

lemma detect_architecture_ev:
  assumes "detect_architecture avail cpuids ver ctx s = Some (0, ctx', s')"
  shows "ev_frame ctx ctx'"
proof -
  obtain ctx1 s1 ctx2 s2 where d: "detect_cputypes avail cpuids ctx s = Some (0, ctx1, s1)"
    "detect_cuda ver ctx1 s1 = (0, ctx2, s2)" "detect_memories ctx2 s2 = (0, ctx', s')"
    using detect_architecture_cases [OF assms] by auto
  have "ev_frame ctx1 ctx2"
    using d(2) cuda_loop_ev by (auto simp: detect_cuda_def ev_frame_def split: prod.splits if_splits)
  moreover have "ev_frame ctx2 ctx'" using detect_memories_result(3) [OF d(3)] by (auto simp: ev_frame_def)
  ultimately show ?thesis using detect_cputypes_ev [OF d(1)] by (simp add: ev_frame_def)
qed

section \<open>What a release calls\<close>

lemma free_types_calls:
  "calls (free_types n s) = calls s @
     concat (replicate n [Sys_free ''tlbdescs'', Sys_free ''memdescs'', Sys_free ''strdescription''])"
  by (induction n arbitrary: s) (simp_all add: free_types_def free_cpudetails_def sys_note_def funpow_swap1)

lemma free_architecture_calls:
  "calls (snd (free_architecture ctx s)) = calls s @
     replicate (zone_count (ctx_sched_zone ctx)) (Sys_free ''zone'') @
     concat (replicate (ctx_cpu_typecount ctx)
       [Sys_free ''tlbdescs'', Sys_free ''memdescs'', Sys_free ''strdescription'']) @
     Sys_free ''cpudescs'' # replicate (length (take (ctx_nodecount ctx) (ctx_manodes ctx))) (Sys_free ''psizevals'') @
     [Sys_free ''manodes'']"
  by (simp add: free_architecture_def reset_topology_def free_memories_def free_topology_calls free_types_calls
      free_nodes_calls sys_note_def)

section \<open>A sample machine\<close>

text \<open>One sample processor on a system that grants every request, for the witnesses.\<close>

definition sample_spawn :: "sysret list" where
  "sample_spawn =
     [zero_ret, zero_ret\<lparr>rout := - 1\<rparr>, ok_ret, zero_ret, zero_ret, zero_ret, zero_ret\<lparr>rout := 7\<rparr>,
      zero_ret, ok_ret, ok_ret, ok_ret, zero_ret, zero_ret,
      zero_ret, zero_ret, zero_ret, zero_ret, zero_ret]"

definition sample_answers :: "sysret list" where
  "sample_answers =
     [zero_ret\<lparr>rset := {0}\<rparr>, ok_ret, zero_ret, ok_ret, ok_ret, ok_ret, ok_ret] @ sample_spawn @
     [zero_ret, zero_ret\<lparr>rv := 100\<rparr>,
      zero_ret\<lparr>rv := 4096\<rparr>, ok_ret, ok_ret, zero_ret\<lparr>rv := 4096\<rparr>, zero_ret, ok_ret]"

lemma sample_spawn_run:
  assumes "answers s = sample_spawn @ as"
  shows "\<exists>s'. spawn_thread ctx s = (0, link_thread 7 ctx, s') \<and> answers s' = as"
  using assms
  by (simp add: spawn_thread_def setup_thread_stack_def get_stack_def get_stack_limit_def
      sample_spawn_def get_pages_def Let_def thread_launch_def evhandler_defs
      spawn_finish_def io_simps RLIM_INFINITY_def PTHREAD_STACK_MIN_def SIGSTKSZ_def)

lemma sample_count: "portable_cpuset_count {0} = 1" by (simp add: portable_cpuset_count_card)

lemma sample_scan: "scan_aid {0} 0 = 0" by (simp add: scan_aid.simps)

text \<open>What the witnesses need of a context with the one sample processor.\<close>

definition sample_found :: "torque_ctx \<Rightarrow> bool" where
  "sample_found ctx \<longleftrightarrow> ctx_nodecount ctx = 0 \<and> ctx_manodes ctx = [] \<and> ctx_cpu_typecount ctx = 1 \<and>
     (\<exists>cpu. ctx_cpudescs ctx = [cpu] \<and> cpu_tlbdescs cpu = [] \<and> cpu_tlbs cpu = 0)"

lemma sample_step_run:
  assumes "answers s = [zero_ret, ok_ret, ok_ret, ok_ret, ok_ret] @ sample_spawn @ as"
    and "ctx_sched_zone ctx = []" "ctx_cpudescs ctx = []" "ctx_cpu_typecount ctx = 0"
    and "ctx_nodecount ctx = 0" "ctx_manodes ctx = []"
  shows "\<exists>ctx' tm' s'. cputype_step True (\<lambda>_. sample_intel) 0 ctx [zero_top_map] s =
      Some (0, ctx', tm', s') \<and> answers s' = as \<and> sample_found ctx'"
proof -
  obtain s1 where p: "pin_thread 0 s = (0, s1)"
    and a1: "answers s1 = ok_ret # ok_ret # [ok_ret, ok_ret] @ sample_spawn @ as"
    using assms(1) by (auto simp: pin_thread_def io_simps)
  obtain cpu s2 where x: "x86cpuid True sample_intel zero_cput s1 = Some (0, cpu, Some (0, 0, 0), s2)"
    and a2: "answers s2 = [ok_ret, ok_ret] @ sample_spawn @ as"
    and tl: "cpu_tlbdescs cpu = []" "cpu_tlbs cpu = 0"
    using sample_intel_run [OF a1] by blast
  have d: "detect_cpudetails True (\<lambda>_. sample_intel) 0 s = Some (0, cpu, Some (0, 0, 0), s2)"
    using p x by (simp add: detect_cpudetails_def)
  let ?ctx1 = "ctx\<lparr>ctx_cpudescs := [cpu\<lparr>cpu_elements := 1\<rparr>], ctx_cpu_typecount := 1\<rparr>"
  obtain s3 where r: "record_cputype ctx cpu s2 = (Some 0, ?ctx1, s3)"
    and a3: "answers s3 = ok_ret # sample_spawn @ as"
    using a2 assms(3,4) by (simp add: record_cputype_def match_cputype_def add_cputype_def io_simps)
  obtain s4 where fg: "find_sched_group [] 0 0 s3 = (Some 0, [Zone {} 0 0 []], s4)"
    and a4: "answers s4 = sample_spawn @ as"
    using a3 by (simp add: find_sched_group.simps create_zone_def io_simps)
  obtain zs tm' where t: "topologize (ctx_sched_zone ?ctx1) [zero_top_map] 0 0 0 0 0 s3 = Some (0, zs, tm', s4)"
    using fg assms(2) by (simp add: topologize_def share_level_iff)
  obtain s5 where sp: "spawn_thread (?ctx1\<lparr>ctx_sched_zone := zs\<rparr>) s4 =
      (0, link_thread 7 (?ctx1\<lparr>ctx_sched_zone := zs\<rparr>), s5)"
    and a5: "answers s5 = as" using sample_spawn_run [OF a4] by blast
  show ?thesis using d r t sp a5 tl assms(5,6)
    by (auto simp: cputype_step_def link_thread_def sample_found_def Let_def split: option.splits)
qed

definition sample_rest :: "sysret list" where
  "sample_rest = [zero_ret\<lparr>rv := 100\<rparr>,
     zero_ret\<lparr>rv := 4096\<rparr>, ok_ret, ok_ret, zero_ret\<lparr>rv := 4096\<rparr>, zero_ret, ok_ret]"

lemma sample_cputypes_run:
  assumes "answers s = sample_answers @ as"
    and "ctx_sched_zone ctx = []" "ctx_nodecount ctx = 0" "ctx_manodes ctx = []"
  shows "\<exists>ctx' s'. detect_cputypes True (\<lambda>_. sample_intel) ctx s = Some (0, ctx', s') \<and>
    answers s' = sample_rest @ as \<and> sample_found ctx'"
proof -
  let ?ctx0 = "ctx\<lparr>ctx_cpu_typecount := 0, ctx_cpudescs := []\<rparr>"
  let ?rest = "zero_ret # sample_rest @ as"
  obtain s1 where c: "detect_cpucount s = (1, {0}, s1)"
    and a1: "answers s1 = ok_ret # [zero_ret, ok_ret, ok_ret, ok_ret, ok_ret] @ sample_spawn @ ?rest"
    using assms(1)
    by (simp add: detect_cpucount_def sample_answers_def sample_rest_def sys_call_def
        sample_count [unfolded One_nat_def] zero_ret_def)
  obtain s2 where m: "sys_alloc (Sys_malloc ''topmap'') s1 = (True, s2)"
    and a2: "answers s2 = [zero_ret, ok_ret, ok_ret, ok_ret, ok_ret] @ sample_spawn @ ?rest"
    using a1 by (simp add: io_simps)
  obtain ctx1 tm s3 where st: "cputype_step True (\<lambda>_. sample_intel) 0 ?ctx0 [zero_top_map] s2 =
      Some (0, ctx1, tm, s3)" and a3: "answers s3 = ?rest" and f: "sample_found ctx1"
    using sample_step_run [OF a2, of ?ctx0] assms by auto
  have "cputypes_loop True (\<lambda>_. sample_intel) {0} 1 0 0 ?ctx0 [zero_top_map] s2 = Some (0, ctx1, s3)"
    using st by (simp add: cputypes_loop.simps sample_scan)
  then show ?thesis using c m a3 f
    by (simp add: detect_cputypes_def unpin_thread_def sys_int_def sys_call_def zero_ret_def sys_note_def)
qed

lemma sample_detect_run:
  assumes "answers s = sample_answers @ as"
    and "ctx_sched_zone ctx = []" "ctx_nodecount ctx = 0" "ctx_manodes ctx = []"
  shows "\<exists>ctx' s'. detect_architecture True (\<lambda>_. sample_intel) 2020 ctx s = Some (0, ctx', s') \<and>
    answers s' = as"
proof -
  obtain ctx1 s4 where d: "detect_cputypes True (\<lambda>_. sample_intel) ctx s = Some (0, ctx1, s4)"
    and a4: "answers s4 = sample_rest @ as" and f: "sample_found ctx1"
    using sample_cputypes_run [OF assms] by blast
  obtain s5 where cu: "detect_cuda 2020 ctx1 s4 = (0, ctx1, s5)" and a5: "answers s5 = tl sample_rest @ as"
    using a4 by (simp add: detect_cuda_def detect_cudadevcount_def sys_call_def zero_ret_def sample_rest_def
        CUDA_ERROR_NO_DEVICE_def cuda_loop.simps)
  obtain ctx' s' where "detect_memories ctx1 s5 = (0, ctx', s')" "answers s' = as"
    using a5 f
    by (auto simp: detect_memories_def determine_pagesizes_def add_pagesize_def determine_sysmem_def io_simps
        sample_rest_def sample_found_def cpu_pagesizes.simps ctx_getdesc_def torque_cpu_getdesc_def
        add_node_def detect_numa_def array_insert_def Let_def shift_loop.simps realloc_slots_def)
  then show ?thesis using d cu by (simp add: detect_architecture_def)
qed

section \<open>Properties\<close>

text \<open>
  Property C3: detection of the architecture. After a successful \<open>detect_architecture\<close> the
  zones represent a placement of exactly the processors of the affinity mask, each where its own
  \<open>cpuid\<close> puts it, the recorded types are well formed and pairwise different, and the lookup of
  every processor of the mask yields a recorded description.
\<close>

theorem architecture_detected:
  assumes "detect_architecture avail cpuids ver ctx s = Some (0, ctx', s')" "ctx_sched_zone ctx = []"
  shows "affinity_mask s \<noteq> {} \<and> (\<exists>pm. topo_rep (ctx_sched_zone ctx') pm \<and> dom pm = affinity_mask s \<and>
    placed_as_reported avail cpuids pm) \<and> types_ok ctx' \<and>
    (\<forall>aid\<in>affinity_mask s.
       \<exists>d. lookup_aid (ctx_cpu_typecount ctx') (ctx_cpudescs ctx') (ctx_sched_zone ctx') aid =
         Some (Some d) \<and> d \<in> set (ctx_cpudescs ctx'))"
  using assms by (rule detect_architecture_lookup)

theorem architecture_detected_witness:
  "\<exists>ctx' s' d. detect_architecture True (\<lambda>_. sample_intel) 2020 zero_ctx (os_answering sample_answers) =
      Some (0, ctx', s') \<and>
    lookup_aid (ctx_cpu_typecount ctx') (ctx_cpudescs ctx') (ctx_sched_zone ctx') 0 = Some (Some d)"
proof -
  obtain ctx' s' where run: "detect_architecture True (\<lambda>_. sample_intel) 2020 zero_ctx
      (os_answering sample_answers) = Some (0, ctx', s')"
    using sample_detect_run [of "os_answering sample_answers" "[]" zero_ctx]
    by (auto simp: os_answering_def zero_ctx_def)
  have "0 \<in> affinity_mask (os_answering sample_answers)"
    by (simp add: affinity_mask_def detect_cpucount_def sample_answers_def os_answering_def sys_call_def zero_ret_def)
  with architecture_detected [OF run] run show ?thesis by (auto simp: zero_ctx_def)
qed

text \<open>
  Property C30: the invariant of the pass over the processors. After a successful
  \<open>detect_cputypes\<close> the element counts of the types add up to the number of processors in the mask,
  and the zones refer to recorded types only.
\<close>

theorem cputypes_counted:
  assumes "detect_cputypes avail cpuids ctx s = Some (0, ctx', s')" "ctx_sched_zone ctx = []"
  shows "types_ok ctx' \<and> elements_total ctx' = card (affinity_mask s) \<and>
    zone_types (ctx_sched_zone ctx') \<subseteq> {..<ctx_cpu_typecount ctx'}"
  using detect_cputypes_success [OF assms] by (auto simp: hw_inv_def)

theorem cputypes_counted_witness:
  "\<exists>ctx' s'. detect_cputypes True (\<lambda>_. sample_intel) zero_ctx (os_answering sample_answers) =
      Some (0, ctx', s') \<and> elements_total ctx' = 1"
proof -
  obtain ctx' s' where run: "detect_cputypes True (\<lambda>_. sample_intel) zero_ctx
      (os_answering sample_answers) = Some (0, ctx', s')"
    using sample_cputypes_run [of "os_answering sample_answers" "[]" zero_ctx]
    by (auto simp: os_answering_def zero_ctx_def)
  have "affinity_mask (os_answering sample_answers) = {0}"
    by (simp add: affinity_mask_def detect_cpucount_def sample_answers_def os_answering_def sys_call_def zero_ret_def)
  with cputypes_counted [OF run] run show ?thesis by (auto simp: zero_ctx_def)
qed

text \<open>
  Property C31: a failed detection leaves no hardware description behind: no processor types, no
  memory nodes and no topology, whatever stage failed.
\<close>

theorem architecture_undone:
  assumes "detect_architecture avail cpuids ver ctx s = Some (r, ctx', s')" "r \<noteq> 0"
  shows "ctx_cpu_typecount ctx' = 0 \<and> ctx_cpudescs ctx' = [] \<and> ctx_nodecount ctx' = 0 \<and>
    ctx_manodes ctx' = [] \<and> ctx_sched_zone ctx' = []"
  using detect_architecture_cases [OF assms(1)] assms(2) by (auto simp: hw_empty_def)

theorem architecture_undone_witness:
  "\<exists>ctx' s'. detect_architecture True (\<lambda>_. sample_intel) 2020 zero_ctx (os_answering []) =
      Some (TORQUE_ERR_AFFINITY, ctx', s') \<and> ctx_cpudescs ctx' = []"
proof -
  obtain ctx' s' where run: "detect_architecture True (\<lambda>_. sample_intel) 2020 zero_ctx (os_answering []) =
      Some (TORQUE_ERR_AFFINITY, ctx', s')"
    by (auto simp: detect_architecture_def detect_cputypes_def detect_cpucount_def cputypes_err_def
        reap_threads_def zero_ctx_def arch_err_def free_architecture_def reset_topology_def
        free_memories_def io_simps split: prod.splits)
  with architecture_undone [OF run] show ?thesis by auto
qed

text \<open>
  Fact: processors are grouped by their whole description, in which the local APIC
  identifier is stored. Two processors with different identifiers are never recognised as
  the same type, so on processors that report function 0xb every type has one element.
\<close>

theorem apic_separates_types:
  assumes "x86_apic (spec_x86 (cpu_spec a)) \<noteq> x86_apic (spec_x86 (cpu_spec b))"
  shows "compare_cpudetails a b \<noteq> 0"
  using assms by (auto simp: compare_cpudetails_def)

theorem apic_separates_types_witness:
  "compare_cpudetails (set_apic 0 zero_cput) (set_apic 1 zero_cput) \<noteq> 0"
  by (rule apic_separates_types) (simp add: set_apic_def)

end
