(* ===== verification/Torque.thy ===== *)
theory Torque
  imports Evqueue Arch
begin

text \<open>
  The library's interface, \<^verbatim>\<open>src/src/libtorque/torque.c\<close>, with the connection glue of
  \<^verbatim>\<open>src/src/libtorque/conn.c\<close>, the callback objects of \<^verbatim>\<open>src/src/libtorque/buffers.h\<close> and the
  error strings of \<^verbatim>\<open>src/src/libtorque/internal.c\<close>. An entry point yields its result, the
  context it leaves and the operating system's state; \<open>None\<close> means that it does not
  return or that its behaviour is undefined.
\<close>

section \<open>Event tables\<close>

definition SIGRTMAX :: nat where [simp]: "SIGRTMAX = 64"
definition FOPEN_MAX :: nat where [simp]: "FOPEN_MAX = 16"

definition max_fds :: "sysst \<Rightarrow> nat \<times> sysst" where
  "max_fds s =
     (case sys_int (Sys_sysconf ''_SC_OPEN_MAX'') s of
        (sc, s1) \<Rightarrow>
          if sc \<le> 0 then
            (case sys_int Sys_getdtablesize s1 of
               (sc, s2) \<Rightarrow> (if sc \<le> 0 then FOPEN_MAX else nat sc, s2))
          else (nat sc, s1))"

definition initialize_etables :: "torque_ctx \<Rightarrow> sysst \<Rightarrow> (int \<times> torque_ctx \<times> sysst) option" where
  "initialize_etables ctx s =
     (case max_fds s of
        (n, s1) \<Rightarrow>
          let ctx0 = ctx\<lparr>ctx_eventtables := (ctx_eventtables ctx)\<lparr>fdarraysize := n\<rparr>\<rparr> in
          if n \<le> 0 then Some (- 1, ctx0, s1)
          else
            (case create_evsources n s1 of
               (None, s2) \<Rightarrow> Some (- 1, ctx0, s2)
             | (Some fds, s2) \<Rightarrow>
                 let ctx1 = ctx0\<lparr>ctx_eventtables :=
                       (ctx_eventtables ctx0)\<lparr>fdarray := fds, sigarraysize := SIGRTMAX\<rparr>\<rparr>
                 in case create_evsources SIGRTMAX s2 of
                      (None, s3) \<Rightarrow> Some (- 1, ctx1, snd (destroy_evsources s3))
                    | (Some sigs, s3) \<Rightarrow>
                        (case initialize_common_sources
                                (ctx1\<lparr>ctx_eventtables := (ctx_eventtables ctx1)\<lparr>sigarray := sigs\<rparr>\<rparr>) s3 of
                           None \<Rightarrow> None
                         | Some (r, ctx2, s4) \<Rightarrow>
                             if r \<noteq> 0
                             then Some (- 1, ctx2, snd (destroy_evsources (snd (destroy_evsources s4))))
                             else Some (0, ctx2, s4))))"

definition free_etables :: "evtables \<Rightarrow> sysst \<Rightarrow> int \<times> sysst" where
  "free_etables e s =
     (case sys_int (Sys_close (common_signalfd e)) s of
        (r1, s1) \<Rightarrow>
      case destroy_evsources s1 of
        (r2, s2) \<Rightarrow>
      case destroy_evsources s2 of
        (r3, s3) \<Rightarrow> ((r1 OR r2) OR r3, s3))"

section \<open>Contexts\<close>

text \<open>
  \<open>raw\<close> is the indeterminate contents of the memory that \<open>malloc\<close> returns. The result
  holds what is in \<open>*e\<close> afterwards, which the caller has set to \<open>TORQUE_ERR_NONE\<close>.
\<close>

definition create_torque_ctx ::
  "torque_ctx \<Rightarrow> sysst \<Rightarrow> (torque_err \<times> torque_ctx option \<times> sysst) option" where
  "create_torque_ctx raw s =
     (case sys_alloc (Sys_malloc ''torque_ctx'') s of
        (ok, s1) \<Rightarrow>
          if \<not> ok then Some (TORQUE_ERR_NONE, None, s1)
          else
            (case initialize_etables raw s1 of
               None \<Rightarrow> None
             | Some (r, ctx1, s2) \<Rightarrow>
                 if r \<noteq> 0 then Some (TORQUE_ERR_RESOURCE, None, sys_note (Sys_free ''torque_ctx'') s2)
                 else
                   (case init_evqueue ctx1 s2 of
                      None \<Rightarrow> None
                    | Some (q, ctx2, s3) \<Rightarrow>
                        if q \<noteq> 0
                        then Some (TORQUE_ERR_RESOURCE, None,
                               sys_note (Sys_free ''torque_ctx'') (snd (free_etables (ctx_eventtables ctx2) s3)))
                        else
                          Some (TORQUE_ERR_NONE,
                            Some (ctx2\<lparr>ctx_sched_zone := [], ctx_cpudescs := [], ctx_manodes := [],
                                       ctx_cpu_typecount := 0, ctx_nodecount := 0,
                                       ctx_ev := None, ctx_nexttid := Map.empty\<rparr>), s3))))"

definition free_torque_ctx :: "torque_ctx \<Rightarrow> sysst \<Rightarrow> int \<times> sysst" where
  "free_torque_ctx ctx s =
     (case free_etables (ctx_eventtables ctx) s of
        (r1, s1) \<Rightarrow>
      case free_architecture ctx s1 of
        (ctx1, s2) \<Rightarrow>
      case destroy_evqueue ctx1 s2 of
        (r2, _, s3) \<Rightarrow> (r1 OR r2, sys_note (Sys_free ''torque_ctx'') s3))"

definition torque_init_sigmasked ::
  "bool \<Rightarrow> (nat \<Rightarrow> cpuid_fn) \<Rightarrow> int \<Rightarrow> torque_ctx \<Rightarrow> sysst \<Rightarrow>
     (torque_err \<times> torque_ctx option \<times> sysst) option" where
  "torque_init_sigmasked avail cpuids CUDA_VERSION raw s =
     (case create_torque_ctx raw s of
        None \<Rightarrow> None
      | Some (e, None, s1) \<Rightarrow> Some (e, None, s1)
      | Some (e, Some ctx, s1) \<Rightarrow>
          (case detect_architecture avail cpuids CUDA_VERSION ctx s1 of
             None \<Rightarrow> None
           | Some (r, ctx1, s2) \<Rightarrow>
               if r \<noteq> 0 then Some (r, None, snd (free_torque_ctx ctx1 s2))
               else Some (r, Some ctx1, s2)))"

section \<open>Signal masks\<close>

text \<open>
  A \<open>sigset_t\<close> is a set of the signals 1 to 64. \<open>sigdelset\<close> fails outside that range.
\<close>

definition sigfillset :: "nat set" where
  "sigfillset = {1..64}"

definition sigdelset :: "nat set \<Rightarrow> nat \<Rightarrow> nat set option" where
  "sigdelset ss n = (if 1 \<le> n \<and> n \<le> 64 then Some (ss - {n}) else None)"

text \<open>\<open>SIGILL\<close>, \<open>SIGABRT\<close>, \<open>SIGFPE\<close>, \<open>SIGSEGV\<close>, \<open>SIGBUS\<close>, \<open>SIGXCPU\<close>, \<open>SIGSTKFLT\<close> on x86 Linux.\<close>

definition unblocked :: "nat list" where
  "unblocked = [4, 6, 8, 11, 7, 24, 16]"

fun delsets :: "nat set \<Rightarrow> nat list \<Rightarrow> nat set option" where
  "delsets ss [] = Some ss"
| "delsets ss (z # zs) = (case sigdelset ss z of None \<Rightarrow> None | Some ss' \<Rightarrow> delsets ss' zs)"

definition makesigmask :: "nat set option" where
  "makesigmask = delsets sigfillset unblocked"

definition torque_sigmask :: "sysst \<Rightarrow> torque_err \<times> nat set \<times> sysst" where
  "torque_sigmask s =
     (case sys_call (Sys_sigmask ''BLOCK'' {SIGTERM, SIGINT}) s of
        (a, s') \<Rightarrow> (if rv a \<noteq> 0 then TORQUE_ERR_ASSERT else 0, rset a, s'))"

section \<open>Stopping and blocking\<close>

definition finish_ctx ::
  "(torque_ctx \<Rightarrow> sysst \<Rightarrow> (int \<times> sysst) option) \<Rightarrow> torque_ctx option \<Rightarrow> sysst \<Rightarrow>
     (torque_err \<times> sysst) option" where
  "finish_ctx join octx s =
     (case octx of
        None \<Rightarrow> Some (0, s)
      | Some ctx \<Rightarrow>
          (case torque_sigmask s of
             (r, os, s1) \<Rightarrow>
               if r \<noteq> 0 then Some (r, s1)
               else
                 (case join ctx s1 of
                    None \<Rightarrow> None
                  | Some (r1, s2) \<Rightarrow>
                 case free_torque_ctx ctx s2 of
                   (r2, s3) \<Rightarrow>
                 case sys_int (Sys_sigmask ''SETMASK'' os) s3 of
                   (r3, s4) \<Rightarrow>
                     Some (if (r1 OR r2) OR r3 \<noteq> 0 then TORQUE_ERR_ASSERT else 0, s4))))"

definition torque_block :: "torque_ctx option \<Rightarrow> sysst \<Rightarrow> (torque_err \<times> sysst) option" where
  "torque_block octx s = finish_ctx block_threads octx s"

definition torque_stop :: "torque_ctx option \<Rightarrow> sysst \<Rightarrow> (torque_err \<times> sysst) option" where
  "torque_stop octx s = finish_ctx reap_threads octx s"

section \<open>Initialisation\<close>

definition SIGPIPE :: nat where [simp]: "SIGPIPE = 13"

text \<open>
  The first part makes sure that \<open>SIGPIPE\<close> is handled or ignored; a query of its action
  stores the handler, 0 for \<open>SIG_DFL\<close>.
\<close>

definition ignore_sigpipe :: "sysst \<Rightarrow> torque_err \<times> sysst" where
  "ignore_sigpipe s =
     (case sys_call (Sys_sigaction SIGPIPE) s of
        (a, s1) \<Rightarrow>
          if rv a \<noteq> 0 then (TORQUE_ERR_ASSERT, s1)
          else if rout a = 0 then
            (case sys_int (Sys_sigaction SIGPIPE) s1 of
               (r, s2) \<Rightarrow> (if r \<noteq> 0 then TORQUE_ERR_ASSERT else TORQUE_ERR_NONE, s2))
          else (TORQUE_ERR_NONE, s1))"

definition torque_init ::
  "bool \<Rightarrow> (nat \<Rightarrow> cpuid_fn) \<Rightarrow> int \<Rightarrow> torque_ctx \<Rightarrow> sysst \<Rightarrow>
     (torque_err \<times> torque_ctx option \<times> sysst) option" where
  "torque_init avail cpuids CUDA_VERSION raw s =
     (case ignore_sigpipe s of
        (e, s1) \<Rightarrow>
          if e \<noteq> TORQUE_ERR_NONE then Some (e, None, s1)
          else
            (case makesigmask of
               None \<Rightarrow> Some (TORQUE_ERR_ASSERT, None, s1)
             | Some add \<Rightarrow>
                 (case sys_call (Sys_sigmask ''BLOCK'' add) s1 of
                    (a, s2) \<Rightarrow>
                      if rv a \<noteq> 0 then Some (TORQUE_ERR_ASSERT, None, s2)
                      else
                        (case torque_init_sigmasked avail cpuids CUDA_VERSION raw s2 of
                           None \<Rightarrow> None
                         | Some (e, ret, s3) \<Rightarrow>
                             (case sys_int (Sys_sigmask ''SETMASK'' (rset a)) s3 of
                                (r, s4) \<Rightarrow>
                                  if r \<noteq> 0 then
                                    (case torque_stop ret s4 of
                                       None \<Rightarrow> None
                                     | Some (_, s5) \<Rightarrow> Some (TORQUE_ERR_ASSERT, None, s5))
                                  else Some (e, ret, s4))))))"

section \<open>Adding sources\<close>

definition SIGKILL :: nat where [simp]: "SIGKILL = 9"
definition SIGSTOP :: nat where [simp]: "SIGSTOP = 19"
definition EINPROGRESS :: nat where [simp]: "EINPROGRESS = 115"

definition torque_addsignal ::
  "torque_ctx \<Rightarrow> nat set \<Rightarrow> nat \<Rightarrow> nat \<Rightarrow> sysst \<Rightarrow> (torque_err \<times> torque_ctx \<times> sysst) option" where
  "torque_addsignal ctx sigs fxn state s =
     (if SIGTERM \<in> sigs \<or> SIGKILL \<in> sigs \<or> SIGSTOP \<in> sigs then Some (TORQUE_ERR_INVAL, ctx, s)
      else
        (case sys_call (Sys_sigmask ''BLOCK'' sigs) s of
           (a, s1) \<Rightarrow>
             if rv a \<noteq> 0 then Some (TORQUE_ERR_ASSERT, ctx, s1)
             else
               (case add_signal_to_evhandler ctx sigs (Some (Cb_user fxn)) (Ptr_user state) s1 of
                  None \<Rightarrow> None
                | Some (ret, ctx', s2) \<Rightarrow>
                    if ret \<noteq> 0 then Some (ret, ctx', snd (sys_int (Sys_sigmask ''SETMASK'' (rset a)) s2))
                    else Some (0, ctx', s2))))"

definition torque_addtimer ::
  "torque_ctx \<Rightarrow> nat \<Rightarrow> nat \<Rightarrow> timer_heap \<Rightarrow> sysst \<Rightarrow>
     (torque_err \<times> torque_ctx \<times> timer_heap \<times> sysst) option" where
  "torque_addtimer ctx fxn state h s = add_timer_to_evhandler ctx fxn state h s"

text \<open>A buffered descriptor's callback object; \<open>rx\<close> and \<open>tx\<close> are the client's functions, if any.\<close>

record torque_rxbufcb =
  cb_rxbuf :: torque_rxbuf
  cb_rx :: "nat option"
  cb_tx :: "nat option"
  cb_cbstate :: nat

type_synonym rxcb_heap = "nat \<rightharpoonup> torque_rxbufcb"

definition create_rxbuffercb ::
  "torque_ctx \<Rightarrow> nat option \<Rightarrow> nat option \<Rightarrow> nat \<Rightarrow> rxcb_heap \<Rightarrow> sysst \<Rightarrow>
     nat option \<times> rxcb_heap \<times> sysst" where
  "create_rxbuffercb ctx rx tx cbstate h s =
     (case sys_ptr (Sys_malloc ''rxbufcb'') s of
        (None, s1) \<Rightarrow> (None, h, s1)
      | (Some p, s1) \<Rightarrow>
          (case initialize_rxbuffer ctx s1 of
             (Some rxb, s2) \<Rightarrow>
               (Some p, h(p \<mapsto> \<lparr>cb_rxbuf = rxb, cb_rx = rx, cb_tx = tx, cb_cbstate = cbstate\<rparr>), s2)
           | (None, s2) \<Rightarrow> (None, h, sys_note (Sys_free ''rxbufcb'') s2)))"

text \<open>Only the buffer goes; the object stays allocated.\<close>

definition free_rxbuffercb :: "nat \<Rightarrow> rxcb_heap \<Rightarrow> sysst \<Rightarrow> sysst option" where
  "free_rxbuffercb p h s =
     (case h p of None \<Rightarrow> None | Some cb \<Rightarrow> Some (free_rxbuffer (cb_rxbuf cb) s))"

definition torque_addfd ::
  "torque_ctx \<Rightarrow> int \<Rightarrow> nat option \<Rightarrow> nat option \<Rightarrow> nat \<Rightarrow> rxcb_heap \<Rightarrow> sysst \<Rightarrow>
     (torque_err \<times> torque_ctx \<times> rxcb_heap \<times> sysst) option" where
  "torque_addfd ctx fd rx tx state h s =
     (if fd < 0 then Some (TORQUE_ERR_INVAL, ctx, h, s)
      else
        (case create_rxbuffercb ctx rx tx state h s of
           (None, h1, s1) \<Rightarrow> Some (TORQUE_ERR_RESOURCE, ctx, h1, s1)
         | (Some p, h1, s1) \<Rightarrow>
             (case add_fd_to_evhandler ctx fd
                     (if rx \<noteq> None then Some Cb_buffered_rxfxn else None)
                     (if tx \<noteq> None then Some Cb_buffered_txfxn else None) (Ptr_obj p) EVONESHOT s1 of
                None \<Rightarrow> None
              | Some (ret, ctx', s2) \<Rightarrow>
                  if ret \<noteq> 0 then
                    (case free_rxbuffercb p h1 s2 of
                       None \<Rightarrow> None
                     | Some s3 \<Rightarrow> Some (ret, ctx', h1, s3))
                  else Some (ret, ctx', h1, s2))))"

definition torque_addfd_unbuffered ::
  "torque_ctx \<Rightarrow> int \<Rightarrow> cbfn option \<Rightarrow> cbfn option \<Rightarrow> cbptr \<Rightarrow> sysst \<Rightarrow>
     (torque_err \<times> torque_ctx \<times> sysst) option" where
  "torque_addfd_unbuffered ctx fd rx tx state s =
     (if fd < 0 then Some (TORQUE_ERR_INVAL, ctx, s)
      else add_fd_to_evhandler ctx fd rx tx state EVONESHOT s)"

definition torque_addfd_concurrent ::
  "torque_ctx \<Rightarrow> int \<Rightarrow> cbfn option \<Rightarrow> cbfn option \<Rightarrow> cbptr \<Rightarrow> sysst \<Rightarrow>
     (torque_err \<times> torque_ctx \<times> sysst) option" where
  "torque_addfd_concurrent ctx fd rx tx state s =
     (if fd < 0 then Some (TORQUE_ERR_INVAL, ctx, s)
      else add_fd_to_evhandler ctx fd rx tx state 0 s)"

section \<open>Connections\<close>

record torque_conncb =
  cn_rxfxn :: "nat option"
  cn_txfxn :: "nat option"
  cn_cbstate :: nat

type_synonym conn_heap = "nat \<rightharpoonup> torque_conncb"

definition create_conncb ::
  "nat option \<Rightarrow> nat option \<Rightarrow> nat \<Rightarrow> conn_heap \<Rightarrow> sysst \<Rightarrow> nat option \<times> conn_heap \<times> sysst" where
  "create_conncb rx tx state h s =
     (case sys_ptr (Sys_malloc ''conncb'') s of
        (None, s') \<Rightarrow> (None, h, s')
      | (Some p, s') \<Rightarrow> (Some p, h(p \<mapsto> \<lparr>cn_rxfxn = rx, cn_txfxn = tx, cn_cbstate = state\<rparr>), s'))"

definition free_conncb :: "nat \<Rightarrow> conn_heap \<Rightarrow> sysst \<Rightarrow> conn_heap \<times> sysst" where
  "free_conncb p h s = (h(p := None), sys_note (Sys_free ''conncb'') s)"

text \<open>The client's calls, if any: a null write callback is called without a test.\<close>

definition conn_unbuffered_txfxn ::
  "int \<Rightarrow> nat \<Rightarrow> conn_heap \<Rightarrow> sysst \<Rightarrow> ((nat \<times> nat) list \<times> conn_heap \<times> sysst) option" where
  "conn_unbuffered_txfxn fd p h s =
     (case sys_int (Sys_connect fd) s of
        (r, s1) \<Rightarrow>
          if r = 0 then
            (case h p of
               None \<Rightarrow> None
             | Some cb \<Rightarrow>
                 (case cn_txfxn cb of
                    None \<Rightarrow> None
                  | Some f \<Rightarrow> (case free_conncb p h s1 of (h', s2) \<Rightarrow> Some ([(f, cn_cbstate cb)], h', s2))))
          else Some ([], h, s1))"

text \<open>The branches shared by the two entry points, once \<open>connect\<close> has failed.\<close>

definition connecting ::
  "torque_ctx \<Rightarrow> int \<Rightarrow> nat option \<Rightarrow> nat option \<Rightarrow> nat \<Rightarrow> conn_heap \<Rightarrow> sysst \<Rightarrow>
     (torque_err \<times> torque_ctx \<times> conn_heap \<times> sysst) option" where
  "connecting ctx fd rx tx state h s =
     (if errno s = EINPROGRESS then
        (case create_conncb rx tx state h s of
           (None, h1, s1) \<Rightarrow> Some (TORQUE_ERR_SYSCALL + int (errno s1), ctx, h1, s1)
         | (Some p, h1, s1) \<Rightarrow>
             (case add_fd_to_evhandler ctx fd None (Some Cb_conn_unbuffered_txfxn) (Ptr_obj p) EVONESHOT s1 of
                None \<Rightarrow> None
              | Some (ret, ctx', s2) \<Rightarrow>
                  if ret \<noteq> 0 then (case free_conncb p h1 s2 of (h2, s3) \<Rightarrow> Some (ret, ctx', h2, s3))
                  else Some (ret, ctx', h1, s2)))
      else Some (TORQUE_ERR_SYSCALL + int (errno s), ctx, h, s))"

definition torque_addconnector ::
  "torque_ctx \<Rightarrow> int \<Rightarrow> nat option \<Rightarrow> nat option \<Rightarrow> nat \<Rightarrow> rxcb_heap \<Rightarrow> conn_heap \<Rightarrow> sysst \<Rightarrow>
     (torque_err \<times> torque_ctx \<times> rxcb_heap \<times> conn_heap \<times> sysst) option" where
  "torque_addconnector ctx fd rx tx state rh ch s =
     (if fd < 0 then Some (TORQUE_ERR_INVAL, ctx, rh, ch, s)
      else
        (case sys_int (Sys_connect fd) s of
           (r, s1) \<Rightarrow>
             if r \<noteq> 0 then
               (case connecting ctx fd rx tx state ch s1 of
                  None \<Rightarrow> None
                | Some (ret, ctx', ch', s2) \<Rightarrow> Some (ret, ctx', rh, ch', s2))
             else
               (case torque_addfd ctx fd rx tx state rh s1 of
                  None \<Rightarrow> None
                | Some (ret, ctx', rh', s2) \<Rightarrow> Some (ret, ctx', rh', ch, s2))))"

definition torque_addconnector_unbuffered ::
  "torque_ctx \<Rightarrow> int \<Rightarrow> nat option \<Rightarrow> nat option \<Rightarrow> nat \<Rightarrow> conn_heap \<Rightarrow> sysst \<Rightarrow>
     (torque_err \<times> torque_ctx \<times> conn_heap \<times> sysst) option" where
  "torque_addconnector_unbuffered ctx fd rx tx state ch s =
     (if fd < 0 then Some (TORQUE_ERR_INVAL, ctx, ch, s)
      else
        (case sys_int (Sys_connect fd) s of
           (r, s1) \<Rightarrow>
             if r \<noteq> 0 then connecting ctx fd rx tx state ch s1
             else
               (case torque_addfd_unbuffered ctx fd (map_option Cb_user rx) (map_option Cb_user tx) (Ptr_user state) s1 of
                  None \<Rightarrow> None
                | Some (ret, ctx', s2) \<Rightarrow> Some (ret, ctx', ch, s2))))"

definition add_fswatch_to_evhandler :: int where "add_fswatch_to_evhandler = - 1"

definition torque_addpath :: torque_err where
  "torque_addpath = (if add_fswatch_to_evhandler \<noteq> 0 then TORQUE_ERR_UNAVAIL else 0)"

section \<open>Lookups\<close>

definition free_dnsmarshal :: "nat \<Rightarrow> dns_heap \<Rightarrow> sysst \<Rightarrow> dns_heap \<times> sysst" where
  "free_dnsmarshal p h s = (h(p := None), sys_note (Sys_free ''dnsmarshal'') s)"

definition torque_addlookup_dns ::
  "torque_ctx \<Rightarrow> nat \<Rightarrow> nat \<Rightarrow> dns_heap \<Rightarrow> sysst \<Rightarrow>
     (torque_err \<times> torque_ctx \<times> dns_heap \<times> sysst) option" where
  "torque_addlookup_dns ctx rx state h s =
     (case create_dnsmarshal rx state h s of
        (None, h1, s1) \<Rightarrow> Some (TORQUE_ERR_RESOURCE, ctx, h1, s1)
      | (Some dm, h1, s1) \<Rightarrow>
          (case sys_int (Sys_adns ''submit'') s1 of
             (r, s2) \<Rightarrow>
               if r \<noteq> 0 then
                 (case free_dnsmarshal dm h1 s2 of (h2, s3) \<Rightarrow> Some (TORQUE_ERR_INVAL, ctx, h2, s3))
               else
                 (case load_dns_fds ctx s2 of
                    None \<Rightarrow> None
                  | Some (q, ctx', s3) \<Rightarrow>
                      if q \<noteq> 0 then
                        (case free_dnsmarshal dm h1 (sys_note (Sys_adns ''cancel'') s3) of
                           (h2, s4) \<Rightarrow> Some (TORQUE_ERR_ASSERT, ctx', h2, s4))
                      else Some (0, ctx', h1, s3))))"

section \<open>Error strings\<close>

definition errstrs :: "string list" where
  "errstrs =
     [''Unknown error'', ''Assertion failure'', ''Processor detection failure'',
      ''Graphic processor detection failure'', ''Memory detection failure'',
      ''Affinity subsystem failure'', ''Insufficient system resources'', ''Invalid parameter'',
      ''Functionality unavailable on platform'']"

text \<open>The enumeration is an \<open>unsigned int\<close>; the argument of \<open>strerror\<close> a signed one.\<close>

definition torque_errstr :: "(int \<Rightarrow> string option) \<Rightarrow> u32 \<Rightarrow> string" where
  "torque_errstr strerror e =
     (if unat e \<ge> length errstrs then
        (case strerror (sint (e - of_int TORQUE_ERR_SYSCALL)) of
           None \<Rightarrow> ''Oh shit, there's a horse in the hospital!''
         | Some str \<Rightarrow> str)
      else errstrs ! unat e)"

section \<open>Lemmas\<close>

definition common_signals :: "torque_ctx \<Rightarrow> bool" where
  "common_signals ctx \<longleftrightarrow>
     sig_entry ctx SIGTERM = Some (Some Cb_rxcommonsignal, None, Ptr_ctx) \<and>
     sig_entry ctx SIGINT = Some (Some Cb_rxcommonsignal, None, Ptr_ctx)"

lemma initialize_common_sources_ok:
  assumes "initialize_common_sources ctx s = Some (0, ctx', s')" "tables_wf ctx"
  shows "tables_wf ctx' \<and> common_signals ctx' \<and>
    sigarraysize (ctx_eventtables ctx') = sigarraysize (ctx_eventtables ctx)"
  using assms
  by (auto simp: initialize_common_sources_def Let_def setup_evsource_eq tables_wf_def common_signals_def
      src_entry_def split: if_splits prod.splits option.splits)

lemma initialize_etables_ok:
  assumes "initialize_etables raw s = Some (0, ctx, s')"
  shows "tables_wf ctx \<and> common_signals ctx \<and> sigarraysize (ctx_eventtables ctx) = SIGRTMAX"
proof -
  obtain n s1 where m: "max_fds s = (n, s1)" by fastforce
  obtain f s2 where f: "create_evsources n s1 = (f, s2)" by fastforce
  obtain g s3 where g: "create_evsources SIGRTMAX s2 = (g, s3)" by fastforce
  have "n \<noteq> 0" "f \<noteq> None" "g \<noteq> None"
    using assms m f g by (auto simp: initialize_etables_def Let_def split: if_splits option.splits)
  then obtain fds sigs where fs: "f = Some fds" "g = Some sigs" by auto
  then have len: "length fds = n" "length sigs = SIGRTMAX"
    using f g by (auto simp: create_evsources_def split: prod.splits if_splits)
  let ?ctx = "raw\<lparr>ctx_eventtables := (ctx_eventtables raw)\<lparr>fdarraysize := n, fdarray := fds,
     sigarraysize := SIGRTMAX, sigarray := sigs\<rparr>\<rparr>"
  have "initialize_common_sources ?ctx s3 = Some (0, ctx, s')"
    using assms m f g fs \<open>n \<noteq> 0\<close>
    by (auto simp: initialize_etables_def Let_def split: if_splits option.splits)
  moreover have "tables_wf ?ctx" using len by (simp add: tables_wf_def)
  ultimately show ?thesis using initialize_common_sources_ok [of ?ctx s3 ctx s'] by simp
qed

lemma tables_from_record:
  assumes "ctx_eventtables ctx' = (ctx_eventtables ctx)\<lparr>fdarray := f\<rparr>"
  shows "common_signals ctx' = common_signals ctx \<and>
    sigarraysize (ctx_eventtables ctx') = sigarraysize (ctx_eventtables ctx)"
  by (simp add: common_signals_def assms)

lemma create_torque_ctx_ok:
  assumes "create_torque_ctx raw s = Some (e, Some ctx, s')"
  shows "e = 0 \<and> hw_empty ctx \<and> tables_wf ctx \<and> common_signals ctx \<and>
    sigarraysize (ctx_eventtables ctx) = SIGRTMAX \<and> 0 \<le> efd (ctx_evq ctx) \<and> ctx_ev ctx = None"
proof -
  obtain ok s1 where a: "sys_alloc (Sys_malloc ''torque_ctx'') s = (ok, s1)" by fastforce
  have ok: ok using assms a by (auto simp: create_torque_ctx_def split: if_splits)
  obtain r ctx1 s2 where i: "initialize_etables raw s1 = Some (r, ctx1, s2)"
    using assms a ok by (auto simp: create_torque_ctx_def split: option.splits)
  have r: "r = 0" using assms a ok i by (auto simp: create_torque_ctx_def split: if_splits)
  note t = initialize_etables_ok [OF i [unfolded r]]
  obtain q ctx2 s3 where v: "init_evqueue ctx1 s2 = Some (q, ctx2, s3)" and wf: "tables_wf ctx2"
    and tb: "ctx_eventtables ctx2 = (ctx_eventtables ctx1)\<lparr>fdarray := fdarray (ctx_eventtables ctx2)\<rparr>"
    and ef: "q = 0 \<longrightarrow> 0 \<le> efd (ctx_evq ctx2)"
    using init_evqueue_result [of ctx1 s2] t by blast
  have q: "q = 0" and e: "e = 0" and ctx: "ctx = ctx2\<lparr>ctx_sched_zone := [], ctx_cpudescs := [], ctx_manodes := [],
      ctx_cpu_typecount := 0, ctx_nodecount := 0, ctx_ev := None, ctx_nexttid := Map.empty\<rparr>"
    using assms a ok i r v by (auto simp: create_torque_ctx_def split: if_splits)
  have "tables_wf ctx" "common_signals ctx = common_signals ctx2"
    using wf by (simp_all add: ctx tables_wf_def common_signals_def)
  then show ?thesis using t tables_from_record [OF tb] ef q e by (simp add: ctx hw_empty_def)
qed

lemma makesigmask_eq: "makesigmask = Some ({1..64} - {4, 6, 7, 8, 11, 16, 24})"
  by (auto simp: makesigmask_def sigfillset_def unblocked_def sigdelset_def)

lemma torque_init_cases:
  assumes "torque_init avail cpuids ver raw s = Some (e, Some ctx, s')"
  shows "\<exists>s2 s3 e0 ctx0. create_torque_ctx raw s2 = Some (e0, Some ctx0, s3) \<and>
    (\<exists>s4. detect_architecture avail cpuids ver ctx0 s3 = Some (0, ctx, s4)) \<and> e = 0"
  using assms
  by (auto simp: torque_init_def torque_init_sigmasked_def split: prod.splits if_splits option.splits) blast

text \<open>What releasing a context calls, in order.\<close>

definition release_calls :: "torque_ctx \<Rightarrow> syscall list" where
  "release_calls ctx =
     [Sys_close (common_signalfd (ctx_eventtables ctx)), Sys_free ''evsources'', Sys_free ''evsources''] @
     replicate (zone_count (ctx_sched_zone ctx)) (Sys_free ''zone'') @
     concat (replicate (ctx_cpu_typecount ctx)
       [Sys_free ''tlbdescs'', Sys_free ''memdescs'', Sys_free ''strdescription'']) @
     Sys_free ''cpudescs'' # replicate (length (take (ctx_nodecount ctx) (ctx_manodes ctx))) (Sys_free ''psizevals'') @
     [Sys_free ''manodes'', Sys_close (efd (ctx_evq ctx)), Sys_adns ''finish'', Sys_free ''torque_ctx'']"

lemma sys_int_calls: "sys_int c s = (r, s') \<Longrightarrow> calls s' = calls s @ [c]"
  by (auto simp: sys_int_def split: prod.splits dest: sys_call_calls)

lemma free_architecture_evq: "ctx_evq (fst (free_architecture ctx s)) = ctx_evq ctx"
  by (simp add: free_architecture_def reset_topology_def free_memories_def)

lemma free_torque_ctx_calls:
  assumes "free_torque_ctx ctx s = (r, s')"
  shows "calls s' = calls s @ release_calls ctx"
proof -
  obtain r1 s1 where c1: "sys_int (Sys_close (common_signalfd (ctx_eventtables ctx))) s = (r1, s1)" by fastforce
  obtain q s2 where e: "free_etables (ctx_eventtables ctx) s = (q, s2)"
    and c2: "calls s2 = calls s @ [Sys_close (common_signalfd (ctx_eventtables ctx)), Sys_free ''evsources'',
      Sys_free ''evsources'']"
    using c1 sys_int_calls [OF c1] by (simp add: free_etables_def destroy_evsources_def sys_note_def)
  obtain ctx1 s3 where a: "free_architecture ctx s2 = (ctx1, s3)" by fastforce
  have evq: "ctx_evq ctx1 = ctx_evq ctx" using free_architecture_evq [of ctx s2] a by simp
  obtain r2 s4 where c3: "sys_int (Sys_close (efd (ctx_evq ctx))) s3 = (r2, s4)" by fastforce
  have "s' = sys_note (Sys_free ''torque_ctx'') (torque_dns_shutdown s4)"
    using assms e a c3 evq by (simp add: free_torque_ctx_def destroy_evqueue_def)
  then show ?thesis using c2 sys_int_calls [OF c3] free_architecture_calls [of ctx s2] a
    by (simp add: release_calls_def torque_dns_shutdown_def sys_note_def)
qed

section \<open>A sample start\<close>

text \<open>The answers of a system that grants every request of \<open>torque_init\<close>, for the witnesses.\<close>

definition sample_create :: "sysret list" where
  "sample_create =
     [ok_ret, zero_ret\<lparr>rv := 16\<rparr>, ok_ret, ok_ret, zero_ret\<lparr>rv := 3\<rparr>, zero_ret, zero_ret, zero_ret,
      zero_ret\<lparr>rv := 4\<rparr>, zero_ret, zero_ret]"

lemma sample_create_run:
  assumes "answers s = sample_create @ as"
  shows "\<exists>ctx s'. create_torque_ctx zero_ctx s = Some (0, Some ctx, s') \<and> answers s' = as"
  using assms
  by (simp add: create_torque_ctx_def sample_create_def initialize_etables_def max_fds_def create_evsources_def
      initialize_common_sources_def setup_evsource_eq init_signal_handlers_def init_evqueue_def torque_dns_init_def
      create_efd_def add_evqueue_baseevents_def load_dns_fds_def add_commonfds_to_evhandler_def Kevent_def io_simps
      Let_def zero_ctx_def)

definition sample_start :: "sysret list" where
  "sample_start =
     [zero_ret\<lparr>rout := 1\<rparr>, zero_ret\<lparr>rset := {10}\<rparr>] @ sample_create @ sample_answers @ [zero_ret]"

lemma sample_sigpipe_run:
  "\<exists>s1. ignore_sigpipe (os_answering sample_start) = (0, s1) \<and>
     answers s1 = zero_ret\<lparr>rset := {10}\<rparr> # sample_create @ sample_answers @ [zero_ret]"
  by (simp add: ignore_sigpipe_def sample_start_def io_simps)

lemma sample_start_parts:
  "\<exists>ctx s' ctx0 s2 s3 s4. torque_init True (\<lambda>_. sample_intel) 2020 zero_ctx (os_answering sample_start) = Some (0, Some ctx, s') \<and>
     create_torque_ctx zero_ctx s2 = Some (0, Some ctx0, s3) \<and> answers s3 = sample_answers @ [zero_ret] \<and>
     detect_architecture True (\<lambda>_. sample_intel) 2020 ctx0 s3 = Some (0, ctx, s4)"
proof -
  obtain s1 where p: "ignore_sigpipe (os_answering sample_start) = (0, s1)"
    and a1: "answers s1 = zero_ret\<lparr>rset := {10}\<rparr> # sample_create @ sample_answers @ [zero_ret]"
    using sample_sigpipe_run by blast
  obtain s2 where b: "\<And>m. sys_call (Sys_sigmask ''BLOCK'' m) s1 = (zero_ret\<lparr>rset := {10}\<rparr>, s2 m)"
    and a2: "\<And>m. answers (s2 m) = sample_create @ sample_answers @ [zero_ret]"
    using a1 by (simp add: sys_call_def)
  let ?m = "{1..64} - {4, 6, 7, 8, 11, 16, 24}"
  obtain ctx s3 where c: "create_torque_ctx zero_ctx (s2 ?m) = Some (0, Some ctx, s3)"
    and a3: "answers s3 = sample_answers @ [zero_ret]" using sample_create_run [OF a2] by blast
  have "hw_empty ctx" using create_torque_ctx_ok [OF c] by simp
  then obtain ctx' s4 where d: "detect_architecture True (\<lambda>_. sample_intel) 2020 ctx s3 = Some (0, ctx', s4)"
    and a4: "answers s4 = [zero_ret]" using sample_detect_run [OF a3, of ctx] by (auto simp: hw_empty_def)
  obtain s5 where e: "sys_int (Sys_sigmask ''SETMASK'' {10}) s4 = (0, s5)" using a4 by (simp add: io_simps)
  have "\<exists>s'. torque_init True (\<lambda>_. sample_intel) 2020 zero_ctx (os_answering sample_start) = Some (0, Some ctx', s')"
    using p b [of ?m] c d e by (simp add: torque_init_def makesigmask_eq torque_init_sigmasked_def zero_ret_def)
  then show ?thesis using c d a3 by blast
qed

lemma sample_start_run:
  "\<exists>ctx s'. torque_init True (\<lambda>_. sample_intel) 2020 zero_ctx (os_answering sample_start) = Some (0, Some ctx, s')"
  using sample_start_parts by blast

section \<open>Properties\<close>

text \<open>
  Property C1: a context that \<open>torque_init\<close> returns is ready. The error is \<open>TORQUE_ERR_NONE\<close>; the source
  tables have the sizes recorded for them, with the handlers of the two common signals in
  place; the queue has its descriptor; and every processor that was found is placed where its \<open>cpuid\<close>
  says and found by \<open>lookup_aid\<close>, in a topology that is not empty.
\<close>

theorem torque_init_ready:
  assumes "torque_init avail cpuids ver raw s = Some (e, Some ctx, s')"
  shows "e = TORQUE_ERR_NONE \<and> tables_wf ctx \<and> common_signals ctx \<and>
    sigarraysize (ctx_eventtables ctx) = SIGRTMAX \<and> 0 \<le> efd (ctx_evq ctx) \<and> types_ok ctx \<and>
    (\<exists>pm. topo_rep (ctx_sched_zone ctx) pm \<and> placed_as_reported avail cpuids pm \<and> dom pm \<noteq> {} \<and>
      (\<forall>aid\<in>dom pm. \<exists>d. lookup_aid (ctx_cpu_typecount ctx) (ctx_cpudescs ctx) (ctx_sched_zone ctx) aid =
        Some (Some d) \<and> d \<in> set (ctx_cpudescs ctx)))"
proof -
  obtain s2 s3 e0 ctx0 s4 where c: "create_torque_ctx raw s2 = Some (e0, Some ctx0, s3)"
    and d: "detect_architecture avail cpuids ver ctx0 s3 = Some (0, ctx, s4)" and e: "e = 0"
    using torque_init_cases [OF assms] by blast
  note ok = create_torque_ctx_ok [OF c]
  have "ctx_sched_zone ctx0 = []" using ok by (simp add: hw_empty_def)
  note det = detect_architecture_lookup [OF d this]
  have "tables_wf ctx = tables_wf ctx0" "common_signals ctx = common_signals ctx0"
    using detect_architecture_ev [OF d] by (simp_all add: ev_frame_def tables_wf_def common_signals_def)
  moreover have "ctx_eventtables ctx = ctx_eventtables ctx0" "ctx_evq ctx = ctx_evq ctx0"
    using detect_architecture_ev [OF d] by (simp_all add: ev_frame_def)
  moreover obtain pm where "topo_rep (ctx_sched_zone ctx) pm" "placed_as_reported avail cpuids pm"
    "dom pm = affinity_mask s3" using det by blast
  ultimately show ?thesis using ok det e by (intro conjI exI [of _ pm]) simp_all
qed

theorem torque_init_ready_witness:
  "\<exists>ctx s'. torque_init True (\<lambda>_. sample_intel) 2020 zero_ctx (os_answering sample_start) = Some (0, Some ctx, s') \<and>
     tables_wf ctx \<and> common_signals ctx \<and> types_ok ctx"
proof -
  obtain ctx s' where run: "torque_init True (\<lambda>_. sample_intel) 2020 zero_ctx (os_answering sample_start) =
      Some (0, Some ctx, s')" using sample_start_run by blast
  from torque_init_ready [OF run] run show ?thesis by blast
qed

text \<open>
  Fact: \<open>torque_init\<close> gives the caller its signal mask back. Whenever it returns with anything but an
  assertion failure, its last call sets the mask that blocking all but the synchronous signals
  had reported as the old one.
\<close>

theorem torque_init_restores_mask:
  assumes "torque_init avail cpuids ver raw s = Some (e, ret, s')" "e \<noteq> TORQUE_ERR_ASSERT"
    and "ignore_sigpipe s = (TORQUE_ERR_NONE, s1)"
    and "sys_call (Sys_sigmask ''BLOCK'' ({1..64} - {4, 6, 7, 8, 11, 16, 24})) s1 = (a, s2)"
  shows "last (calls s') = Sys_sigmask ''SETMASK'' (rset a)"
  using assms
  by (auto simp: torque_init_def makesigmask_eq split: if_splits option.splits prod.splits dest!: sys_int_calls)

theorem torque_init_restores_mask_witness:
  "\<exists>ctx s'. torque_init True (\<lambda>_. sample_intel) 2020 zero_ctx (os_answering sample_start) = Some (0, Some ctx, s') \<and>
     last (calls s') = Sys_sigmask ''SETMASK'' {10}"
proof -
  obtain ctx s' where run: "torque_init True (\<lambda>_. sample_intel) 2020 zero_ctx (os_answering sample_start) =
      Some (0, Some ctx, s')" using sample_start_run by blast
  obtain s1 where p: "ignore_sigpipe (os_answering sample_start) = (TORQUE_ERR_NONE, s1)"
    and a1: "answers s1 = zero_ret\<lparr>rset := {10}\<rparr> # sample_create @ sample_answers @ [zero_ret]"
    using sample_sigpipe_run by auto
  obtain s2 where b: "sys_call (Sys_sigmask ''BLOCK'' ({1..64} - {4, 6, 7, 8, 11, 16, 24})) s1 =
      (zero_ret\<lparr>rset := {10}\<rparr>, s2)" using a1 by (simp add: sys_call_def)
  from torque_init_restores_mask [OF run _ p b] run show ?thesis by (simp add: zero_ret_def)
qed

text \<open>
  Fact: the error codes of context creation. A missing context comes with
  \<open>TORQUE_ERR_RESOURCE\<close>, except when the first allocation fails: then the caller's \<open>TORQUE_ERR_NONE\<close> stays
  although no context is returned.
\<close>

theorem create_error_codes:
  assumes "create_torque_ctx raw s = Some (e, None, s')"
  shows "e = (if fst (sys_alloc (Sys_malloc ''torque_ctx'') s) then TORQUE_ERR_RESOURCE else TORQUE_ERR_NONE)"
  using assms by (auto simp: create_torque_ctx_def split: if_splits option.splits prod.splits)

theorem create_error_codes_witness:
  "\<exists>s'. create_torque_ctx zero_ctx (os_answering []) = Some (TORQUE_ERR_NONE, None, s')"
proof -
  obtain e s' where run: "create_torque_ctx zero_ctx (os_answering []) = Some (e, None, s')"
    by (simp add: create_torque_ctx_def io_simps)
  from create_error_codes [OF run] run show ?thesis by (simp add: io_simps)
qed

text \<open>
  Property C25: stopping a context. With the two signals masked, \<open>torque_stop\<close> signals the process and joins the
  thread after the leader, releases everything the context holds exactly once (the signal
  descriptor, both source tables, each zone, the arrays of each processor type, each node, the
  queue's descriptor, the resolver, the context itself), and restores the mask.
\<close>

theorem torque_stop_releases:
  assumes "torque_stop (Some ctx) s = Some (e, s')" "torque_sigmask s = (0, os, s1)"
  shows "calls s' = calls s @ Sys_sigmask ''BLOCK'' {SIGTERM, SIGINT} #
    (case ctx_ev ctx of None \<Rightarrow> [] | Some l \<Rightarrow> [Sys_kill SIGTERM, Sys_join (the (ctx_nexttid ctx l))]) @
    release_calls ctx @ [Sys_sigmask ''SETMASK'' os]"
proof -
  have c1: "calls s1 = calls s @ [Sys_sigmask ''BLOCK'' {SIGTERM, SIGINT}]"
    using assms(2) by (auto simp: torque_sigmask_def split: prod.splits if_splits dest!: sys_call_calls)
  obtain r1 s2 where j: "reap_threads ctx s1 = Some (r1, s2)"
    using assms by (auto simp: torque_stop_def finish_ctx_def split: option.splits)
  have c2: "calls s2 = calls s1 @
      (case ctx_ev ctx of None \<Rightarrow> [] | Some l \<Rightarrow> [Sys_kill SIGTERM, Sys_join (the (ctx_nexttid ctx l))])"
    using j by (auto simp: reap_threads_def reap_thread_def block_thread_def
        split: option.splits prod.splits if_splits dest!: sys_int_calls)
  obtain r2 s3 where f: "free_torque_ctx ctx s2 = (r2, s3)" by fastforce
  obtain r3 s4 where m: "sys_int (Sys_sigmask ''SETMASK'' os) s3 = (r3, s4)" by fastforce
  have "s' = s4" using assms j f m by (simp add: torque_stop_def finish_ctx_def)
  then show ?thesis using c1 c2 free_torque_ctx_calls [OF f] sys_int_calls [OF m] by simp
qed

lemma ctx_ev_zero: "ctx_ev zero_ctx = None"
  by (simp add: zero_ctx_def)

theorem torque_stop_releases_witness:
  "\<exists>e s'. torque_stop (Some zero_ctx) (os_answering [zero_ret\<lparr>rset := {10}\<rparr>]) = Some (e, s') \<and>
     calls s' = Sys_sigmask ''BLOCK'' {SIGTERM, SIGINT} # release_calls zero_ctx @ [Sys_sigmask ''SETMASK'' {10}]"
proof -
  obtain s1 where m: "torque_sigmask (os_answering [zero_ret\<lparr>rset := {10}\<rparr>]) = (0, {10}, s1)"
    by (simp add: torque_sigmask_def io_simps)
  obtain r2 s3 where f: "free_torque_ctx zero_ctx s1 = (r2, s3)" by fastforce
  obtain r3 s4 where "sys_int (Sys_sigmask ''SETMASK'' {10}) s3 = (r3, s4)" by fastforce
  then obtain e s' where run: "torque_stop (Some zero_ctx) (os_answering [zero_ret\<lparr>rset := {10}\<rparr>]) = Some (e, s')"
    using m f by (simp add: torque_stop_def finish_ctx_def reap_threads_def ctx_ev_zero)
  from torque_stop_releases [OF run m] run show ?thesis by (simp add: zero_ctx_def os_answering_def)
qed

text \<open>
  Fact: registration and dispatch of a descriptor. After \<open>torque_addfd_unbuffered\<close> succeeds, an event
  that says the descriptor is readable invokes the client's read function, with the descriptor
  and the client's state, and then nothing else.
\<close>

theorem unbuffered_dispatch:
  assumes "tables_wf ctx" "torque_addfd_unbuffered ctx fd (Some rx) tx state s = Some (0, ctx', s')"
    and "ev AND EVREAD \<noteq> 0" "ev AND EVWRITE = 0"
  shows "handle_event call ctx' (fd, ev) = Some (call (rx, nat fd, state) ctx', [(rx, nat fd, state)])"
proof -
  have fd: "0 \<le> fd" and add: "add_fd_to_evhandler ctx fd (Some rx) tx state EVONESHOT s = Some (0, ctx', s')"
    using assms(2) by (auto simp: torque_addfd_unbuffered_def split: if_splits)
  have "fd_entry ctx' (nat fd) = Some (Some rx, tx, state)"
    using add_fd_cases [OF assms(1), of fd "Some rx" tx state EVONESHOT s] add
    by (auto split: if_splits)
  from handle_read_entry [OF this] show ?thesis
    using assms(3,4) by (simp add: handle_event_def run_invocations_def Let_def)
qed

theorem unbuffered_dispatch_witness:
  "\<exists>ctx' s'. torque_addfd_unbuffered sample_table 0 (Some (Cb_user 21)) None (Ptr_user 22) (os_answering [zero_ret]) =
       Some (0, ctx', s') \<and>
     handle_event (\<lambda>_ c. c) ctx' (0, 1) = Some (ctx', [(Cb_user 21, 0, Ptr_user 22)])"
proof -
  have wf: "tables_wf sample_table" by (simp add: tables_wf_def sample_table_def)
  obtain ctx' s' where run: "torque_addfd_unbuffered sample_table 0 (Some (Cb_user 21)) None (Ptr_user 22)
      (os_answering [zero_ret]) = Some (0, ctx', s')"
    by (simp add: torque_addfd_unbuffered_def add_fd_to_evhandler_def sample_table_def
        setup_evsource_eq add_fd_event_def Kevent_def io_simps Let_def EVONESHOT_def)
  from unbuffered_dispatch [OF wf run, of 1 "\<lambda>_ c. c"] run show ?thesis by (simp add: EVREAD_def EVWRITE_def)
qed

lemma sys_quiet_torque_addfd:
  assumes "torque_addfd ctx fd rx tx v h s = Some (e, ctx', h', s')"
  shows "sys_quiet sd s s'"
proof -
  obtain q h1 s1 where c: "create_rxbuffercb ctx rx tx v h s = (q, h1, s1)" by (cases rule: prod_cases3)
  then have "sys_quiet sd s s1"
    by (auto simp: create_rxbuffercb_def initialize_rxbuffer_def sys_quiet_after_note
        split: option.splits prod.splits if_splits
        dest!: sys_quiet_ptr [of _ _ _ _ sd] sys_quiet_big_page [of _ _ _ _ _ sd] intro: sys_quiet_trans)
  then show ?thesis using assms c
    by (auto simp: torque_addfd_def free_rxbuffercb_def free_rxbuffer_def dealloc_def sys_quiet_after_note sys_quiet_refl
        split: option.splits prod.splits if_splits dest!: sys_quiet_add_fd [of _ _ _ _ _ _ _ _ _ _ sd] intro: sys_quiet_trans)
qed

lemma torque_addfd_cases:
  assumes "tables_wf ctx" "0 \<le> fd"
  shows "\<exists>r ctx' h' s'. torque_addfd ctx fd rx tx state h s = Some (r, ctx', h', s') \<and> tables_wf ctx' \<and>
    (r = TORQUE_ERR_RESOURCE \<and> h' = h \<and> ctx' = ctx \<or>
     (\<exists>p rxb. h' = h(p \<mapsto> \<lparr>cb_rxbuf = rxb, cb_rx = rx, cb_tx = tx, cb_cbstate = state\<rparr>) \<and> rxbuf_inv rxb \<and> rxbuf_content rxb = [] \<and>
       (r = 0 \<and> fd_entry ctx' (nat fd) = Some (if rx = None then None else Some Cb_buffered_rxfxn,
           if tx = None then None else Some Cb_buffered_txfxn, Ptr_obj p) \<or>
        r = - 1 \<and> last (calls s') = Sys_munmap (unat (of_nat (rx_buftot rxb) :: u64)))))"
proof -
  let ?rf = "if rx \<noteq> None then Some Cb_buffered_rxfxn else None"
  let ?tf = "if tx \<noteq> None then Some Cb_buffered_txfxn else None"
  obtain q h1 s1 where c: "create_rxbuffercb ctx rx tx state h s = (q, h1, s1)" by (cases rule: prod_cases3)
  show ?thesis
  proof (cases q)
    case None
    then have "h1 = h" using c by (auto simp: create_rxbuffercb_def split: option.splits prod.splits)
    then show ?thesis using None c assms by (simp add: torque_addfd_def)
  next
    case (Some p)
    then obtain rxb where h1: "h1 = h(p \<mapsto> \<lparr>cb_rxbuf = rxb, cb_rx = rx, cb_tx = tx, cb_cbstate = state\<rparr>)"
      and rxb: "rxbuf_inv rxb" "rxbuf_content rxb = []"
      using c by (auto simp: create_rxbuffercb_def split: option.splits prod.splits dest: initialize_rxbuffer_empty)
    obtain r ctx' s2 where a: "add_fd_to_evhandler ctx fd ?rf ?tf (Ptr_obj p) EVONESHOT s1 = Some (r, ctx', s2)"
      and wf: "tables_wf ctx'" and r: "r = 0 \<or> r = - 1"
      and en: "r = 0 \<longrightarrow> fd_entry ctx' (nat fd) = Some (?rf, ?tf, Ptr_obj p)"
      using add_fd_cases [OF assms(1), of fd ?rf ?tf "Ptr_obj p" EVONESHOT s1] assms(2) by (auto split: if_splits)
    show ?thesis
    proof (cases "r = 0")
      case True
      then show ?thesis using Some c a wf en h1 rxb assms(2) by (auto simp: torque_addfd_def)
    next
      case False
      then have "torque_addfd ctx fd rx tx state h s = Some (- 1, ctx', h1, free_rxbuffer rxb s2)"
        using Some c a r h1 assms(2) by (simp add: torque_addfd_def free_rxbuffercb_def)
      moreover have "last (calls (free_rxbuffer rxb s2)) = Sys_munmap (unat (of_nat (rx_buftot rxb) :: u64))"
        by (simp add: free_rxbuffer_def dealloc_def sys_note_def)
      ultimately show ?thesis using wf h1 rxb by blast
    qed
  qed
qed

text \<open>
  Property C34: what \<open>torque_addfd\<close> does on every outcome. It always returns. On success the descriptor's entry
  points to a new callback object with a valid, empty buffer and the client's functions; when the queue
  refuses the descriptor the buffer is unmapped, and the callback object stays allocated.
\<close>

theorem torque_addfd_outcomes:
  assumes "tables_wf ctx" "0 \<le> fd"
  shows "\<exists>r ctx' h' s'. torque_addfd ctx fd rx tx state h s = Some (r, ctx', h', s') \<and> tables_wf ctx' \<and>
    (r = TORQUE_ERR_RESOURCE \<and> h' = h \<and> ctx' = ctx \<or>
     (\<exists>p rxb. h' = h(p \<mapsto> \<lparr>cb_rxbuf = rxb, cb_rx = rx, cb_tx = tx, cb_cbstate = state\<rparr>) \<and> rxbuf_inv rxb \<and> rxbuf_content rxb = [] \<and>
       (r = 0 \<and> fd_entry ctx' (nat fd) = Some (if rx = None then None else Some Cb_buffered_rxfxn,
           if tx = None then None else Some Cb_buffered_txfxn, Ptr_obj p) \<or>
        r = - 1 \<and> last (calls s') = Sys_munmap (unat (of_nat (rx_buftot rxb) :: u64)))))"
  using assms by (rule torque_addfd_cases)

theorem torque_addfd_outcomes_witness:
  "\<exists>r ctx' h' s'. torque_addfd sample_table 0 (Some 21) None 22 Map.empty (os_answering []) = Some (r, ctx', h', s')"
  using torque_addfd_outcomes [of sample_table 0 "Some 21" None 22 Map.empty "os_answering []"]
  by (fastforce simp: tables_wf_def sample_table_def)

text \<open>
  Property C33: signals reach their callbacks. After \<open>torque_addsignal\<close> succeeds, a signal of the set below the
  size of the table, read from the signal descriptor, invokes the client's function with its
  number and the client's state, before anything that is queued behind it. A set with
  \<open>SIGTERM\<close>, \<open>SIGKILL\<close> or \<open>SIGSTOP\<close> is refused without any effect.
\<close>

theorem signal_delivery:
  assumes "tables_wf ctx" "torque_addsignal ctx sigs fxn state s = Some (r, ctx', s')"
  shows "if SIGTERM \<in> sigs \<or> SIGKILL \<in> sigs \<or> SIGSTOP \<in> sigs
    then r = TORQUE_ERR_INVAL \<and> ctx' = ctx \<and> s' = s
    else r = 0 \<and> sys_read fd 128 t = (128, data, t1) \<and> signo_of data \<in> sigs \<and> 1 \<le> signo_of data \<and>
      signo_of data < sigarraysize (ctx_eventtables ctx) \<and>
      signalfd_demultiplexer fd (sigarray (ctx_eventtables ctx')) t1 = Some (rest, t2) \<longrightarrow>
      signalfd_demultiplexer fd (sigarray (ctx_eventtables ctx')) t =
        Some ((Cb_user fxn, signo_of data, Ptr_user state) # rest, t2)"
proof (cases "SIGTERM \<in> sigs \<or> SIGKILL \<in> sigs \<or> SIGSTOP \<in> sigs")
  case True
  then show ?thesis using assms(2) by (auto simp: torque_addsignal_def)
next
  case False
  have "sig_entry ctx' n = Some (Some (Cb_user fxn), None, Ptr_user state)"
    if ok: "r = 0" and n: "n \<in> sigs" "1 \<le> n" "n < sigarraysize (ctx_eventtables ctx)" for n
  proof -
    obtain s1 s2 where "add_signal_to_evhandler ctx sigs (Some (Cb_user fxn)) (Ptr_user state) s1 = Some (0, ctx', s2)"
      using assms(2) False ok by (auto simp: torque_addsignal_def split: prod.splits option.splits if_splits)
    from add_signal_entries [OF assms(1) this] n show ?thesis by simp
  qed
  then show ?thesis using False demultiplex_one [of fd t data t1 "sigarray (ctx_eventtables ctx')"] by auto
qed

theorem signal_delivery_witness:
  "torque_addsignal zero_ctx {9, 10} 1 2 (os_answering []) = Some (TORQUE_ERR_INVAL, zero_ctx, os_answering [])"
proof -
  obtain r ctx' s' where run: "torque_addsignal zero_ctx {9, 10} 1 2 (os_answering []) = Some (r, ctx', s')"
    by (simp add: torque_addsignal_def)
  from signal_delivery [OF _ run] run show ?thesis by (simp add: tables_wf_def zero_ctx_def)
qed

text \<open>
  Fact: the signal table ends one short. It has \<open>SIGRTMAX\<close> entries, indexed by the signal's number;
  registering \<open>SIGRTMAX\<close> itself is silently ignored, and the demultiplexer that reads it looks
  beyond the table.
\<close>

theorem sigrtmax_beyond_table:
  assumes "initialize_etables raw s = Some (0, ctx, s')"
    and "sys_read fd 128 t = (128, data, t')" "signo_of data = SIGRTMAX"
  shows "signalfd_demultiplexer fd (sigarray (ctx_eventtables ctx)) t = None \<and>
    add_signals_from {SIGRTMAX} rf v (sigarraysize (ctx_eventtables ctx)) SIGRTMAX (sigarray (ctx_eventtables ctx)) =
      Some (sigarray (ctx_eventtables ctx))"
  using demultiplex_out_of_range [OF assms(2)] initialize_etables_ok [OF assms(1)] assms(3)
  by (simp add: tables_wf_def add_signals_from.simps)

theorem sigrtmax_beyond_table_witness:
  "\<exists>ctx s'. initialize_etables zero_ctx (os_answering (tl sample_create)) = Some (0, ctx, s') \<and>
     signalfd_demultiplexer 3 (sigarray (ctx_eventtables ctx))
       (os_answering [zero_ret\<lparr>rdata := 64 # replicate 127 0\<rparr>]) = None"
proof -
  obtain ctx s' where run: "initialize_etables zero_ctx (os_answering (tl sample_create)) = Some (0, ctx, s')"
    by (simp add: sample_create_def initialize_etables_def max_fds_def create_evsources_def
      initialize_common_sources_def setup_evsource_eq init_signal_handlers_def io_simps Let_def zero_ctx_def)
  obtain t' where "sys_read 3 128 (os_answering [zero_ret\<lparr>rdata := 64 # replicate 127 0\<rparr>]) =
      (128, 64 # replicate 127 0, t')" by (simp add: sys_read_def io_simps)
  from sigrtmax_beyond_table [OF run this] run show ?thesis by (simp add: signo_of_def nth_Cons')
qed

end
