(* ===== verification/Dispatch.thy ===== *)
theory Dispatch
  imports Torque
begin

text \<open>
  The event threads of a context together. All of them wait on one epoll descriptor and run the loop of
  \<open>event_thread\<close> (\<^verbatim>\<open>src/src/libtorque/events/thread.c\<close>); what keeps two of them from running the callback of a
  descriptor at once is that it is registered with \<open>EPOLLONESHOT\<close> (\<open>add_fd_event\<close>) and armed again by \<open>restorefd\<close> as the last
  step of the callback. The kernel's side is what \<open>epoll_ctl(2)\<close> and \<open>epoll_wait(2)\<close> document; the interleavings are the step
  relation \<open>dispatch\<close>.
\<close>

section \<open>The kernel's side\<close>

text \<open>
  Of a watched descriptor: the events it is watched for (\<open>interest\<close>), the events it is ready for (\<open>level\<close>) and whether
  it is on the ready list. A one-shot descriptor that was reported keeps only the bits \<open>EPOLLET\<close> and \<open>EPOLLONESHOT\<close>, until it is
  modified. \<open>EPOLLERR\<close> and \<open>EPOLLHUP\<close> are always added.
\<close>

record epoll =
  interest :: "int \<rightharpoonup> u32"
  level :: "int \<Rightarrow> u32"
  rdllist :: "int list"

definition epoll_events :: "u32 \<Rightarrow> u32" where
  "epoll_events m = m AND NOT (EVEDGET OR EVONESHOT)"

definition oneshot :: "u32 \<Rightarrow> bool" where
  "oneshot m \<longleftrightarrow> m AND EVONESHOT \<noteq> 0"

definition pending :: "epoll \<Rightarrow> int \<Rightarrow> u32" where
  "pending k fd = (case interest k fd of None \<Rightarrow> 0 | Some m \<Rightarrow> level k fd AND epoll_events m)"

definition armed :: "epoll \<Rightarrow> int \<Rightarrow> bool" where
  "armed k fd = (case interest k fd of None \<Rightarrow> False | Some m \<Rightarrow> epoll_events m \<noteq> 0)"

definition add_ready :: "int \<Rightarrow> epoll \<Rightarrow> epoll" where
  "add_ready fd k =
     (if pending k fd \<noteq> 0 \<and> fd \<notin> set (rdllist k) then k\<lparr>rdllist := rdllist k @ [fd]\<rparr> else k)"

definition watch :: "int \<Rightarrow> u32 \<Rightarrow> epoll \<Rightarrow> epoll" where
  "watch fd ev k = add_ready fd (k\<lparr>interest := (interest k)(fd \<mapsto> ev OR 0x18)\<rparr>)"

definition unwatch :: "int \<Rightarrow> epoll \<Rightarrow> epoll" where
  "unwatch fd k = k\<lparr>interest := (interest k)(fd := None), rdllist := filter (\<lambda>f. f \<noteq> fd) (rdllist k)\<rparr>"

text \<open>The effect of a successful call of the library.\<close>

definition kernel_call :: "syscall \<Rightarrow> epoll \<Rightarrow> epoll" where
  "kernel_call c k =
     (case c of
        Sys_epoll_ctl op fd ev \<Rightarrow>
          if op = ''ADD'' \<and> interest k fd = None \<or> op = ''MOD'' \<and> interest k fd \<noteq> None then watch fd ev k else k
      | Sys_close fd \<Rightarrow> unwatch fd k
      | _ \<Rightarrow> k)"

text \<open>Readiness comes and goes; what comes on a watched descriptor puts it on the ready list.\<close>

definition arrive :: "int \<Rightarrow> u32 \<Rightarrow> epoll \<Rightarrow> epoll" where
  "arrive fd ev k =
     (let k' = k\<lparr>level := (level k)(fd := level k fd OR ev)\<rparr>
      in if (case interest k fd of None \<Rightarrow> False | Some m \<Rightarrow> ev AND epoll_events m \<noteq> 0) then add_ready fd k' else k')"

definition drain :: "int \<Rightarrow> u32 \<Rightarrow> epoll \<Rightarrow> epoll" where
  "drain fd ev k = k\<lparr>level := (level k)(fd := level k fd AND NOT ev)\<rparr>"

text \<open>
  A wait takes descriptors from the front of the ready list until it has \<open>n\<close> events. Registrations are edge triggered, so
  they leave the list; a one-shot one is disarmed.
\<close>

definition disarm :: "int \<Rightarrow> epoll \<Rightarrow> epoll" where
  "disarm fd k =
     (case interest k fd of
        None \<Rightarrow> k
      | Some m \<Rightarrow> if oneshot m then k\<lparr>interest := (interest k)(fd \<mapsto> m AND (EVEDGET OR EVONESHOT))\<rparr> else k)"

fun harvest :: "nat \<Rightarrow> int list \<Rightarrow> epoll \<Rightarrow> (int \<times> u32) list \<times> epoll" where
  "harvest n [] k = ([], k\<lparr>rdllist := []\<rparr>)"
| "harvest 0 fds k = ([], k\<lparr>rdllist := fds\<rparr>)"
| "harvest (Suc n) (fd # fds) k =
     (if pending k fd = 0 then harvest (Suc n) fds k
      else (case harvest n fds (disarm fd k) of (evs, k') \<Rightarrow> ((fd, pending k fd) # evs, k')))"

section \<open>The threads\<close>

text \<open>
  Where an event thread is: waiting in \<open>Kevent\<close>; between events, with those still to handle; or inside a callback of a descriptor, the
  first of the list, with the callbacks that follow for the same event and the events that follow.
\<close>

datatype thread_pos =
    Polling
  | Handling "(int \<times> u32) list"
  | Calling int "invocation list" "(int \<times> u32) list"

record threads_st =
  kern :: epoll
  thr :: "thread_pos list"

text \<open>The events of a registration, as \<open>add_fd_event\<close> computes them.\<close>

definition fd_mask :: "cbfn option \<Rightarrow> cbfn option \<Rightarrow> u32 \<Rightarrow> u32" where
  "fd_mask rfxn tfxn eflags =
     (let ev0 = (EVEDGET OR 0x2) OR eflags;
          ev1 = (if rfxn \<noteq> None then ev0 OR EVREAD else ev0)
      in if tfxn \<noteq> None then ev1 OR EVWRITE else ev1)"

lemma add_fd_event_call:
  assumes "eflags = 0 \<or> eflags = EVONESHOT"
  shows "calls (snd (add_fd_event epfd fd rf tf eflags s)) = calls s @ [Sys_epoll_ctl ''ADD'' fd (fd_mask rf tf eflags)]"
  using assms
  by (auto simp: add_fd_event_def fd_mask_def Kevent_def Let_def sys_int_def split: prod.splits dest: sys_call_calls)

text \<open>
  The end of a callback: the calls of its exit (\<open>exit_calls\<close>), or, when the client ends it, whatever the client has done to the descriptor:
  closed it, which is the exit \<open>RX_closed\<close>, or nothing.
\<close>

definition exit_effect :: "int \<Rightarrow> rx_exit \<Rightarrow> epoll \<Rightarrow> epoll" where
  "exit_effect fd x k =
     (case x of
        RX_client \<Rightarrow> k
      | RX_rearmed fl \<Rightarrow> kernel_call (rearm_call fd fl) k
      | RX_closed \<Rightarrow> kernel_call (Sys_close fd) k)"

text \<open>
  The steps, for a context \<open>ctx\<close> whose descriptor table is set up, with room for \<open>vsizes\<close> events per wait and \<open>flags\<close>
  the registration flags that each descriptor is always registered with.
\<close>

inductive dispatch :: "torque_ctx \<Rightarrow> (int \<Rightarrow> u32) \<Rightarrow> nat \<Rightarrow> threads_st \<Rightarrow> threads_st \<Rightarrow> bool"
  for ctx flags vsizes where
  wait: "i < length (thr d) \<Longrightarrow> thr d ! i = Polling \<Longrightarrow> harvest vsizes (rdllist (kern d)) (kern d) = (evs, k') \<Longrightarrow>
    evs \<noteq> [] \<Longrightarrow> dispatch ctx flags vsizes d (d\<lparr>kern := k', thr := (thr d)[i := Handling (rev evs)]\<rparr>)"
| handle: "i < length (thr d) \<Longrightarrow> thr d ! i = Handling (e # es) \<Longrightarrow> handle_event (\<lambda>_ c. c) ctx e = Some (c', ivs) \<Longrightarrow>
    dispatch ctx flags vsizes d (d\<lparr>thr := (thr d)[i := Calling (fst e) ivs es]\<rparr>)"
| finish: "i < length (thr d) \<Longrightarrow> thr d ! i = Calling fd (iv # ivs) es \<Longrightarrow>
    dispatch ctx flags vsizes d (d\<lparr>kern := exit_effect fd x (kern d), thr := (thr d)[i := Calling fd ivs es]\<rparr>)"
| handled: "i < length (thr d) \<Longrightarrow> thr d ! i = Calling fd [] es \<Longrightarrow>
    dispatch ctx flags vsizes d (d\<lparr>thr := (thr d)[i := Handling es]\<rparr>)"
| again: "i < length (thr d) \<Longrightarrow> thr d ! i = Handling [] \<Longrightarrow>
    dispatch ctx flags vsizes d (d\<lparr>thr := (thr d)[i := Polling]\<rparr>)"
| register: "interest (kern d) fd = None \<Longrightarrow> fd_entry ctx (nat fd) = Some (rf, tf, v) \<Longrightarrow>
    dispatch ctx flags vsizes d
      (d\<lparr>kern := kernel_call (Sys_epoll_ctl ''ADD'' fd (fd_mask rf tf (flags fd))) (kern d)\<rparr>)"
| ready: "dispatch ctx flags vsizes d (d\<lparr>kern := arrive fd ev (kern d)\<rparr>)"
| unready: "dispatch ctx flags vsizes d (d\<lparr>kern := drain fd ev (kern d)\<rparr>)"

definition idle_epoll :: epoll where
  "idle_epoll = \<lparr>interest = Map.empty, level = (\<lambda>_. 0), rdllist = []\<rparr>"

text \<open>A thread has a descriptor in hand while it may still call one of its callbacks.\<close>

definition reported :: "(int \<times> u32) list \<Rightarrow> int \<Rightarrow> nat" where
  "reported es fd = length (filter (\<lambda>e. fst e = fd) es)"

fun in_hand :: "thread_pos \<Rightarrow> int \<Rightarrow> nat" where
  "in_hand Polling fd = 0"
| "in_hand (Handling es) fd = reported es fd"
| "in_hand (Calling fd' ivs es) fd = (if fd' = fd then length ivs else 0) + reported es fd"

definition hands :: "thread_pos list \<Rightarrow> int \<Rightarrow> nat" where
  "hands ts fd = sum_list (map (\<lambda>t. in_hand t fd) ts)"

text \<open>Inside a callback of the descriptor at this moment.\<close>

fun calling :: "thread_pos \<Rightarrow> int \<Rightarrow> bool" where
  "calling (Calling fd' (_ # _) _) fd \<longleftrightarrow> fd' = fd"
| "calling _ fd \<longleftrightarrow> False"

definition one_way :: "torque_ctx \<Rightarrow> int \<Rightarrow> bool" where
  "one_way ctx fd = (case fd_entry ctx (nat fd) of Some (Some _, Some _, _) \<Rightarrow> False | _ \<Rightarrow> True)"

section \<open>One thread per one-shot descriptor\<close>

lemma epoll_events_disarmed [simp]: "epoll_events (m AND (EVEDGET OR EVONESHOT)) = 0"
  by (auto simp: epoll_events_def bit_eq_iff bit_simps)

lemma oneshot_disarmed [simp]: "oneshot (m AND (EVEDGET OR EVONESHOT)) = oneshot m"
proof -
  have "(m AND (EVEDGET OR EVONESHOT)) AND EVONESHOT = m AND EVONESHOT"
    by (auto simp: bit_eq_iff bit_simps)
  then show ?thesis by (simp add: oneshot_def)
qed

lemma oneshot_or [simp]: "oneshot a \<Longrightarrow> oneshot (a OR b)" "oneshot b \<Longrightarrow> oneshot (a OR b)"
  by (auto simp: oneshot_def bit_eq_iff bit_simps)

lemma oneshot_EVONESHOT [simp]: "oneshot EVONESHOT"
  by (simp add: oneshot_def EVONESHOT_def)

lemma fd_mask_oneshot: "oneshot (fd_mask rf tf EVONESHOT)"
  by (simp add: fd_mask_def Let_def)

lemma interest_watch [simp]: "interest (watch fd ev k) = (interest k)(fd \<mapsto> ev OR 0x18)"
  by (simp add: watch_def add_ready_def)

lemma level_watch [simp]: "level (watch fd ev k) = level k"
  by (simp add: watch_def add_ready_def)

text \<open>Other descriptors are left alone, and stay on the ready list.\<close>

definition same_at :: "int \<Rightarrow> epoll \<Rightarrow> epoll \<Rightarrow> bool" where
  "same_at fd k k' \<longleftrightarrow> interest k' fd = interest k fd \<and> level k' fd = level k fd \<and>
     (fd \<in> set (rdllist k) \<longrightarrow> fd \<in> set (rdllist k'))"

lemma same_at_keeps:
  assumes "same_at fd k k'"
  shows "armed k' fd = armed k fd" "pending k' fd = pending k fd"
  using assms by (auto simp: same_at_def armed_def pending_def split: option.splits)

lemma same_at_refl [simp]: "same_at fd k k"
  by (simp add: same_at_def)

lemma kernel_call_other:
  "fd \<noteq> g \<Longrightarrow> same_at g k (kernel_call (Sys_epoll_ctl op fd ev) k)"
  "fd \<noteq> g \<Longrightarrow> same_at g k (kernel_call (Sys_close fd) k)"
  by (auto simp: kernel_call_def same_at_def watch_def add_ready_def unwatch_def)

lemma exit_effect_other: "fd \<noteq> g \<Longrightarrow> same_at g k (exit_effect fd x k)"
  by (cases x) (simp_all add: exit_effect_def kernel_call_other rearm_call_def)

text \<open>What a wait does to one descriptor.\<close>

lemma disarm_at:
  "interest (disarm fd k) g = (if g = fd then map_option (\<lambda>m. if oneshot m then m AND (EVEDGET OR EVONESHOT) else m) (interest k g)
     else interest k g)" "level (disarm fd k) = level k"
  by (auto simp: disarm_def split: option.splits)

lemma harvest_interest:
  "harvest n fds k = (evs, k') \<Longrightarrow> level k' = level k \<and>
   (interest k' g = interest k g \<or> (\<exists>m. interest k g = Some m \<and> oneshot m \<and> interest k' g = Some (m AND (EVEDGET OR EVONESHOT))))"
proof (induction n fds k arbitrary: evs rule: harvest.induct)
  case (3 n fd fds k)
  show ?case
  proof (cases "pending k fd = 0")
    case True
    then show ?thesis using "3.IH"(1) "3.prems" by simp
  next
    case False
    obtain evs1 where h: "harvest n fds (disarm fd k) = (evs1, k')" using "3.prems" False by (auto split: prod.splits)
    have "(m AND (EVEDGET OR EVONESHOT)) AND (EVEDGET OR EVONESHOT) = m AND (EVEDGET OR EVONESHOT)" for m
      by (simp add: and.assoc)
    then show ?thesis using "3.IH"(2) [OF False h] disarm_at(1) [of fd k g]
      by (cases "interest k g") (auto simp: disarm_at(2) split: if_splits)
  qed
qed auto

lemma harvest_once:
  assumes "harvest n fds k = (evs, k')" "\<forall>m. interest k g = Some m \<longrightarrow> oneshot m"
  shows "reported evs g + (if armed k' g then 1 else 0) \<le> (if armed k g then 1 else 0)"
  using assms
proof (induction n fds k arbitrary: evs rule: harvest.induct)
  case (3 n fd fds k)
  show ?case
  proof (cases "pending k fd = 0")
    case True
    then show ?thesis using "3.IH"(1) "3.prems" by simp
  next
    case False
    obtain evs1 where h: "harvest n fds (disarm fd k) = (evs1, k')" and evs: "evs = (fd, pending k fd) # evs1"
      using "3.prems" False by (auto split: prod.splits)
    obtain m where m: "interest k fd = Some m" "epoll_events m \<noteq> 0"
      using False by (fastforce simp: pending_def split: option.splits)
    have os: "\<forall>m. interest (disarm fd k) g = Some m \<longrightarrow> oneshot m"
      using "3.prems"(2) m by (auto simp: disarm_at(1))
    have "armed (disarm fd k) g = (armed k g \<and> g \<noteq> fd)" "armed k fd"
      using "3.prems"(2) m by (auto simp: armed_def disarm_at(1))
    then show ?thesis using "3.IH"(2) [OF False h os] evs by (auto simp: reported_def)
  qed
qed (auto simp: reported_def armed_def)

text \<open>Counting hands: a thread that moves gives back what it had and takes what it has now.\<close>

lemma hands_update:
  "i < length ts \<Longrightarrow> hands (ts[i := p]) fd + in_hand (ts ! i) fd = hands ts fd + in_hand p fd"
proof (induction ts arbitrary: i)
  case (Cons t ts)
  then show ?case by (cases i) (auto simp: hands_def)
qed simp

lemma in_hand_le: "t \<in> set ts \<Longrightarrow> in_hand t fd \<le> hands ts fd"
  by (induction ts) (auto simp: hands_def)

lemma hands_two:
  "i < j \<Longrightarrow> j < length ts \<Longrightarrow> in_hand (ts ! i) fd + in_hand (ts ! j) fd \<le> hands ts fd"
proof (induction ts arbitrary: i j)
  case (Cons t ts)
  then obtain j' where j: "j = Suc j'" by (cases j) auto
  show ?case
  proof (cases i)
    case 0
    then show ?thesis using in_hand_le [of "ts ! j'" ts fd] Cons.prems j by (simp add: hands_def)
  next
    case (Suc i')
    then show ?thesis using Cons.IH [of i' j'] Cons.prems j by (simp add: hands_def)
  qed
qed simp

lemma reported_rev [simp]: "reported (rev es) fd = reported es fd"
  by (simp add: reported_def flip: rev_filter)

lemma one_way_calls:
  assumes "handle_event (\<lambda>_ c. c) ctx e = Some (c', ivs)" "one_way ctx (fst e)"
  shows "length ivs \<le> 1"
  using assms
  by (auto simp: handle_event_def handle_evsource_read_def handle_evsource_write_def run_invocations_def one_way_def
      src_entry_def Let_def split: if_splits option.splits)

definition exclusive :: "int \<Rightarrow> threads_st \<Rightarrow> bool" where
  "exclusive fd d \<longleftrightarrow> (\<forall>m. interest (kern d) fd = Some m \<longrightarrow> oneshot m) \<and>
     (interest (kern d) fd = None \<longrightarrow> hands (thr d) fd = 0) \<and>
     hands (thr d) fd + (if armed (kern d) fd then 1 else 0) \<le> 1"

lemma exclusive_finish:
  assumes "i < length (thr d)" "thr d ! i = Calling g (iv # ivs) es" "exclusive fd d"
  shows "exclusive fd (d\<lparr>kern := exit_effect g x (kern d), thr := (thr d)[i := Calling g ivs es]\<rparr>)"
proof (cases "g = fd")
  case True
  then show ?thesis using assms hands_update [OF assms(1), of "Calling g ivs es" fd]
    by (cases x) (auto simp: exclusive_def exit_effect_def kernel_call_def rearm_call_def unwatch_def armed_def split: if_splits)
next
  case False
  note s = exit_effect_other [OF False, of "kern d" x]
  show ?thesis using assms hands_update [OF assms(1), of "Calling g ivs es" fd] False s same_at_keeps(1) [OF s]
    by (auto simp: exclusive_def same_at_def split: if_splits)
qed

lemma exclusive_register:
  assumes "exclusive fd d" "g = fd \<Longrightarrow> interest (kern d) g = None \<and> flags g = EVONESHOT"
  shows "exclusive fd (d\<lparr>kern := kernel_call (Sys_epoll_ctl ''ADD'' g (fd_mask rf tf (flags g))) (kern d)\<rparr>)"
proof (cases "g = fd")
  case True
  then show ?thesis using assms fd_mask_oneshot [of rf tf] by (auto simp: exclusive_def kernel_call_def split: if_splits)
next
  case False
  note s = kernel_call_other(1) [OF False, of "kern d" "''ADD''" "fd_mask rf tf (flags g)"]
  show ?thesis using assms(1) s same_at_keeps(1) [OF s] by (auto simp: exclusive_def same_at_def split: if_splits)
qed

lemma dispatch_exclusive:
  assumes "dispatch ctx flags vsizes d d'" "exclusive fd d" "flags fd = EVONESHOT" "one_way ctx fd"
  shows "exclusive fd d'"
  using assms(1)
proof cases
  case (wait i evs k')
  have none: "interest k' fd = None \<longleftrightarrow> interest (kern d) fd = None" using harvest_interest [OF wait(4), of fd] by auto
  have os: "\<forall>m. interest (kern d) fd = Some m \<longrightarrow> oneshot m" using assms(2) by (simp add: exclusive_def)
  then have "\<forall>m. interest k' fd = Some m \<longrightarrow> oneshot m"
    using harvest_interest [OF wait(4), of fd] by auto
  then show ?thesis using wait hands_update [OF wait(2), of "Handling (rev evs)" fd] harvest_once [OF wait(4) os] none assms(2)
    by (auto simp: exclusive_def armed_def split: if_splits)
next
  case (handle i e es c' ivs)
  have "length ivs \<le> 1" if "fst e = fd" using one_way_calls [OF handle(4)] assms(4) that by simp
  then show ?thesis using handle hands_update [OF handle(2), of "Calling (fst e) ivs es" fd] assms(2)
    by (auto simp: exclusive_def reported_def split: if_splits)
next
  case (finish i g iv ivs es x)
  then show ?thesis using exclusive_finish [OF finish(2,3) assms(2)] by simp
next
  case (handled i g es)
  then show ?thesis using hands_update [OF handled(2), of "Handling es" fd] assms(2) by (auto simp: exclusive_def)
next
  case (again i)
  then show ?thesis using hands_update [OF again(2), of Polling fd] assms(2) by (auto simp: exclusive_def reported_def)
next
  case (register g rf tf v)
  then show ?thesis by (simp only:) (rule exclusive_register [OF assms(2)], simp add: assms(3))
next
  case (ready g ev)
  then show ?thesis using assms(2) by (auto simp: exclusive_def arrive_def add_ready_def armed_def Let_def split: option.splits if_splits)
next
  case (unready g ev)
  then show ?thesis using assms(2) by (auto simp: exclusive_def drain_def armed_def)
qed

section \<open>No readiness is lost\<close>

text \<open>A one-shot descriptor that is ready for what it is armed for is on the ready list.\<close>

definition listed :: "int \<Rightarrow> threads_st \<Rightarrow> bool" where
  "listed fd d \<longleftrightarrow> (\<forall>m. interest (kern d) fd = Some m \<longrightarrow> oneshot m) \<and>
     (pending (kern d) fd \<noteq> 0 \<longrightarrow> fd \<in> set (rdllist (kern d)))"

lemma pending_rdllist [simp]: "pending (k\<lparr>rdllist := l\<rparr>) fd = pending k fd"
  by (cases "interest k fd") (simp_all add: pending_def)

lemma add_ready_listed: "pending (add_ready fd k) fd \<noteq> 0 \<Longrightarrow> fd \<in> set (rdllist (add_ready fd k))"
  by (auto simp: add_ready_def)

lemma harvest_listed:
  assumes "harvest n fds k = (evs, k')" "\<forall>m. interest k g = Some m \<longrightarrow> oneshot m"
    and "pending k g \<noteq> 0 \<longrightarrow> g \<in> set fds"
  shows "pending k' g \<noteq> 0 \<longrightarrow> g \<in> set (rdllist k')"
  using assms
proof (induction n fds k arbitrary: evs rule: harvest.induct)
  case (3 n fd fds k)
  show ?case
  proof (cases "pending k fd = 0")
    case True
    then show ?thesis using "3.IH"(1) "3.prems" by auto
  next
    case False
    obtain evs1 where h: "harvest n fds (disarm fd k) = (evs1, k')" using "3.prems" False by (auto split: prod.splits)
    have os: "\<forall>m. interest (disarm fd k) g = Some m \<longrightarrow> oneshot m"
      using "3.prems"(2) by (auto simp: disarm_at(1) split: if_splits option.splits)
    have "pending (disarm fd k) g = (if g = fd then 0 else pending k g)"
      using "3.prems"(2) by (auto simp: pending_def disarm_at split: option.splits)
    then show ?thesis using "3.IH"(2) [OF False h os] "3.prems"(3) by (auto split: if_splits)
  qed
qed auto

lemma harvest_reports:
  "harvest n fds k = (evs, k') \<Longrightarrow> fd \<in> set fds \<Longrightarrow> length fds \<le> n \<Longrightarrow> pending k fd \<noteq> 0 \<Longrightarrow> (fd, pending k fd) \<in> set evs"
proof (induction n fds k arbitrary: evs rule: harvest.induct)
  case (3 n g fds k)
  show ?case
  proof (cases "pending k g = 0")
    case True
    then show ?thesis using "3.IH"(1) "3.prems" by auto
  next
    case False
    obtain evs1 where h: "harvest n fds (disarm g k) = (evs1, k')" and evs: "evs = (g, pending k g) # evs1"
      using "3.prems" False by (auto split: prod.splits)
    have "pending (disarm g k) fd = pending k fd" if "g \<noteq> fd"
      using that by (cases "interest k fd") (simp_all add: pending_def disarm_at)
    then show ?thesis using "3.IH"(2) [OF False h] "3.prems"(2-4) evs by (cases "g = fd") auto
  qed
qed auto

lemma watch_listed: "oneshot ev \<Longrightarrow> listed fd (d\<lparr>kern := watch fd ev k\<rparr>)"
  using add_ready_listed [of fd] by (auto simp: listed_def watch_def add_ready_def)

lemma same_at_listed: "same_at fd (kern d) k' \<Longrightarrow> listed fd d \<Longrightarrow> listed fd (d'\<lparr>kern := k'\<rparr>)"
  using same_at_keeps(2) [of fd "kern d" k'] by (auto simp: listed_def same_at_def)

lemma arrive_listed:
  assumes "listed fd d"
  shows "listed fd (d\<lparr>kern := arrive g ev (kern d)\<rparr>)"
proof (cases "interest (kern d) fd")
  case None
  then show ?thesis by (auto simp: listed_def arrive_def add_ready_def pending_def Let_def)
next
  case (Some m)
  then have os: "oneshot m" using assms by (simp add: listed_def)
  have "(level (kern d) fd OR ev) AND epoll_events m = (level (kern d) fd AND epoll_events m) OR (ev AND epoll_events m)"
    by (simp add: bit.conj_disj_distrib2)
  then show ?thesis using assms Some os add_ready_listed
    by (auto simp: listed_def arrive_def add_ready_def pending_def Let_def)
qed

lemma dispatch_listed:
  assumes "dispatch ctx flags vsizes d d'" "listed fd d" "flags fd = EVONESHOT"
  shows "listed fd d'"
  using assms(1)
proof cases
  case (wait i evs k')
  have os: "\<forall>m. interest (kern d) fd = Some m \<longrightarrow> oneshot m" using assms(2) by (simp add: listed_def)
  then have "\<forall>m. interest k' fd = Some m \<longrightarrow> oneshot m" using harvest_interest [OF wait(4), of fd] by auto
  then show ?thesis using wait harvest_listed [OF wait(4) os] assms(2) by (simp add: listed_def)
next
  case (finish i g iv ivs es x)
  show ?thesis
  proof (cases "g = fd")
    case True
    then show ?thesis
      using finish assms(2) watch_listed [where ev = "(EVEDGET OR EVONESHOT) OR fl" and fd = fd and k = "kern d" and d = d for fl]
      by (cases x) (auto simp: exit_effect_def kernel_call_def rearm_call_def unwatch_def listed_def pending_def
          split: if_splits)
  next
    case False
    from same_at_listed [OF exit_effect_other [OF False] assms(2)] show ?thesis using finish by (simp add: listed_def)
  qed
next
  case (register g rf tf v)
  show ?thesis
  proof (cases "g = fd")
    case True
    then show ?thesis using register assms(3) watch_listed [OF fd_mask_oneshot] by (simp add: kernel_call_def)
  next
    case False
    from same_at_listed [OF kernel_call_other(1) [OF False] assms(2)] show ?thesis using register by (simp add: listed_def)
  qed
next
  case (ready g ev)
  then show ?thesis using assms(2) arrive_listed by simp
next
  case (unready g ev)
  have "(l AND NOT ev) AND e = (l AND e) AND NOT ev" for l e :: u32 by (simp add: ac_simps)
  then have "pending (drain g ev (kern d)) fd \<noteq> 0 \<longrightarrow> pending (kern d) fd \<noteq> 0"
    by (auto simp: pending_def drain_def split: option.splits)
  then show ?thesis using unready assms(2) by (simp add: listed_def drain_def)
qed (use assms(2) in \<open>simp_all add: listed_def\<close>)

lemma harvest_armed: "harvest n fds k = (evs, k') \<Longrightarrow> (fd, ev) \<in> set evs \<Longrightarrow> armed k fd"
proof (induction n fds k arbitrary: evs rule: harvest.induct)
  case (3 n g fds k)
  show ?case
  proof (cases "pending k g = 0")
    case True
    then show ?thesis using "3.IH"(1) "3.prems" by simp
  next
    case False
    obtain evs1 where h: "harvest n fds (disarm g k) = (evs1, k')" and evs: "evs = (g, pending k g) # evs1"
      using "3.prems" False by (auto split: prod.splits)
    have "armed k g" using False by (fastforce simp: pending_def armed_def split: option.splits)
    moreover have "armed (disarm g k) fd \<Longrightarrow> armed k fd"
      by (auto simp: armed_def disarm_at(1) split: option.splits if_splits)
    ultimately show ?thesis using "3.IH"(2) [OF False h] "3.prems"(2) evs by auto
  qed
qed auto

section \<open>Descriptors that are lost\<close>

text \<open>Watched, but for nothing, and in no thread's hands.\<close>

definition lost :: "int \<Rightarrow> threads_st \<Rightarrow> bool" where
  "lost fd d \<longleftrightarrow> interest (kern d) fd \<noteq> None \<and> \<not> armed (kern d) fd \<and> hands (thr d) fd = 0"

lemma dispatch_lost:
  assumes "dispatch ctx flags vsizes d d'" "lost fd d"
  shows "lost fd d'"
  using assms(1)
proof cases
  case (wait i evs k')
  have "\<not> armed k' fd" "interest k' fd \<noteq> None"
    using harvest_interest [OF wait(4), of fd] assms(2) by (auto simp: lost_def armed_def)
  moreover have "fd \<notin> fst ` set evs" using harvest_armed [OF wait(4)] assms(2) by (auto simp: lost_def)
  ultimately show ?thesis using wait hands_update [OF wait(2), of "Handling (rev evs)" fd] assms(2)
    by (auto simp: lost_def reported_def image_iff filter_empty_conv)
next
  case (handle i e es c' ivs)
  then have "in_hand (Handling (e # es)) fd = 0" using in_hand_le [OF nth_mem [OF handle(2)], of fd] assms(2)
    by (simp add: lost_def)
  then show ?thesis using handle hands_update [OF handle(2), of "Calling (fst e) ivs es" fd] assms(2)
    by (auto simp: lost_def reported_def split: if_splits)
next
  case (finish i g iv ivs es x)
  then have "g \<noteq> fd" using in_hand_le [OF nth_mem [OF finish(2)], of fd] assms(2) by (auto simp: lost_def)
  note s = exit_effect_other [OF this, of "kern d" x]
  show ?thesis using finish hands_update [OF finish(2), of "Calling g ivs es" fd] assms(2) s same_at_keeps(1) [OF s]
    by (auto simp: lost_def same_at_def split: if_splits)
next
  case (handled i g es)
  then show ?thesis using hands_update [OF handled(2), of "Handling es" fd] assms(2) by (auto simp: lost_def)
next
  case (again i)
  then show ?thesis using hands_update [OF again(2), of Polling fd] assms(2) by (auto simp: lost_def reported_def)
next
  case (register g rf tf v)
  then have "g \<noteq> fd" using assms(2) by (auto simp: lost_def)
  note s = kernel_call_other(1) [OF this, of "kern d" "''ADD''" "fd_mask rf tf (flags g)"]
  show ?thesis using register assms(2) s same_at_keeps(1) [OF s] by (auto simp: lost_def same_at_def)
next
  case (ready g ev)
  then show ?thesis using assms(2)
    by (auto simp: lost_def arrive_def add_ready_def armed_def Let_def split: option.splits if_splits)
next
  case (unready g ev)
  then show ?thesis using assms(2) by (auto simp: lost_def drain_def armed_def)
qed

interpretation lost_kept: step_invariant "dispatch ctx flags vsizes" "lost fd" for ctx flags vsizes fd
  by unfold_locales (rule dispatch_lost)

interpretation exclusive_kept: step_invariant "dispatch ctx flags vsizes"
  "\<lambda>d. exclusive fd d \<and> flags fd = EVONESHOT \<and> one_way ctx fd" for ctx flags vsizes fd
  by unfold_locales (use dispatch_exclusive in blast)

interpretation listed_kept: step_invariant "dispatch ctx flags vsizes" "\<lambda>d. listed fd d \<and> flags fd = EVONESHOT" for ctx flags vsizes fd
  by unfold_locales (use dispatch_listed in blast)

section \<open>Properties\<close>

definition all_polling :: "nat \<Rightarrow> threads_st" where
  "all_polling n = \<lparr>kern = idle_epoll, thr = replicate n Polling\<rparr>"

lemma hands_polling: "hands (replicate n Polling) fd = 0"
  by (induction n) (auto simp: hands_def)

lemma polling_start: "exclusive fd (all_polling n)" "listed fd (all_polling n)"
  by (simp_all add: exclusive_def listed_def all_polling_def idle_epoll_def armed_def pending_def hands_polling)

lemma reachable_exclusive:
  "(dispatch ctx flags vsizes)\<^sup>*\<^sup>* (all_polling n) d \<Longrightarrow> flags fd = EVONESHOT \<Longrightarrow> one_way ctx fd \<Longrightarrow> exclusive fd d"
  using exclusive_kept.reach_keeps polling_start by blast

lemma reachable_listed: "(dispatch ctx flags vsizes)\<^sup>*\<^sup>* (all_polling n) d \<Longrightarrow> flags fd = EVONESHOT \<Longrightarrow> listed fd d"
  using listed_kept.reach_keeps polling_start by blast

lemma calling_in_hand: "calling t fd \<Longrightarrow> 1 \<le> in_hand t fd"
  by (induction t fd rule: calling.induct) auto


text \<open>
  A run of two threads: a descriptor is registered and becomes readable (\<open>sample_ready\<close>), the first thread takes it and is in its
  callback (\<open>sample_taken\<close>).
\<close>

definition sample_ready :: threads_st where
  "sample_ready = \<lparr>kern = \<lparr>interest = [0 \<mapsto> 0xC000201B], level = (\<lambda>_. 0)(0 := 1), rdllist = [0]\<rparr>, thr = [Polling, Polling]\<rparr>"

definition sample_taken :: threads_st where
  "sample_taken = \<lparr>kern = \<lparr>interest = [0 \<mapsto> 0xC0000000], level = (\<lambda>_. 0)(0 := 1), rdllist = []\<rparr>,
     thr = [Calling 0 [(Cb_user 5, 0, Ptr_user 6)] [], Polling]\<rparr>"

lemmas dispatch_eval = all_polling_def idle_epoll_def kernel_call_def watch_def add_ready_def pending_def epoll_events_def
  fd_mask_def EVEDGET_def EVONESHOT_def EVREAD_def EVWRITE_def disarm_def oneshot_def arrive_def src_entry_def exit_effect_def
  rearm_call_def sample_table_def handle_event_def handle_evsource_read_def handle_evsource_write_def run_invocations_def Let_def

lemma sample_ready_reachable: "(dispatch sample_table (\<lambda>_. EVONESHOT) 512)\<^sup>*\<^sup>* (all_polling 2) sample_ready"
proof -
  let ?step = "dispatch sample_table (\<lambda>_. EVONESHOT) 512"
  let ?d0 = "\<lparr>kern = idle_epoll, thr = [Polling, Polling]\<rparr>"
  let ?d1 = "?d0\<lparr>kern := \<lparr>interest = [0 \<mapsto> 0xC000201B], level = (\<lambda>_. 0), rdllist = []\<rparr>\<rparr>"
  have s1: "?step ?d0 ?d1"
    using dispatch.register [of ?d0 0 sample_table "Some (Cb_user 5)" None "Ptr_user 6" "\<lambda>_. EVONESHOT" 512]
    by (simp add: dispatch_eval)
  have s2: "?step ?d1 sample_ready"
    using dispatch.ready [of sample_table "\<lambda>_. EVONESHOT" 512 ?d1 0 1] by (simp add: dispatch_eval sample_ready_def)
  have "?step\<^sup>*\<^sup>* ?d0 sample_ready"
    by (rule converse_rtranclp_into_rtranclp [OF s1 r_into_rtranclp [of ?step, OF s2]])
  then show ?thesis by (simp add: all_polling_def numeral_2_eq_2)
qed

lemma sample_taken_reachable: "(dispatch sample_table (\<lambda>_. EVONESHOT) 512)\<^sup>*\<^sup>* (all_polling 2) sample_taken"
proof -
  let ?step = "dispatch sample_table (\<lambda>_. EVONESHOT) 512"
  let ?d3 = "\<lparr>kern = kern sample_taken, thr = [Handling [(0, 1)], Polling]\<rparr>"
  have "harvest (Suc 511) [0] (kern sample_ready) = ([(0, 1)], kern sample_taken)"
    by (simp add: dispatch_eval sample_taken_def sample_ready_def del: Suc_numeral)
  then have s3: "?step sample_ready ?d3"
    using dispatch.wait [of 0 sample_ready 512 "[(0, 1)]" "kern sample_taken" sample_table "\<lambda>_. EVONESHOT"]
    by (simp add: sample_ready_def)
  have s4: "?step ?d3 sample_taken"
    using dispatch.handle [of 0 ?d3 "(0, 1)" "[]" sample_table sample_table "[(Cb_user 5, 0, Ptr_user 6)]"]
    by (simp add: dispatch_eval sample_taken_def)
  show ?thesis
    by (rule rtranclp_trans [OF sample_ready_reachable converse_rtranclp_into_rtranclp [OF s3 r_into_rtranclp [of ?step, OF s4]]])
qed




text \<open>The calls of a trace, applied to the kernel one after the other.\<close>

definition replay :: "syscall list \<Rightarrow> epoll \<Rightarrow> epoll" where
  "replay cs k = foldl (\<lambda>k c. kernel_call c k) k cs"

lemma replay_append [simp]: "replay (cs @ ds) k = replay ds (replay cs k)"
  by (simp add: replay_def)

lemma kernel_call_untouched: "\<not> touches fd c \<Longrightarrow> interest (kernel_call c k) fd = interest k fd"
  by (cases c) (auto simp: kernel_call_def touches_def unwatch_def)

lemma replay_untouched: "\<forall>c\<in>set cs. \<not> touches fd c \<Longrightarrow> interest (replay cs k) fd = interest k fd"
  by (induction cs rule: rev_induct) (simp_all add: replay_def kernel_call_untouched)

lemma replay_exit:
  assumes "exit_calls fd x tail" "interest k' fd = interest k fd"
  shows "interest (replay tail k') fd = interest (exit_effect fd x k) fd"
  using assms by (cases x) (auto simp: replay_def exit_effect_def kernel_call_def rearm_call_def unwatch_def)



text \<open>
  Fact: an event that no callback is registered for loses a one-shot descriptor. When a thread handles an event of a descriptor with no callback
  for it (an error or hangup alone, or writability where only a read callback is registered), the kernel keeps the descriptor disarmed, no
  thread has it in hand, and it stays so for ever.
\<close>

theorem unhandled_event_loses:
  assumes "(dispatch ctx flags vsizes)\<^sup>*\<^sup>* (all_polling n) d" "flags fd = EVONESHOT" "one_way ctx fd"
    and "i < length (thr d)" "thr d ! i = Handling ((fd, ev) # es)" "handle_event (\<lambda>_ c. c) ctx (fd, ev) = Some (c', [])"
  shows "\<exists>d'. dispatch ctx flags vsizes d d' \<and> (\<forall>d''. (dispatch ctx flags vsizes)\<^sup>*\<^sup>* d' d'' \<longrightarrow> lost fd d'')"
proof -
  let ?d' = "d\<lparr>thr := (thr d)[i := Calling fd [] es]\<rparr>"
  have ex: "exclusive fd d" by (rule reachable_exclusive [OF assms(1-3)])
  have one: "1 \<le> hands (thr d) fd" using in_hand_le [OF nth_mem [OF assms(4)], of fd] assms(5) by (simp add: reported_def)
  have st: "dispatch ctx flags vsizes d ?d'" using dispatch.handle [OF assms(4-6)] by simp
  have "lost fd ?d'"
    using ex one hands_update [OF assms(4), of "Calling fd [] es" fd] assms(5)
    by (auto simp: exclusive_def lost_def reported_def split: if_splits)
  then have "lost fd d''" if "(dispatch ctx flags vsizes)\<^sup>*\<^sup>* ?d' d''" for d''
    using lost_kept.reach_keeps [OF that] by simp
  then show ?thesis using st by blast
qed

text \<open>The descriptor of \<open>sample_table\<close>, armed for writing after its end of file, and found writable.\<close>

definition sample_half_closed :: threads_st where
  "sample_half_closed = \<lparr>kern = \<lparr>interest = [0 \<mapsto> 0xC0000000], level = (\<lambda>_. 0)(0 := 5), rdllist = []\<rparr>,
     thr = [Handling [(0, 4)], Polling]\<rparr>"

lemma sample_half_closed_reachable:
  "(dispatch sample_table (\<lambda>_. EVONESHOT) 512)\<^sup>*\<^sup>* (all_polling 2) sample_half_closed"
proof -
  let ?step = "dispatch sample_table (\<lambda>_. EVONESHOT) 512"
  let ?d4 = "\<lparr>kern = \<lparr>interest = [0 \<mapsto> 0xC0000000], level = (\<lambda>_. 0)(0 := 5), rdllist = []\<rparr>,
     thr = [Calling 0 [(Cb_user 5, 0, Ptr_user 6)] [], Polling]\<rparr>"
  let ?d5 = "\<lparr>kern = \<lparr>interest = [0 \<mapsto> 0xC000001C], level = (\<lambda>_. 0)(0 := 5), rdllist = [0]\<rparr>,
     thr = [Calling 0 [] [], Polling]\<rparr>"
  let ?d6 = "?d5\<lparr>thr := [Handling [], Polling]\<rparr>"
  let ?d7 = "?d5\<lparr>thr := [Polling, Polling]\<rparr>"
  have s1: "?step sample_taken ?d4"
    using dispatch.ready [of sample_table "\<lambda>_. EVONESHOT" 512 sample_taken 0 4] by (simp add: dispatch_eval sample_taken_def)
  have s2: "?step ?d4 ?d5"
    using dispatch.finish [of 0 ?d4 0 "(Cb_user 5, 0, Ptr_user 6)" "[]" "[]" sample_table "\<lambda>_. EVONESHOT" 512 "RX_rearmed EVWRITE"]
    by (simp add: dispatch_eval)
  have s3: "?step ?d5 ?d6" using dispatch.handled [of 0 ?d5 0 "[]" sample_table "\<lambda>_. EVONESHOT" 512] by simp
  have s4: "?step ?d6 ?d7" using dispatch.again [of 0 ?d6 sample_table "\<lambda>_. EVONESHOT" 512] by simp
  have "harvest (Suc 511) [0] (kern ?d7) = ([(0, 4)], kern sample_half_closed)"
    by (simp add: dispatch_eval sample_half_closed_def del: Suc_numeral)
  then have s5: "?step ?d7 sample_half_closed"
    using dispatch.wait [of 0 ?d7 512 "[(0, 4)]" "kern sample_half_closed" sample_table "\<lambda>_. EVONESHOT"]
    by (simp add: sample_half_closed_def)
  show ?thesis
    by (rule rtranclp_trans [OF sample_taken_reachable converse_rtranclp_into_rtranclp [OF s1
          converse_rtranclp_into_rtranclp [OF s2 converse_rtranclp_into_rtranclp [OF s3
          converse_rtranclp_into_rtranclp [OF s4 r_into_rtranclp [of ?step, OF s5]]]]]])
qed

theorem unhandled_event_loses_witness:
  "\<exists>d'. dispatch sample_table (\<lambda>_. EVONESHOT) 512 sample_half_closed d' \<and>
     (\<forall>d''. (dispatch sample_table (\<lambda>_. EVONESHOT) 512)\<^sup>*\<^sup>* d' d'' \<longrightarrow> lost 0 d'')"
  by (rule unhandled_event_loses [OF sample_half_closed_reachable, where i = 0 and ev = 4 and es = "[]" and c' = sample_table])
    (simp_all add: one_way_def sample_half_closed_def dispatch_eval)

text \<open>
  Fact: with both callbacks the guarantee fails. A descriptor that is readable and writable is reported once with both events; its read
  callback arms it again, and while the same thread goes on to its write callback another thread runs the read callback.
\<close>

definition sample_two_way :: torque_ctx where
  "sample_two_way = zero_ctx\<lparr>ctx_eventtables := \<lparr>fdarray = [\<lparr>rxfxn = Some (Cb_user 5), txfxn = Some (Cb_user 7),
     src_cbstate = Ptr_user 6\<rparr>], sigarray = [], sigarraysize = 0, fdarraysize = 1, common_signalfd = - 1\<rparr>\<rparr>"

theorem two_way_overlap:
  "\<exists>d. (dispatch sample_two_way (\<lambda>_. EVONESHOT) 512)\<^sup>*\<^sup>* (all_polling 2) d \<and> calling (thr d ! 0) 0 \<and> calling (thr d ! 1) 0"
proof -
  let ?step = "dispatch sample_two_way (\<lambda>_. EVONESHOT) 512"
  let ?l = "(\<lambda>_. 0 :: u32)(0 := 5)" and ?rx = "(Cb_user 5, 0 :: nat, Ptr_user 6)" and ?tx = "(Cb_user 7, 0 :: nat, Ptr_user 6)"
  let ?d0 = "\<lparr>kern = idle_epoll, thr = [Polling, Polling]\<rparr>"
  let ?d1 = "?d0\<lparr>kern := \<lparr>interest = [0 \<mapsto> 0xC000201F], level = (\<lambda>_. 0), rdllist = []\<rparr>\<rparr>"
  let ?d2 = "?d0\<lparr>kern := \<lparr>interest = [0 \<mapsto> 0xC000201F], level = ?l, rdllist = [0]\<rparr>\<rparr>"
  let ?off = "\<lparr>interest = [0 \<mapsto> 0xC0000000], level = ?l, rdllist = []\<rparr>"
  let ?d3 = "\<lparr>kern = ?off, thr = [Handling [(0, 5)], Polling]\<rparr>"
  let ?d4 = "\<lparr>kern = ?off, thr = [Calling 0 [?rx, ?tx] [], Polling]\<rparr>"
  let ?on = "\<lparr>interest = [0 \<mapsto> 0xC000201B], level = ?l, rdllist = [0]\<rparr>"
  let ?d5 = "\<lparr>kern = ?on, thr = [Calling 0 [?tx] [], Polling]\<rparr>"
  let ?d6 = "\<lparr>kern = ?off, thr = [Calling 0 [?tx] [], Handling [(0, 1)]]\<rparr>"
  let ?d7 = "\<lparr>kern = ?off, thr = [Calling 0 [?tx] [], Calling 0 [?rx] []]\<rparr>"
  have s1: "?step ?d0 ?d1"
    using dispatch.register [of ?d0 0 sample_two_way "Some (Cb_user 5)" "Some (Cb_user 7)" "Ptr_user 6" "\<lambda>_. EVONESHOT" 512]
    by (simp add: dispatch_eval sample_two_way_def)
  have s2: "?step ?d1 ?d2"
    using dispatch.ready [of sample_two_way "\<lambda>_. EVONESHOT" 512 ?d1 0 5] by (simp add: dispatch_eval)
  have "harvest (Suc 511) [0] (kern ?d2) = ([(0, 5)], ?off)" by (simp add: dispatch_eval del: Suc_numeral)
  then have s3: "?step ?d2 ?d3"
    using dispatch.wait [of 0 ?d2 512 "[(0, 5)]" ?off sample_two_way "\<lambda>_. EVONESHOT"] by simp
  have s4: "?step ?d3 ?d4"
    using dispatch.handle [of 0 ?d3 "(0, 5)" "[]" sample_two_way sample_two_way "[?rx, ?tx]"]
    by (simp add: dispatch_eval sample_two_way_def)
  have s5: "?step ?d4 ?d5"
    using dispatch.finish [of 0 ?d4 0 ?rx "[?tx]" "[]" sample_two_way "\<lambda>_. EVONESHOT" 512 "RX_rearmed EVREAD"]
    by (simp add: dispatch_eval)
  have "harvest (Suc 511) [0] ?on = ([(0, 1)], ?off)" by (simp add: dispatch_eval del: Suc_numeral)
  then have s6: "?step ?d5 ?d6"
    using dispatch.wait [of 1 ?d5 512 "[(0, 1)]" ?off sample_two_way "\<lambda>_. EVONESHOT"] by simp
  have s7: "?step ?d6 ?d7"
    using dispatch.handle [of 1 ?d6 "(0, 1)" "[]" sample_two_way sample_two_way "[?rx]"]
    by (simp add: dispatch_eval sample_two_way_def)
  have "?step\<^sup>*\<^sup>* ?d0 ?d7"
    by (rule converse_rtranclp_into_rtranclp [OF s1 converse_rtranclp_into_rtranclp [OF s2
          converse_rtranclp_into_rtranclp [OF s3 converse_rtranclp_into_rtranclp [OF s4 converse_rtranclp_into_rtranclp [OF s5
          converse_rtranclp_into_rtranclp [OF s6 r_into_rtranclp [of ?step, OF s7]]]]]]])
  then show ?thesis by (intro exI [of _ ?d7]) (simp add: all_polling_def numeral_2_eq_2)
qed

end
