(* ===== verification/Detected.thy ===== *)
theory Detected
  imports Arch
begin

text \<open>
  What a successful detection guarantees to the code that reads the descriptions later: the
  instruction set of a type says which alternative of \<open>spec\<close> was written.
\<close>

fun tagged :: "torque_isat \<Rightarrow> cpu_spec \<Rightarrow> bool" where
  "tagged TORQUE_ISA_X86 (Spec_x86 _) \<longleftrightarrow> True"
| "tagged TORQUE_ISA_NVIDIA (Spec_cuda _) \<longleftrightarrow> True"
| "tagged _ _ \<longleftrightarrow> False"

definition types_tagged :: "torque_ctx \<Rightarrow> bool" where
  "types_tagged ctx \<longleftrightarrow> (\<forall>d\<in>set (ctx_cpudescs ctx). tagged (cpu_isa d) (cpu_spec d))"

section \<open>The x86 side\<close>

abbreviation has_x86 :: "torque_cput \<Rightarrow> bool" where
  "has_x86 cpu \<equiv> (\<exists>x. cpu_spec cpu = Spec_x86 x)"

lemma topfxn_x86:
  assumes "call_topfxn f cpuid maxlevel ff cpu = Some (r, cpu')" "has_x86 cpu"
  shows "has_x86 cpu'"
proof -
  have x: "id_x86_topology cpuid maxlevel ff c = (r, c') \<Longrightarrow> cpu_spec c' = cpu_spec c" for c c' r
    by (auto simp: id_x86_topology_def Let_def split: if_splits)
  have a: "cpu_x86apic cpuid maxlevel c = Some (r, c') \<Longrightarrow> cpu_spec c' = cpu_spec c \<or> has_x86 c'" for c c' r
    by (auto simp: cpu_x86apic_def set_apic_def split: option.splits)
  show ?thesis
    using assms
    by (cases f) (auto simp: id_intel_topology_def id_amd_topology_def Let_def split: if_splits dest!: x a)
qed

lemma memfxn_spec:
  assumes "call_memfxn f cpuid maxlevel ff cpu s = Some (r, cpu', s')" "cput_wf cpu"
  shows "cpu_spec cpu' = cpu_spec cpu"
proof (cases f)
  case Mem_intel
  then show ?thesis using id_intel_caches_wf [OF assms(2)] assms(1) by auto
next
  case Mem_amd
  then show ?thesis using id_amd_caches_adds [OF _ assms(2)] assms(1) by (simp add: adds_to_def cpu_grows_def)
next
  case Mem_via
  then show ?thesis using add_hwmem_ret_adds [OF assms(2)] assms(1)
    by (auto simp: id_via_caches_def adds_to_def cpu_grows_def) (metis fst_conv snd_conv)
qed

lemma x86cpuid_tail_spec: "x86cpuid_tail cpuid cpu s = (r, cpu', pos, s') \<Longrightarrow> cpu_spec cpu' = cpu_spec cpu"
  by (auto simp: x86cpuid_tail_def x86_getbrandname_def split: prod.splits if_splits option.splits)

lemma x86cpuid_tagged:
  assumes "x86cpuid avail cpuid c0 s = Some (0, cpu', pos, s')"
  shows "tagged (cpu_isa cpu') (cpu_spec cpu')"
proof -
  obtain v sig ff cpu1 cpu2 s2 where
    t: "top_stage v cpuid (eax (cpuid CPUID_MAX_SUPPORT 0)) ff ((x86cpuid_reset c0)\<lparr>cpu_spec := Spec_x86 sig\<rparr>) =
      Some (0, cpu1)"
    and m: "call_memfxn (vendor_memfxn v) cpuid (eax (cpuid CPUID_MAX_SUPPORT 0)) ff cpu1 s = Some (0, cpu2, s2)"
    and l: "x86cpuid_tail cpuid cpu2 s2 = (0, cpu', pos, s')"
    using x86cpuid_stages [OF assms refl refl] by (auto split: if_splits)
  have "has_x86 cpu1" using t by (auto simp: top_stage_def split: option.splits dest!: topfxn_x86)
  moreover have "cput_wf cpu1" using top_stage_wf [OF t] by (simp add: isa_wf reset_wf)
  ultimately have "has_x86 cpu'" using memfxn_spec [OF m] x86cpuid_tail_spec [OF l] by simp
  then show ?thesis using x86cpuid_ok [OF assms] by auto
qed

section \<open>All types\<close>

lemma record_cputype_tagged:
  assumes "record_cputype ctx d s = (r, ctx', s')" "types_tagged ctx" "tagged (cpu_isa d) (cpu_spec d)"
  shows "types_tagged ctx'"
proof (cases "match_cputype ctx d")
  case None
  then show ?thesis using assms
    by (auto simp: record_cputype_def add_cputype_def types_tagged_def split: prod.splits if_splits)
next
  case (Some i)
  let ?c = "ctx_cpudescs ctx ! i"
  have c: "ctx_cpudescs ctx' = (ctx_cpudescs ctx)[i := ?c\<lparr>cpu_elements := cpu_elements ?c + 1\<rparr>]"
    using assms(1) Some by (auto simp: record_cputype_def)
  have "tagged (cpu_isa e) (cpu_spec e)" if "e \<in> set (ctx_cpudescs ctx')" for e
    using that assms(2) nth_mem [of i "ctx_cpudescs ctx"] set_update_subset_insert [of "ctx_cpudescs ctx" i]
    by (cases "i < length (ctx_cpudescs ctx)") (auto simp: c types_tagged_def set_conv_nth nth_list_update)
  then show ?thesis by (simp add: types_tagged_def)
qed

lemma cputype_step_tagged:
  assumes "cputype_step avail cpuids aid ctx tm s = Some (r, ctx', tm', s')" "types_tagged ctx"
  shows "types_tagged ctx'"
proof -
  have d: "tagged (cpu_isa e) (cpu_spec e)" if "detect_cpudetails avail cpuids aid s = Some (0, e, pos, t)" for e pos t
    using that by (auto simp: detect_cpudetails_def split: prod.splits if_splits option.splits dest!: x86cpuid_tagged)
  have z: "types_tagged (c\<lparr>ctx_sched_zone := zs\<rparr>) = types_tagged c" for c zs by (simp add: types_tagged_def)
  have w: "types_tagged c' = types_tagged c" if "spawn_thread c t = (q, c', t')" for c t q c' t'
    using spawn_thread_hw [OF that] by (simp add: types_tagged_def)
  show ?thesis
    using assms
    by (auto simp: cputype_step_def Let_def z split: option.splits prod.splits if_splits
        dest!: w dest: record_cputype_tagged [OF _ assms(2) d])
qed

lemma cputypes_loop_tagged:
  "cputypes_loop avail cpuids cset n z aid ctx tm s = Some (r, ctx', s') \<Longrightarrow> types_tagged ctx \<Longrightarrow> types_tagged ctx'"
  by (rule cputypes_loop_preserves [of avail cpuids types_tagged]) (rule cputype_step_tagged)

lemma cudaid_tagged: "cudaid devno s = (0, d, s') \<Longrightarrow> tagged (cpu_isa d) (cpu_spec d)"
  by (auto simp: cudaid_def Let_def split: prod.splits if_splits)

lemma cuda_loop_tagged: "cuda_loop devs i ctx s = (r, ctx', s') \<Longrightarrow> types_tagged ctx \<Longrightarrow> types_tagged ctx'"
  by (rule cuda_loop_preserves [of types_tagged]) (auto dest: cudaid_tagged record_cputype_tagged)

lemma detect_architecture_tagged:
  assumes det: "detect_architecture avail cpuids ver ctx s = Some (0, ctx', s')"
  shows "types_tagged ctx'"
proof -
  obtain ctx1 s1 ctx2 s2 where d1: "detect_cputypes avail cpuids ctx s = Some (0, ctx1, s1)"
    and d2: "detect_cuda ver ctx1 s1 = (0, ctx2, s2)" and d3: "detect_memories ctx2 s2 = (0, ctx', s')"
    using detect_architecture_cases [OF det] by auto
  have e: "types_tagged (ctx\<lparr>ctx_cpu_typecount := 0, ctx_cpudescs := []\<rparr>)" by (simp add: types_tagged_def)
  have "types_tagged ctx1"
    using d1 by (auto simp: detect_cputypes_def cputypes_err_def Let_def types_tagged_def [of "_\<lparr>ctx_cpudescs := _\<rparr>"]
        split: prod.splits option.splits if_splits dest: cputypes_loop_tagged [OF _ e])
  moreover have "types_tagged ctx2" if "types_tagged ctx1"
    using d2 that by (auto simp: detect_cuda_def split: prod.splits if_splits dest: cuda_loop_tagged)
  moreover have "ctx_cpudescs ctx' = ctx_cpudescs ctx2" using detect_memories_result(3) [OF d3] by auto
  ultimately show ?thesis by (simp add: types_tagged_def)
qed

text \<open>The one memory node that a successful detection adds.\<close>

definition no_nodes :: "torque_ctx \<Rightarrow> bool" where
  "no_nodes ctx \<longleftrightarrow> ctx_nodecount ctx = 0 \<and> ctx_manodes ctx = []"

lemma record_cputype_nodes: "record_cputype ctx d s = (r, ctx', s') \<Longrightarrow> no_nodes ctx' = no_nodes ctx"
  by (auto simp: record_cputype_def add_cputype_def no_nodes_def split: option.splits prod.splits if_splits)

lemma spawn_thread_nodes: "spawn_thread ctx s = (r, ctx', s') \<Longrightarrow> no_nodes ctx' = no_nodes ctx"
  using spawn_thread_cases [of ctx s r ctx' s'] by (auto simp: no_nodes_def link_thread_def split: option.splits)

lemma cputype_step_nodes:
  "cputype_step avail cpuids aid ctx tm s = Some (r, ctx', tm', s') \<Longrightarrow> no_nodes ctx \<Longrightarrow> no_nodes ctx'"
  by (auto simp: cputype_step_def Let_def no_nodes_def [of "_\<lparr>ctx_sched_zone := _\<rparr>"] no_nodes_def [symmetric]
      split: option.splits prod.splits if_splits dest!: record_cputype_nodes spawn_thread_nodes)

lemma detect_architecture_nodes:
  assumes det: "detect_architecture avail cpuids ver ctx s = Some (0, ctx', s')" and "hw_empty ctx"
  shows "\<exists>n. ctx_nodecount ctx' = 1 \<and> ctx_manodes ctx' = [n] \<and> node_psizes n = length (node_psizevals n) \<and>
    node_psizevals n \<noteq> []"
proof -
  obtain ctx1 s1 ctx2 s2 where d1: "detect_cputypes avail cpuids ctx s = Some (0, ctx1, s1)"
    and d2: "detect_cuda ver ctx1 s1 = (0, ctx2, s2)" and d3: "detect_memories ctx2 s2 = (0, ctx', s')"
    using detect_architecture_cases [OF det] by auto
  let ?ctx0 = "ctx\<lparr>ctx_cpu_typecount := 0, ctx_cpudescs := []\<rparr>"
  have e: "no_nodes ?ctx0" using assms(2) by (simp add: no_nodes_def hw_empty_def)
  have l: "no_nodes c" if "cputypes_loop avail cpuids cset n z aid ?ctx0 tm t = Some (r, c, t')" for cset n z aid tm t r c t'
    by (rule cputypes_loop_preserves [of avail cpuids no_nodes, OF _ that e]) (rule cputype_step_nodes)
  have "no_nodes ctx1"
    using d1 by (auto simp: detect_cputypes_def cputypes_err_def Let_def split: prod.splits option.splits if_splits dest!: l)
  moreover have "types_ok ctx1"
    using detect_cputypes_success [OF d1] assms(2) by (auto simp: hw_inv_def hw_empty_def)
  ultimately have n2: "no_nodes ctx2" and t2: "ctx_types_wf ctx2"
    using detect_cuda_types [OF d2] hw_frame_nodes [of ctx1 ctx2] by (auto simp: no_nodes_def types_ok_def)
  obtain n vals s3 sz where "determine_pagesizes ctx2 0 [] s2 = (0, n, vals, s3)"
    and "ctx' = ctx2\<lparr>ctx_nodecount := ctx_nodecount ctx2 + 1, ctx_manodes := ctx_manodes ctx2 @
      [\<lparr>node_size = sz, node_psizevals = vals, node_psizes = n, node_count = 1\<rparr>]\<rparr>"
    using detect_memories_result(3) [OF d3] by blast
  then show ?thesis using determine_pagesizes_maxima [OF _ t2] n2 by (auto simp: no_nodes_def)
qed

end
