(* ===== verification/Archdetect.thy ===== *)
theory Archdetect
  imports Torque Shutdown Detected
begin

text \<open>
  The program \<^verbatim>\<open>src/src/archdetect/archdetect.c\<close>: it prints the topology, the memory nodes and the
  processing units of the machine. Output whose result the code ignores is noted; output whose result
  it tests is a call with an answer. A message on standard error is noted without its text.
\<close>

section \<open>Sizes\<close>

definition out :: "string \<Rightarrow> sysst \<Rightarrow> sysst" where
  "out text s = sys_note (Sys_printf text) s"

definition complain :: "sysst \<Rightarrow> sysst" where
  "complain s = sys_note (Sys_write 2 0) s"

definition units :: string where
  "units = ''KMGTPEZY''"

text \<open>
  The loops of \<open>fprintf_bunit\<close>: divide by 1024 while that is exact, and then on for a rounded
  figure; a unit is its position in \<open>units\<close>. Two conversions of \<open>printf\<close> are parameters: \<open>grouped\<close>, for \<open>%'ju\<close>, whose
  grouping depends on the locale, and \<open>ratio\<close>, for \<open>%.3f\<close> of its argument divided by 1024.
\<close>

fun bunit_scale :: "nat \<Rightarrow> nat \<Rightarrow> (nat \<times> nat) option" where
  "bunit_scale v k =
     (if 1024 \<le> v \<and> v mod 1024 = 0 then
        (if k + 1 < length units then bunit_scale (v div 1024) (k + 1) else None)
      else Some (v, k))"

fun bunit_ratio :: "nat \<Rightarrow> nat \<Rightarrow> nat \<times> nat" where
  "bunit_ratio v k =
     (if k + 1 < length units \<and> 1000 \<le> v div 1024 \<and> v mod 1024 \<noteq> 0 then bunit_ratio (v div 1024) (k + 1)
      else (v, k + 1))"

declare bunit_scale.simps [simp del]
declare bunit_ratio.simps [simp del]

record formats =
  grouped :: "nat \<Rightarrow> string"
  ratio :: "nat \<Rightarrow> string"

definition fprintf_bunit :: "formats \<Rightarrow> string \<Rightarrow> u64 \<Rightarrow> sysst \<Rightarrow> int \<times> sysst" where
  "fprintf_bunit fm suffix v s =
     (let val = unat v in
      if val < 1024 \<or> val mod 1024 \<noteq> 0 then printf (dec_string val @ suffix) s
      else
        (case bunit_scale (val div 1024) 0 of
           None \<Rightarrow> (- 1, s)
         | Some (v1, k) \<Rightarrow>
             (case printf (grouped fm v1 @ [units ! k] @ suffix) s of
                (r, s1) \<Rightarrow>
                  if r < 0 then (r, s1)
                  else if 1024 \<le> v1 \<and> v1 mod 1024 \<noteq> 0 then
                    (case bunit_ratio v1 k of
                       (v2, k2) \<Rightarrow>
                         if k2 < length units
                         then printf ('' ('' @ ratio fm v2 @ '' '' @ [units ! k2] @ suffix @ '')'') s1
                         else (0, s1))
                  else (0, s1))))"

fun memory_type :: "torque_memtypet \<Rightarrow> string option" where
  "memory_type MEMTYPE_DATA = Some ''data''"
| "memory_type MEMTYPE_CODE = Some ''code''"
| "memory_type MEMTYPE_UNIFIED = Some ''unified''"
| "memory_type MEMTYPE_UNKNOWN = None"

fun tlb_type :: "torque_memtypet \<Rightarrow> string option" where
  "tlb_type MEMTYPE_DATA = Some ''data''"
| "tlb_type MEMTYPE_CODE = Some ''code''"
| "tlb_type MEMTYPE_UNIFIED = Some ''mixed''"
| "tlb_type MEMTYPE_UNKNOWN = None"

fun x86_type :: "torque_x86typet \<Rightarrow> string option" where
  "x86_type PROCESSOR_X86_OEM = Some ''OEM''"
| "x86_type PROCESSOR_X86_OVERDRIVE = Some ''OverDrive''"
| "x86_type PROCESSOR_X86_DUAL = Some ''MP''"
| "x86_type PROCESSOR_X86_UNKNOWN = None"

fun isa_type :: "torque_isat \<Rightarrow> string option" where
  "isa_type TORQUE_ISA_X86 = Some ''x86''"
| "isa_type TORQUE_ISA_NVIDIA = Some ''CUDA''"

section \<open>Processing units\<close>

text \<open>The field widths of \<open>%4u\<close>, \<open>%3u\<close>, \<open>%03x\<close> and \<open>%02x\<close>, and \<open>%d\<close> of an \<open>unsigned\<close>.\<close>

definition pad_left :: "char \<Rightarrow> nat \<Rightarrow> string \<Rightarrow> string" where
  "pad_left c n cs = replicate (n - length cs) c @ cs"

definition int_string :: "u32 \<Rightarrow> string" where
  "int_string w = (if sint w < 0 then ''-'' @ dec_string (nat (- sint w)) else dec_string (unat w))"

definition ways_text :: "u32 \<Rightarrow> string" where
  "ways_text n = (if n = 1 then ''unshared '' else dec_string (unat n) @ ''-shared '')"

definition detail_memory :: "formats \<Rightarrow> torque_memt \<Rightarrow> sysst \<Rightarrow> int \<times> sysst" where
  "detail_memory fm mem s =
     (case memory_type (mem_memtype mem) of
        None \<Rightarrow> (- 1, complain s)
      | Some memt \<Rightarrow>
          if mem_totalsize mem = 0 \<or> mem_linesize mem = 0 \<or> mem_associativity mem = 0 \<or> mem_sharedways mem = 0 \<or>
             mem_level mem = 0 then (- 1, complain s)
          else
            (case fprintf_bunit fm ''B'' (mem_totalsize mem) s of
               (r, s1) \<Rightarrow>
                 if r < 0 then (- 1, s1)
                 else
                   (case fprintf_bunit fm ''B'' (ucast (mem_linesize mem)) (out '' total, '' s1) of
                      (r, s2) \<Rightarrow>
                        if r < 0 then (- 1, s2)
                        else
                          (0, out (''(L'' @ dec_string (unat (mem_level mem)) @ '' '' @ memt @ '')'' @ [CHR 0x0A])
                                (out (ways_text (mem_sharedways mem))
                                  (out ('' line, '' @ dec_string (unat (mem_associativity mem)) @ ''-assoc, '') s2))))))"

definition detail_tlb :: "formats \<Rightarrow> torque_tlbt \<Rightarrow> sysst \<Rightarrow> int \<times> sysst" where
  "detail_tlb fm tlb s =
     (case tlb_type (tlb_tlbtype tlb) of
        None \<Rightarrow> (- 1, complain s)
      | Some tlbt \<Rightarrow>
          if tlb_pagesize tlb = 0 \<or> tlb_associativity tlb = 0 \<or> tlb_sharedways tlb = 0 \<or> tlb_entries tlb = 0 \<or>
             tlb_level tlb = 0 then (- 1, complain s)
          else
            (case fprintf_bunit fm ''B'' (ucast (tlb_pagesize tlb)) s of
               (r, s1) \<Rightarrow>
                 if r < 0 then (- 1, s1)
                 else
                   (case fprintf_bunit fm ''-entry'' (ucast (tlb_entries tlb)) (out '' pages, '' s1) of
                      (r, s2) \<Rightarrow>
                        if r < 0 then (- 1, s2)
                        else
                          (0, out (''(L'' @ dec_string (unat (tlb_level tlb)) @ '' '' @ tlbt @ '')'' @ [CHR 0x0A])
                                (out (ways_text (tlb_sharedways tlb))
                                  (out ('', '' @ dec_string (unat (tlb_associativity tlb)) @ ''-assoc, '') s2))))))"

definition extensions :: "(string \<times> (features \<Rightarrow> bool)) list" where
  "extensions = [(''MMX '', f_mmx), (''SSE '', f_sse), (''SSE2 '', f_sse2), (''SSE3 '', f_sse3), (''SSSE3 '', f_ssse3),
     (''SSE4.1 '', f_sse41), (''SSE4.2 '', f_sse42), (''SSE4a '', f_sse4a), (''AVX '', f_avx), (''XOP '', f_xop),
     (''FMA4 '', f_fma4), (''CVT16 '', f_cvt16)]"

fun print_extensions :: "(string \<times> (features \<Rightarrow> bool)) list \<Rightarrow> features \<Rightarrow> sysst \<Rightarrow> sysst" where
  "print_extensions [] fs s = s"
| "print_extensions ((name, has) # es) fs s = print_extensions es fs (if has fs then out name s else s)"

definition detail_x86 :: "x86_details \<Rightarrow> sysst \<Rightarrow> int \<times> sysst" where
  "detail_x86 x86 s =
     (let s1 = out [CHR 0x0A] (print_extensions extensions (x86_features x86)
                 (out ([CHR 0x0A, CHR 0x09] @ ''Extensions: '') s)) in
      case x86_type (x86_x86type x86) of
        None \<Rightarrow> (- 1, complain s1)
      | Some x86type \<Rightarrow>
          if x86_family x86 = 0 then (- 1, complain s1)
          else
            (0, out ([CHR 0x09] @ ''Family: 0x'' @ pad_left (CHR ''0'') 3 (hex_string (unat (x86_family x86))) @
                  '' ('' @ int_string (x86_family x86) @ '') Model: 0x'' @
                  pad_left (CHR ''0'') 2 (hex_string (unat (x86_model x86))) @ '' ('' @ int_string (x86_model x86) @
                  '') Stepping: '' @ int_string (x86_stepping x86) @ '' ('' @ x86type @ '')'' @ [CHR 0x0A]) s1))"

definition detail_nvidia :: "cuda_details \<Rightarrow> sysst \<Rightarrow> int \<times> sysst" where
  "detail_nvidia nv s =
     (if cuda_major nv \<le> 0 \<or> cuda_minor nv < 0 then (- 1, complain s)
      else (0, out ([CHR 0x0A, CHR 0x09] @ ''CUDA compute capabilities: '' @ dec_string (nat (cuda_major nv)) @ ''.'' @
                 dec_string (nat (cuda_minor nv)) @ [CHR 0x0A]) s))"

text \<open>
  The two loops over the caches and the TLBs of a type. A count beyond the array is read out of
  bounds, and so is the alternative of \<open>spec\<close> that the type does not have: \<open>None\<close>.
\<close>

fun detail_each ::
  "string \<Rightarrow> ('a \<Rightarrow> sysst \<Rightarrow> int \<times> sysst) \<Rightarrow> nat \<Rightarrow> nat \<Rightarrow> 'a list \<Rightarrow> sysst \<Rightarrow> (int \<times> sysst) option" where
  "detail_each label detail tot n [] s = (if n < tot then None else Some (0, s))"
| "detail_each label detail tot n (x # xs) s =
     (if n < tot then
        (case detail x (out ([CHR 0x09] @ label @ '' '' @ dec_string (n + 1) @ '' of '' @ dec_string tot @ '': '') s) of
           (r, s1) \<Rightarrow> if r \<noteq> 0 then Some (- 1, s1) else detail_each label detail tot (n + 1) xs s1)
      else Some (0, s))"

definition detail_spec :: "torque_cput \<Rightarrow> sysst \<Rightarrow> (int \<times> sysst) option" where
  "detail_spec pudesc s =
     (case (cpu_isa pudesc, cpu_spec pudesc) of
        (TORQUE_ISA_X86, Spec_x86 d) \<Rightarrow> Some (detail_x86 d s)
      | (TORQUE_ISA_NVIDIA, Spec_cuda d) \<Rightarrow> Some (detail_nvidia d s)
      | _ \<Rightarrow> None)"

definition threads_text :: "torque_cput \<Rightarrow> string" where
  "threads_text pudesc =
     (let tpc = cpu_threadspercore pudesc; cpp = cpu_coresperpackage pudesc;
          plural = (if cpp \<noteq> 1 then ''s'' else [])
      in if tpc = 1
         then [CHR 0x09] @ ''1 thread per processing core, '' @ dec_string (unat cpp) @ '' core'' @ plural @
           '' per package'' @ [CHR 0x0A]
         else [CHR 0x09] @ dec_string (unat tpc) @ '' threads per processing core, '' @ dec_string (unat cpp) @ '' core'' @
           plural @ '' ('' @ dec_string (unat (cpp - cpp div tpc)) @ '' logical) per package'' @ [CHR 0x0A])"

definition detail_processing_unit :: "formats \<Rightarrow> torque_cput \<Rightarrow> sysst \<Rightarrow> (int \<times> sysst) option" where
  "detail_processing_unit fm pudesc s =
     (case isa_type (cpu_isa pudesc) of
        None \<Rightarrow> Some (- 1, complain s)
      | Some isa \<Rightarrow>
          (case detail_spec pudesc (out isa s) of
             None \<Rightarrow> None
           | Some (r, s1) \<Rightarrow>
               if r \<noteq> 0 then Some (- 1, s1)
               else
                 (case cpu_strdescription pudesc of
                    None \<Rightarrow> Some (- 1, complain s1)
                  | Some descr \<Rightarrow>
                      let s2 = out ([CHR 0x09] @ ''Brand name: '' @ descr @ [CHR 0x0A]) s1 in
                      if cpu_threadspercore pudesc = 0 then Some (- 1, complain s2)
                      else
                        (case detail_each ''Cache'' (detail_memory fm) (cpu_memories pudesc) 0 (cpu_memdescs pudesc)
                                (out (threads_text pudesc) s2) of
                           None \<Rightarrow> None
                         | Some (r, s3) \<Rightarrow>
                             if r \<noteq> 0 then Some (- 1, s3)
                             else detail_each ''TLB'' (detail_tlb fm) (cpu_tlbs pudesc) 0 (cpu_tlbdescs pudesc) s3))))"

definition EXIT_SUCCESS :: int where [simp]: "EXIT_SUCCESS = 0"
definition EXIT_FAILURE :: int where [simp]: "EXIT_FAILURE = 1"

function processing_units_from :: "formats \<Rightarrow> torque_ctx \<Rightarrow> nat \<Rightarrow> nat \<Rightarrow> sysst \<Rightarrow> (int \<times> sysst) option" where
  "processing_units_from fm ctx cnt n s =
     (if n < cnt then
        (case ctx_getdesc ctx n of
           None \<Rightarrow> Some (EXIT_FAILURE, complain s)
         | Some pudesc \<Rightarrow>
             if cpu_elements pudesc = 0 then Some (- 1, complain s)
             else
               (case detail_processing_unit fm pudesc
                       (out (''('' @ pad_left (CHR '' '') 4 (dec_string (unat (cpu_elements pudesc))) @
                          ''x) Processing unit type '' @ dec_string (n + 1) @ '' of '' @ dec_string cnt @ '': '') s) of
                  None \<Rightarrow> None
                | Some (r, s1) \<Rightarrow>
                    if r \<noteq> 0 then Some (- 1, s1) else processing_units_from fm ctx cnt (n + 1) s1))
      else Some (0, s))"
  by pat_completeness auto
termination
  by (relation "measure (\<lambda>(fm, ctx, cnt, n, s). cnt - n)") auto

declare processing_units_from.simps [simp del]

definition detail_processing_units :: "formats \<Rightarrow> torque_ctx \<Rightarrow> nat \<Rightarrow> sysst \<Rightarrow> (int \<times> sysst) option" where
  "detail_processing_units fm ctx cpu_typecount s = processing_units_from fm ctx cpu_typecount 0 s"

section \<open>Memory nodes\<close>

fun detail_pagesizes :: "formats \<Rightarrow> nat \<Rightarrow> nat \<Rightarrow> u64 list \<Rightarrow> sysst \<Rightarrow> sysst option" where
  "detail_pagesizes fm tot z [] s = (if z < tot then None else Some s)"
| "detail_pagesizes fm tot z (v # vs) s =
     (if z < tot then
        let s1 = snd (fprintf_bunit fm ''B'' v s);
            s2 = (if z + 1 < tot then out (if z + 2 = tot then '' and '' else '', '') s1 else s1)
        in detail_pagesizes fm tot (z + 1) vs s2
      else Some s)"

function memory_nodes_from :: "formats \<Rightarrow> torque_ctx \<Rightarrow> nat \<Rightarrow> nat \<Rightarrow> sysst \<Rightarrow> (int \<times> sysst) option" where
  "memory_nodes_from fm ctx cnt n s =
     (if n < cnt then
        (case torque_node_getdesc ctx n of
           None \<Rightarrow> Some (EXIT_FAILURE, complain s)
         | Some mdesc \<Rightarrow>
             if node_psizes mdesc = 0 then Some (- 1, complain s)
             else
               let s1 = out (''('' @ pad_left (CHR '' '') 4 (dec_string (unat (node_count mdesc))) @ ''x) Memory node '' @
                          dec_string (n + 1) @ '' of '' @ dec_string cnt @ '':'' @ [CHR 0x0A, CHR 0x09]) s;
                   s2 = out '' total in '' (snd (fprintf_bunit fm ''B'' (node_size mdesc) s1))
               in case detail_pagesizes fm (node_psizes mdesc) 0 (node_psizevals mdesc) s2 of
                    None \<Rightarrow> None
                  | Some s3 \<Rightarrow> memory_nodes_from fm ctx cnt (n + 1) (out ('' pages'' @ [CHR 0x0A]) s3))
      else Some (0, s))"
  by pat_completeness auto
termination
  by (relation "measure (\<lambda>(fm, ctx, cnt, n, s). cnt - n)") auto

declare memory_nodes_from.simps [simp del]

definition detail_memory_nodes :: "formats \<Rightarrow> torque_ctx \<Rightarrow> nat \<Rightarrow> sysst \<Rightarrow> (int \<times> sysst) option" where
  "detail_memory_nodes fm ctx mem_nodecount s = memory_nodes_from fm ctx mem_nodecount 0 s"

section \<open>The topology\<close>

definition depth_terms :: "string list" where
  "depth_terms = [''Package'', ''Core'', ''Thread'']"

function print_tabs :: "nat \<Rightarrow> nat \<Rightarrow> int \<Rightarrow> sysst \<Rightarrow> int option \<times> sysst" where
  "print_tabs i depth r s =
     (case printf [CHR 0x09] s of
        (ret, s1) \<Rightarrow>
          if ret < 0 then (None, s1)
          else if i < depth then print_tabs (i + 1) depth (r + ret) s1
          else (Some (r + ret), s1))"
  by pat_completeness auto
termination
  by (relation "measure (\<lambda>(i, depth, r, s). depth - i)") auto

declare print_tabs.simps [simp del]

text \<open>
  The loop over the bits of a set: the members, the last of them (\<open>CPU_SETSIZE\<close> for none) and the
  characters printed, or \<open>None\<close> when \<open>printf\<close> failed. Only a leaf prints its members.
\<close>

function print_members ::
  "bool \<Rightarrow> nat set \<Rightarrow> nat \<Rightarrow> nat \<Rightarrow> nat \<Rightarrow> int \<Rightarrow> sysst \<Rightarrow> (nat \<times> nat \<times> int) option \<times> sysst" where
  "print_members leaf cs z tot lastset r s =
     (if z < CPU_SETSIZE then
        if z \<in> cs then
          if leaf then
            (case printf (pad_left (CHR '' '') 3 (dec_string z) @ '' '') s of
               (ret, s1) \<Rightarrow>
                 if ret < 0 then (None, s1) else print_members leaf cs (z + 1) (tot + 1) z (r + ret) s1)
          else print_members leaf cs (z + 1) (tot + 1) z r s
        else print_members leaf cs (z + 1) tot lastset r s
      else (Some (tot, lastset, r), s))"
  by pat_completeness auto
termination
  by (relation "measure (\<lambda>(leaf, cs, z, tot, lastset, r, s). CPU_SETSIZE - z)") auto

declare print_members.simps [simp del]

text \<open>
  The line of one zone. The result is negative when a call of \<open>printf\<close> failed or the set was empty, and
  otherwise the number of characters printed. A depth without a term passes a null or stray pointer to
  \<open>printf\<close>: \<open>None\<close>.
\<close>

definition print_line :: "nat set \<Rightarrow> u32 \<Rightarrow> nat \<Rightarrow> bool \<Rightarrow> nat \<Rightarrow> sysst \<Rightarrow> (int \<times> sysst) option" where
  "print_line sch gid desc leaf depth s =
     (case print_tabs 0 depth 0 s of
        (None, s1) \<Rightarrow> Some (- 1, s1)
      | (Some r1, s1) \<Rightarrow>
          if length depth_terms \<le> depth then None
          else
            (case printf (depth_terms ! depth @ '' '' @ dec_string (unat gid) @ '': '') s1 of
               (r2, s2) \<Rightarrow>
                 if r2 < 0 then Some (- 1, s2)
                 else
                   (case print_members leaf sch 0 0 CPU_SETSIZE 0 s2 of
                      (None, s3) \<Rightarrow> Some (- 1, s3)
                    | (Some (tot, lastset, r3), s3) \<Rightarrow>
                        if tot = 0 \<or> lastset = CPU_SETSIZE then Some (- 1, s3)
                        else
                          (case printf
                                 (if leaf
                                  then ''('' @ dec_string tot @ ''x processor type '' @ dec_string (desc + 1) @ '')'' @ [CHR 0x0A]
                                  else ''('' @ dec_string tot @ '' threads total)'' @ [CHR 0x0A]) s3 of
                             (r4, s4) \<Rightarrow> if r4 < 0 then Some (- 1, s4) else Some (r1 + r2 + r3 + r4, s4)))))"

fun print_cpuset :: "zone list \<Rightarrow> nat \<Rightarrow> sysst \<Rightarrow> (int \<times> sysst) option" where
  "print_cpuset [] depth s = Some (0, s)"
| "print_cpuset (Zone sch g d sb # zs) depth s =
     (case print_line sch g d (sb = []) depth s of
        None \<Rightarrow> None
      | Some (r1, s1) \<Rightarrow>
          if r1 < 0 then Some (- 1, s1)
          else
            (case print_cpuset sb (depth + 1) s1 of
               None \<Rightarrow> None
             | Some (r2, s2) \<Rightarrow>
                 if r2 < 0 then Some (- 1, s2)
                 else
                   (case print_cpuset zs depth s2 of
                      None \<Rightarrow> None
                    | Some (r3, s3) \<Rightarrow> if r3 < 0 then Some (- 1, s3) else Some (r1 + r2 + r3, s3))))"

definition print_topology :: "zone list \<Rightarrow> sysst \<Rightarrow> (int \<times> sysst) option" where
  "print_topology t s =
     (case print_cpuset t 0 s of
        None \<Rightarrow> None
      | Some (r, s1) \<Rightarrow> Some (if r < 0 then - 1 else 0, s1))"

section \<open>The program\<close>

text \<open>
  \<open>getopt_long\<close> answers with its result and, through \<open>rout\<close>, with what it stored in \<open>lflag\<close>; 104 and
  118 are the characters h and v. Each turn of the loop leaves it.
\<close>

datatype args = Args_ok | Args_bad | Args_exit int

definition archdetect_args :: "sysst \<Rightarrow> args \<times> sysst" where
  "archdetect_args s =
     (case sys_call (Sys_libc ''getopt_long'') s of
        (a, s1) \<Rightarrow>
          if rv a < 0 then (Args_ok, s1)
          else if rv a = 104 then (Args_exit EXIT_SUCCESS, complain s1)
          else if rv a = 0 \<and> rout a = 118 then (Args_exit EXIT_SUCCESS, complain s1)
          else (Args_bad, s1))"

definition archdetect_report :: "formats \<Rightarrow> torque_ctx \<Rightarrow> sysst \<Rightarrow> (int \<times> sysst) option" where
  "archdetect_report fm ctx s =
     (if torque_get_topology ctx = [] then Some (EXIT_FAILURE, complain s)
      else
        (case print_topology (torque_get_topology ctx) s of
           None \<Rightarrow> None
         | Some (r, s1) \<Rightarrow>
             if r \<noteq> 0 then Some (EXIT_FAILURE, s1)
             else if torque_mem_nodecount ctx = 0 then Some (EXIT_FAILURE, complain s1)
             else
               (case detail_memory_nodes fm ctx (torque_mem_nodecount ctx) s1 of
                  None \<Rightarrow> None
                | Some (r, s2) \<Rightarrow>
                    if r \<noteq> 0 then Some (EXIT_FAILURE, s2)
                    else if torque_cpu_typecount ctx = 0 then Some (EXIT_FAILURE, complain s2)
                    else
                      (case detail_processing_units fm ctx (torque_cpu_typecount ctx) s2 of
                         None \<Rightarrow> None
                       | Some (r, s3) \<Rightarrow>
                           Some (if r \<noteq> 0 then EXIT_FAILURE else EXIT_SUCCESS, s3)))))"

definition archdetect_done :: "int \<Rightarrow> torque_ctx option \<Rightarrow> sysst \<Rightarrow> (int \<times> sysst) option" where
  "archdetect_done ret octx s =
     (case torque_stop octx s of
        None \<Rightarrow> None
      | Some (e, s1) \<Rightarrow> if e \<noteq> 0 then Some (EXIT_FAILURE, complain s1) else Some (ret, s1))"

definition archdetect_main ::
  "formats \<Rightarrow> bool \<Rightarrow> (nat \<Rightarrow> cpuid_fn) \<Rightarrow> int \<Rightarrow> torque_ctx \<Rightarrow> sysst \<Rightarrow> (int \<times> sysst) option" where
  "archdetect_main fm avail cpuids CUDA_VERSION raw s =
     (case sys_alloc (Sys_libc ''setlocale'') s of
        (ok, s1) \<Rightarrow>
          if \<not> ok then archdetect_done EXIT_FAILURE None (complain s1)
          else
            (case archdetect_args s1 of
               (Args_exit c, s2) \<Rightarrow> Some (c, s2)
             | (Args_bad, s2) \<Rightarrow> archdetect_done EXIT_FAILURE None (complain s2)
             | (Args_ok, s2) \<Rightarrow>
                 (case torque_init avail cpuids CUDA_VERSION raw s2 of
                    None \<Rightarrow> None
                  | Some (e, None, s3) \<Rightarrow> archdetect_done EXIT_FAILURE None (complain s3)
                  | Some (e, Some ctx, s3) \<Rightarrow>
                      (case archdetect_report fm ctx s3 of
                         None \<Rightarrow> None
                       | Some (ret, s4) \<Rightarrow> archdetect_done ret (Some ctx) s4))))"

section \<open>Output\<close>

lemma printed_out [simp]: "printed (out t s) = printed s @ t"
  by (simp add: out_def printed_def sys_note_def)

lemma printed_complain [simp]: "printed (complain s) = printed s"
  by (simp add: complain_def printed_def sys_note_def)

text \<open>Dividing by 1024 while that is exact loses nothing, and eight units are enough for 64 bits.\<close>

lemma bunit_scale_exact:
  "bunit_scale v k = Some (v1, k1) \<Longrightarrow> k < length units \<Longrightarrow>
   k \<le> k1 \<and> k1 < length units \<and> v = v1 * 1024 ^ (k1 - k) \<and> (v1 < 1024 \<or> v1 mod 1024 \<noteq> 0)"
proof (induction v k rule: bunit_scale.induct)
  case (1 v k)
  show ?case
  proof (cases "1024 \<le> v \<and> v mod 1024 = 0")
    case True
    then have rec: "bunit_scale (v div 1024) (k + 1) = Some (v1, k1)" and k: "k + 1 < length units"
      using "1.prems"(1) by (simp_all add: bunit_scale.simps [of v k] split: if_splits)
    have "v = (v div 1024) * 1024" using True div_mult_mod_eq [of v 1024] by simp
    moreover have "k1 - k = Suc (k1 - (k + 1))" if "k + 1 \<le> k1" using that by simp
    ultimately show ?thesis using "1.IH" [OF True k rec k] by (metis add_leD1 mult.assoc power_Suc2)
  next
    case False
    then show ?thesis using "1.prems" by (simp add: bunit_scale.simps [of v k]) auto
  qed
qed

lemma bunit_scale_fits: "v < 1024 ^ (length units - k) \<Longrightarrow> bunit_scale v k \<noteq> None"
proof (induction v k rule: bunit_scale.induct)
  case (1 v k)
  show ?case
  proof (cases "1024 \<le> v \<and> v mod 1024 = 0")
    case True
    have "k + 1 < length units"
    proof (rule ccontr)
      assume "\<not> k + 1 < length units"
      then have "(1024 :: nat) ^ (length units - k) \<le> 1024 ^ 1" by (intro power_increasing) auto
      then show False using "1.prems" True by simp
    qed
    moreover have "v div 1024 < 1024 ^ (length units - (k + 1))"
      using "1.prems" calculation by (simp add: less_mult_imp_div_less Suc_diff_Suc flip: power_Suc2)
    ultimately show ?thesis using "1.IH" [OF True] True by (simp add: bunit_scale.simps [of v k])
  next
    case False
    then show ?thesis by (auto simp: bunit_scale.simps [of v k] simp del: not_None_eq)
  qed
qed

lemma bunit_ratio_bounds:
  "bunit_ratio v k = (v2, k2) \<Longrightarrow> k < k2 \<and> v2 = v div 1024 ^ (k2 - k - 1)"
proof (induction v k rule: bunit_ratio.induct)
  case (1 v k)
  show ?case
  proof (cases "k + 1 < length units \<and> 1000 \<le> v div 1024 \<and> v mod 1024 \<noteq> 0")
    case True
    then have "bunit_ratio (v div 1024) (k + 1) = (v2, k2)"
      using "1.prems" by (simp add: bunit_ratio.simps [of v k])
    then have "k + 1 < k2 \<and> v2 = v div 1024 div 1024 ^ (k2 - (k + 1) - 1)" using "1.IH" True by blast
    moreover have "k2 - k - 1 = Suc (k2 - (k + 1) - 1)" if "k + 1 < k2" using that by simp
    ultimately show ?thesis by (simp add: div_mult2_eq)
  next
    case False
    then show ?thesis using "1.prems" by (auto simp: bunit_ratio.simps [of v k])
  qed
qed

lemma bunit_scale_word: "\<exists>v1 k. bunit_scale (unat v div 1024) 0 = Some (v1, k)"
  for v :: u64
proof -
  have "unat v < 2 ^ 64" using unsigned_less [of v] by simp
  then have "unat v div 1024 < 1024 ^ (length units - 0)" by (simp add: units_def)
  then show ?thesis using bunit_scale_fits by fastforce
qed

text \<open>What a size prints: exactly the size, and perhaps a figure cut off below the next units.\<close>

definition bunit_text :: "formats \<Rightarrow> string \<Rightarrow> nat \<Rightarrow> string \<Rightarrow> bool" where
  "bunit_text fm suffix n t \<longleftrightarrow>
     t = dec_string n @ suffix \<or>
     (\<exists>v k. k < length units \<and> n = v * 1024 ^ (k + 1) \<and>
        (t = grouped fm v @ [units ! k] @ suffix \<or>
         (\<exists>j < length units. k < j \<and>
            t = grouped fm v @ [units ! k] @ suffix @ '' ('' @ ratio fm (v div 1024 ^ (j - k - 1)) @ '' '' @ [units ! j] @
              suffix @ '')'')))"

lemma bunit_text_exact:
  "k < length units \<Longrightarrow> n = v * 1024 ^ (k + 1) \<Longrightarrow> bunit_text fm suffix n (grouped fm v @ [units ! k] @ suffix)"
  unfolding bunit_text_def by blast

lemma bunit_text_cut:
  "k < j \<Longrightarrow> j < length units \<Longrightarrow> n = v * 1024 ^ (k + 1) \<Longrightarrow>
   bunit_text fm suffix n ((grouped fm v @ [units ! k] @ suffix) @ '' ('' @ ratio fm (v div 1024 ^ (j - k - 1)) @ '' '' @
     [units ! j] @ suffix @ '')'')"
  unfolding bunit_text_def append_assoc by (intro disjI2 exI [of _ v] exI [of _ k] exI [of _ j] conjI) auto

lemma fprintf_bunit_text:
  assumes "fprintf_bunit fm suffix v s = (r, s')"
  shows "\<exists>t. printed s' = printed s @ t \<and> bunit_text fm suffix (unat v) t"
proof (cases "unat v < 1024 \<or> unat v mod 1024 \<noteq> 0")
  case True
  then have "printf (dec_string (unat v) @ suffix) s = (r, s')"
    using assms by (simp add: fprintf_bunit_def Let_def)
  then show ?thesis by (auto simp: bunit_text_def dest!: printf_printed)
next
  case False
  obtain v1 k where sc: "bunit_scale (unat v div 1024) 0 = Some (v1, k)" using bunit_scale_word by blast
  have ex: "k < length units" "unat v div 1024 = v1 * 1024 ^ k"
    using bunit_scale_exact [OF sc] by (simp_all add: units_def)
  then have n: "unat v = v1 * 1024 ^ (k + 1)" using False by (auto elim!: dvdE)
  obtain r1 s1 where p: "printf (grouped fm v1 @ [units ! k] @ suffix) s = (r1, s1)" by fastforce
  obtain v2 k2 where q: "bunit_ratio v1 k = (v2, k2)" by fastforce
  show ?thesis
  proof (cases "0 \<le> r1 \<and> 1024 \<le> v1 \<and> v1 mod 1024 \<noteq> 0 \<and> k2 < length units")
    case True
    then have "printf ('' ('' @ ratio fm v2 @ '' '' @ [units ! k2] @ suffix @ '')'') s1 = (r, s')"
      using assms False sc p q by (simp add: fprintf_bunit_def Let_def)
    then have "printed s' = printed s @ (grouped fm v1 @ [units ! k] @ suffix) @
        '' ('' @ ratio fm v2 @ '' '' @ [units ! k2] @ suffix @ '')''"
      by (simp add: printf_printed [OF p] printf_printed)
    then show ?thesis using bunit_text_cut [of k k2 "unat v" v1 fm suffix] bunit_ratio_bounds [OF q] n True by blast
  next
    case False': False
    then have "s' = s1" using assms False sc p q by (auto simp: fprintf_bunit_def Let_def split: if_splits)
    then show ?thesis using printf_printed [OF p] bunit_text_exact [OF ex(1) n] by blast
  qed
qed

text \<open>The listing of a chain of zones, and the number of calls of \<open>printf\<close> that write it.\<close>

definition members_text :: "nat set \<Rightarrow> nat \<Rightarrow> string" where
  "members_text cs z = concat [pad_left (CHR '' '') 3 (dec_string a) @ '' ''. a \<leftarrow> [z..<CPU_SETSIZE], a \<in> cs]"

definition line_text :: "nat set \<Rightarrow> u32 \<Rightarrow> nat \<Rightarrow> bool \<Rightarrow> nat \<Rightarrow> string" where
  "line_text sch gid desc leaf depth =
     replicate (depth + 1) (CHR 0x09) @ depth_terms ! depth @ '' '' @ dec_string (unat gid) @ '': '' @
     (if leaf
      then members_text sch 0 @ ''('' @ dec_string (card sch) @ ''x processor type '' @ dec_string (desc + 1) @ '')''
      else ''('' @ dec_string (card sch) @ '' threads total)'') @ [CHR 0x0A]"

fun zone_text :: "nat \<Rightarrow> zone list \<Rightarrow> string" where
  "zone_text depth [] = []"
| "zone_text depth (Zone sch g d sb # zs) =
     line_text sch g d (sb = []) depth @ zone_text (depth + 1) sb @ zone_text depth zs"

definition line_prints :: "nat set \<Rightarrow> bool \<Rightarrow> nat \<Rightarrow> nat" where
  "line_prints sch leaf depth = depth + 3 + (if leaf then card sch else 0)"

fun zone_prints :: "nat \<Rightarrow> zone list \<Rightarrow> nat" where
  "zone_prints depth [] = 0"
| "zone_prints depth (Zone sch g d sb # zs) =
     line_prints sch (sb = []) depth + (zone_prints (depth + 1) sb + zone_prints depth zs)"

text \<open>Zones that can be listed: as deep as there are terms, each with processors that exist.\<close>

fun listable :: "nat \<Rightarrow> zone list \<Rightarrow> bool" where
  "listable depth [] \<longleftrightarrow> True"
| "listable depth (Zone sch g d sb # zs) \<longleftrightarrow>
     depth < length depth_terms \<and> sch \<noteq> {} \<and> sch \<subseteq> {..<CPU_SETSIZE} \<and> listable (depth + 1) sb \<and> listable depth zs"

text \<open>
  A run of printing calls: on success the text was written and no answer but nonnegative ones used;
  it succeeds when enough nonnegative answers are to come.
\<close>

definition prints :: "nat \<Rightarrow> string \<Rightarrow> bool \<Rightarrow> sysst \<Rightarrow> sysst \<Rightarrow> bool" where
  "prints n t ok s s' \<longleftrightarrow>
     (ok \<longrightarrow> printed s' = printed s @ t \<and> answers s' = drop n (answers s)) \<and>
     (n \<le> length (answers s) \<and> (\<forall>a\<in>set (take n (answers s)). 0 \<le> rv a) \<longrightarrow> ok)"

lemma prints_0: "prints 0 [] True s s"
  by (simp add: prints_def)

lemma prints_fail:
  "prints n t False s s' \<Longrightarrow> n \<le> m \<Longrightarrow> prints m u False s s''"
  by (auto simp: prints_def) (meson set_take_subset_set_take subsetD)

lemma prints_trans:
  assumes "prints n t True s s1" "prints m u ok s1 s2"
  shows "prints (n + m) (t @ u) ok s s2"
  using assms by (auto simp: prints_def take_add drop_drop add.commute [of m n])

lemma printf_prints: "printf t s = (r, s') \<Longrightarrow> prints 1 t (0 \<le> r) s s'"
  by (cases "answers s")
    (auto simp: prints_def printf_def sys_int_def sys_call_def failed_ret_def printed_def split: prod.splits)

lemma print_tabs_prints:
  "print_tabs i depth r s = (r', s') \<Longrightarrow> i \<le> depth \<Longrightarrow> 0 \<le> r \<Longrightarrow>
   prints (depth - i + 1) (replicate (depth - i + 1) (CHR 0x09)) (r' \<noteq> None) s s' \<and> (\<forall>n. r' = Some n \<longrightarrow> 0 \<le> n)"
proof (induction i depth r s rule: print_tabs.induct)
  case (1 i depth r s)
  obtain ret s1 where p: "printf [CHR 0x09] s = (ret, s1)" by fastforce
  note step = printf_prints [OF p]
  consider "ret < 0" | "0 \<le> ret" "i < depth" | "0 \<le> ret" "\<not> i < depth" by linarith
  then show ?case
  proof cases
    case 1
    then show ?thesis using step "1.prems" p by (auto simp: print_tabs.simps [of i depth r s] elim: prints_fail)
  next
    case 2
    then have rec: "print_tabs (i + 1) depth (r + ret) s1 = (r', s')"
      using "1.prems" p by (simp add: print_tabs.simps [of i depth r s])
    note IH = "1.IH" [OF p [symmetric] _ 2(2) rec]
    have d: "depth - i + 1 = 1 + (depth - (i + 1) + 1)" using 2 by simp
    show ?thesis unfolding d using IH 2 "1.prems" prints_trans [of 1 "[CHR 0x09]" s s1] step by simp
  next
    case 3
    then show ?thesis using step "1.prems" p by (auto simp: print_tabs.simps [of depth depth r s])
  qed
qed

lemma members_step:
  assumes "z < CPU_SETSIZE"
  shows "members_text cs z =
      (if z \<in> cs then pad_left (CHR '' '') 3 (dec_string z) @ '' '' else []) @ members_text cs (z + 1)"
    and "card (cs \<inter> {z..<CPU_SETSIZE}) = (if z \<in> cs then 1 else 0) + card (cs \<inter> {z + 1..<CPU_SETSIZE})"
proof -
  have i: "{z..<CPU_SETSIZE} = insert z {z + 1..<CPU_SETSIZE}" using assms by auto
  show "members_text cs z =
      (if z \<in> cs then pad_left (CHR '' '') 3 (dec_string z) @ '' '' else []) @ members_text cs (z + 1)"
    using assms by (simp add: members_text_def upt_conv_Cons del: CPU_SETSIZE_def)
  show "card (cs \<inter> {z..<CPU_SETSIZE}) = (if z \<in> cs then 1 else 0) + card (cs \<inter> {z + 1..<CPU_SETSIZE})"
    unfolding i by (simp add: Int_insert_right del: CPU_SETSIZE_def)
qed

lemma print_members_prints:
  "print_members leaf cs z tot lastset r s = (res, s') \<Longrightarrow> 0 \<le> r \<Longrightarrow> k = card (cs \<inter> {z..<CPU_SETSIZE}) \<Longrightarrow>
   prints (if leaf then k else 0) (if leaf then members_text cs z else []) (res \<noteq> None) s s' \<and>
   (\<forall>t l n. res = Some (t, l, n) \<longrightarrow> t = tot + k \<and> 0 \<le> n \<and> (if k = 0 then l = lastset else l < CPU_SETSIZE))"
proof (induction leaf cs z tot lastset r s arbitrary: k rule: print_members.induct)
  case (1 leaf cs z tot lastset r s)
  obtain ret s1 where p: "printf (pad_left (CHR '' '') 3 (dec_string z) @ '' '') s = (ret, s1)" by fastforce
  note u = print_members.simps [of leaf cs z tot lastset r s] and st = members_step [of z cs]
  consider (past) "\<not> z < CPU_SETSIZE" | (out) "z < CPU_SETSIZE" "z \<notin> cs"
    | (inner) "z < CPU_SETSIZE" "z \<in> cs" "\<not> leaf" | (fails) "z < CPU_SETSIZE" "z \<in> cs" leaf "ret < 0"
    | (leaf) "z < CPU_SETSIZE" "z \<in> cs" leaf "0 \<le> ret" by linarith
  then show ?case
  proof cases
    case past
    then show ?thesis using "1.prems" u by (auto simp: members_text_def prints_0)
  next
    case out
    then show ?thesis using "1.IH"(3) [OF out _ _ refl] "1.prems" u st by (auto simp del: CPU_SETSIZE_def card_eq_0_iff card_0_eq split: if_splits)
  next
    case inner
    then have rec: "print_members leaf cs (z + 1) (tot + 1) z r s = (res, s')"
      using "1.prems" u by (simp del: CPU_SETSIZE_def)
    show ?thesis using "1.IH"(2) [OF inner rec _ refl] "1.prems" st inner
      by (cases "card (cs \<inter> {z + 1..<CPU_SETSIZE}) = 0") (auto simp del: CPU_SETSIZE_def card_eq_0_iff card_0_eq)
  next
    case fails
    then show ?thesis using printf_prints [OF p] "1.prems" u st p
      by (auto simp del: CPU_SETSIZE_def elim!: prints_fail)
  next
    case leaf
    then have rec: "print_members leaf cs (z + 1) (tot + 1) z (r + ret) s1 = (res, s')"
      using "1.prems" u p by (auto simp del: CPU_SETSIZE_def)
    note IH = "1.IH"(1) [OF leaf(1-3) p [symmetric] _ rec _ refl]
    have IH1: "prints (card (cs \<inter> {z + 1..<CPU_SETSIZE})) (members_text cs (z + 1)) (res \<noteq> None) s1 s'"
      using IH leaf "1.prems" by (simp del: CPU_SETSIZE_def)
    have "prints 1 (pad_left (CHR '' '') 3 (dec_string z) @ '' '') True s s1" using printf_prints [OF p] leaf by simp
    note prints_trans [OF this IH1]
    then show ?thesis using IH leaf "1.prems" st
      by (cases "card (cs \<inter> {z + 1..<CPU_SETSIZE}) = 0")
        (auto simp del: CPU_SETSIZE_def card_eq_0_iff card_0_eq)
  qed
qed

text \<open>
  A result of printing: it is there, it is negative only when a call of \<open>printf\<close> failed, and otherwise the text was
  written.
\<close>

definition listed :: "nat \<Rightarrow> string \<Rightarrow> sysst \<Rightarrow> (int \<times> sysst) option \<Rightarrow> bool" where
  "listed n t s res \<longleftrightarrow> (\<exists>r s'. res = Some (r, s') \<and> prints n t (0 \<le> r) s s')"

lemma lists_fail: "prints q x False s s' \<Longrightarrow> q \<le> n \<Longrightarrow> listed n t s (Some (- 1, s'))"
  by (auto simp: listed_def intro: prints_fail)

lemma lists_bind:
  assumes "listed n t s a" and "\<And>r s1. 0 \<le> r \<Longrightarrow> a = Some (r, s1) \<Longrightarrow> listed m u s1 (b r s1)"
  shows "listed (n + m) (t @ u) s
    (case a of None \<Rightarrow> None | Some (r, s1) \<Rightarrow> if r < 0 then Some (- 1, s1) else b r s1)"
proof -
  obtain r s1 where a: "a = Some (r, s1)" "prints n t (0 \<le> r) s s1" using assms(1) by (auto simp: listed_def)
  show ?thesis
  proof (cases "0 \<le> r")
    case True
    then obtain r2 s2 where "b r s1 = Some (r2, s2)" "prints m u (0 \<le> r2) s1 s2"
      using assms(2) a(1) by (auto simp: listed_def)
    then show ?thesis using True a prints_trans [of n t s s1 m u] by (auto simp: listed_def)
  next
    case False
    then show ?thesis using a by (auto intro: lists_fail)
  qed
qed

lemma lists_more: "listed n t s (Some (r, s')) \<Longrightarrow> 0 \<le> r \<Longrightarrow> 0 \<le> c \<Longrightarrow> listed n t s (Some (c, s'))"
  by (simp add: listed_def)

lemma lists_printf: "printf t s = (r, s') \<Longrightarrow> listed 1 t s (Some (r, s'))"
  using printf_prints [of t s r s'] by (simp add: listed_def)

lemma lists_last:
  assumes "listed n t s a" "0 \<le> c"
  shows "listed n t s (case a of None \<Rightarrow> None | Some (r, s1) \<Rightarrow> if r < 0 then Some (- 1, s1) else Some (c + r, s1))"
  using lists_bind [OF assms(1), of 0 "[]" "\<lambda>r s1. Some (c + r, s1)"] assms(2) by (auto simp: listed_def prints_0)

lemma print_line_lists:
  assumes "sch \<noteq> {}" "sch \<subseteq> {..<CPU_SETSIZE}" "depth < length depth_terms"
  shows "listed (line_prints sch leaf depth) (line_text sch g d leaf depth) s (print_line sch g d leaf depth s)"
proof -
  have sch: "sch \<inter> {0..<CPU_SETSIZE} = sch" "card sch \<noteq> 0" and dp: "\<not> length depth_terms \<le> depth"
    using assms finite_subset [of sch "{..<CPU_SETSIZE}"] by (auto simp: lessThan_atLeast0)
  define h where "h = depth_terms ! depth @ '' '' @ dec_string (unat g) @ '': ''"
  define m where "m = (if leaf then members_text sch 0 else [])"
  define k where "k = (if leaf then card sch else 0)"
  define e where "e c = (if leaf
    then ''('' @ dec_string c @ ''x processor type '' @ dec_string (d + 1) @ '')'' @ [CHR 0x0A]
    else ''('' @ dec_string c @ '' threads total)'' @ [CHR 0x0A])" for c
  have n: "line_prints sch leaf depth = depth + 1 + (1 + (k + 1))" by (simp add: line_prints_def k_def)
  have t: "line_text sch g d leaf depth = replicate (depth + 1) (CHR 0x09) @ h @ m @ e (card sch)"
    by (simp add: line_text_def h_def m_def e_def)
  obtain r1 s1 where c1: "print_tabs 0 depth 0 s = (r1, s1)" by fastforce
  obtain r2 s2 where c2: "printf h s1 = (r2, s2)" by fastforce
  obtain r3 s3 where c3: "print_members leaf sch 0 0 CPU_SETSIZE 0 s2 = (r3, s3)" by fastforce
  obtain r4 s4 where c4: "printf (e (card sch)) s3 = (r4, s4)" by fastforce
  define a1 where "a1 = (case r1 of None \<Rightarrow> - 1 | Some r \<Rightarrow> r)"
  define a3 where "a3 = (case r3 of None \<Rightarrow> - 1 | Some (t, l, r) \<Rightarrow> r)"
  note p1 = print_tabs_prints [OF c1 le0 order.refl, simplified diff_zero]
  note p3 = print_members_prints [OF c3 order.refl, unfolded sch(1), OF refl, folded k_def m_def]
  have l1: "listed (depth + 1) (replicate (depth + 1) (CHR 0x09)) s (Some (a1, s1))"
    using p1 by (auto simp: listed_def a1_def split: option.split)
  have l3: "listed k m s2 (Some (a3, s3))"
    using p3 by (auto simp: listed_def a3_def split: option.split)
  have "print_line sch g d leaf depth s =
      (case Some (a1, s1) of None \<Rightarrow> None | Some (r, s) \<Rightarrow> if r < 0 then Some (- 1, s) else
      (case Some (r2, s2) of None \<Rightarrow> None | Some (r, s) \<Rightarrow> if r < 0 then Some (- 1, s) else
      (case Some (a3, s3) of None \<Rightarrow> None | Some (r, s) \<Rightarrow> if r < 0 then Some (- 1, s) else
      (case Some (r4, s4) of None \<Rightarrow> None | Some (r, s) \<Rightarrow> if r < 0 then Some (- 1, s) else Some (a1 + r2 + a3 + r, s)))))"
    using p1 p3 sch(2) dp c1 c2 c3 c4
    by (auto simp: print_line_def [of sch g d leaf depth s, folded h_def e_def] a1_def a3_def split: option.split)
  moreover have "listed (depth + 1 + (1 + (k + 1))) (replicate (depth + 1) (CHR 0x09) @ h @ m @ e (card sch)) s \<dots>"
    by (intro lists_bind lists_last lists_printf l1) (auto simp: c2 c4 l3)
  ultimately show ?thesis by (simp only: n t)
qed

lemma print_cpuset_lists:
  "listable depth zs \<Longrightarrow> listed (zone_prints depth zs) (zone_text depth zs) s (print_cpuset zs depth s)"
proof (induction depth zs arbitrary: s rule: listable.induct)
  case (1 depth)
  then show ?case by (simp add: listed_def prints_0)
next
  case (2 depth sch g d sb zs)
  show ?case unfolding print_cpuset.simps zone_text.simps zone_prints.simps
    using "2.prems" by (intro lists_bind lists_last print_line_lists "2.IH") auto
qed

section \<open>A detected machine\<close>

lemma listable_all:
  "listable depth zs \<longleftrightarrow> (\<forall>z\<in>set zs. depth < length depth_terms \<and> schedulable z \<noteq> {} \<and>
     schedulable z \<subseteq> {..<CPU_SETSIZE} \<and> listable (depth + 1) (sub z))"
  by (induction depth zs rule: listable.induct) auto

lemma topo_rep_listable:
  assumes "topo_rep zs pm" "dom pm \<subseteq> {..<CPU_SETSIZE}"
  shows "listable 0 zs"
proof -
  have core: "listable (Suc 0) ys" if "\<forall>y\<in>set ys. core_ok pm p y" for p ys
    unfolding listable_all [of "Suc 0"] using that assms(2) by (fastforce simp: core_ok_def depth_terms_def)
  have "package_ok pm z \<Longrightarrow> schedulable z \<noteq> {} \<and> schedulable z \<subseteq> {..<CPU_SETSIZE} \<and> listable (Suc 0) (sub z)" for z
    using assms(2) by (auto simp: package_ok_def simp del: CPU_SETSIZE_def split: if_splits intro: core)
  then show ?thesis unfolding listable_all [of 0] using assms(1) by (auto simp: topo_rep_def depth_terms_def)
qed

lemma detail_each_total:
  "tot \<le> n + length xs \<Longrightarrow> \<exists>r s'. detail_each label detail tot n xs s = Some (r, s')"
  by (induction label detail tot n xs s rule: detail_each.induct) (auto split: prod.split)

lemma detail_spec_total: "tagged (cpu_isa d) (cpu_spec d) \<Longrightarrow> \<exists>r s'. detail_spec d s = Some (r, s')"
  by (cases "cpu_isa d"; cases "cpu_spec d") (auto simp: detail_spec_def)

lemma detail_processing_unit_total:
  assumes "cput_wf d" "tagged (cpu_isa d) (cpu_spec d)"
  shows "\<exists>r s'. detail_processing_unit fm d s = Some (r, s')"
proof -
  have c: "cpu_memories d \<le> 0 + length (cpu_memdescs d)" "cpu_tlbs d \<le> 0 + length (cpu_tlbdescs d)"
    using assms(1) by (simp_all add: cput_wf_def)
  obtain isa where i: "isa_type (cpu_isa d) = Some isa" by (cases "cpu_isa d") auto
  obtain r s1 where s1: "detail_spec d (out isa s) = Some (r, s1)" using detail_spec_total [OF assms(2)] by blast
  have t: "\<exists>r s'. detail_each ''TLB'' (detail_tlb fm) (cpu_tlbs d) 0 (cpu_tlbdescs d) u = Some (r, s')" for u
    by (rule detail_each_total [OF c(2)])
  have m: "\<exists>r s'. detail_each ''Cache'' (detail_memory fm) (cpu_memories d) 0 (cpu_memdescs d) u = Some (r, s')" for u
    by (rule detail_each_total [OF c(1)])
  have "\<exists>r s'. (case detail_each ''Cache'' (detail_memory fm) (cpu_memories d) 0 (cpu_memdescs d) u of
      None \<Rightarrow> None | Some (r, s3) \<Rightarrow> if r \<noteq> 0 then Some (- 1, s3)
      else detail_each ''TLB'' (detail_tlb fm) (cpu_tlbs d) 0 (cpu_tlbdescs d) s3) = Some (r, s')" for u
    using m [of u] t by auto
  then show ?thesis using i s1 by (auto simp: detail_processing_unit_def Let_def split: option.split)
qed

text \<open>Every part of the report only adds to the output.\<close>

definition extends :: "sysst \<Rightarrow> sysst \<Rightarrow> bool" where
  "extends s s' \<longleftrightarrow> (\<exists>t. printed s' = printed s @ t)"

lemma extends_refl [simp]: "extends s s"
  by (simp add: extends_def)

lemma extends_trans [trans]: "extends a b \<Longrightarrow> extends b c \<Longrightarrow> extends a c"
  by (auto simp: extends_def)

lemma extends_out [simp]: "extends s a \<Longrightarrow> extends s (out t a)" "extends s a \<Longrightarrow> extends s (complain a)"
  by (auto simp: extends_def)

lemma extends_outD: "extends (out t a) b \<Longrightarrow> extends a b"
  by (auto simp: extends_def)

lemma fprintf_bunit_extends: "fprintf_bunit fm suffix v s = (r, s') \<Longrightarrow> extends s s'"
  by (auto simp: extends_def dest: fprintf_bunit_text)

lemma detail_memory_extends: "extends s (snd (detail_memory fm m s))"
  by (auto simp: detail_memory_def split: option.split prod.split dest!: fprintf_bunit_extends extends_outD
      intro: extends_trans)

lemma detail_tlb_extends: "extends s (snd (detail_tlb fm m s))"
  by (auto simp: detail_tlb_def split: option.split prod.split dest!: fprintf_bunit_extends extends_outD
      intro: extends_trans)

lemma print_extensions_extends: "extends s a \<Longrightarrow> extends s (print_extensions es fs a)"
  by (induction es fs a rule: print_extensions.induct) simp_all

lemma detail_spec_extends: "detail_spec d s = Some (r, s') \<Longrightarrow> extends s s'"
  by (auto simp: detail_spec_def detail_x86_def detail_nvidia_def Let_def
      split: torque_isat.splits cpu_spec.splits option.splits if_splits intro!: extends_out print_extensions_extends)

lemma detail_each_extends:
  "(\<And>x s. extends s (snd (detail x s))) \<Longrightarrow> detail_each label detail tot n xs s = Some (r, s') \<Longrightarrow> extends s s'"
proof (induction label detail tot n xs s rule: detail_each.induct)
  case (1 label detail tot n s)
  then show ?case by (simp split: if_splits)
next
  case (2 label detail tot n x xs s)
  let ?s0 = "out ([CHR 0x09] @ label @ '' '' @ dec_string (n + 1) @ '' of '' @ dec_string tot @ '': '') s"
  obtain q s1 where d: "detail x ?s0 = (q, s1)" by fastforce
  have "extends ?s0 s1" using "2.prems"(1) [of ?s0 x] d by simp
  then have "extends s s1" by (rule extends_outD)
  moreover have "extends s1 s'" if "n < tot" using "2.prems" "2.IH" [OF that] d that by (auto split: if_splits)
  ultimately show ?case using "2.prems"(2) by (auto split: if_splits intro: extends_trans)
qed

lemma detail_processing_unit_extends:
  assumes "detail_processing_unit fm d s = Some (r, s')"
  shows "extends s s'"
proof -
  note e = detail_each_extends [OF detail_memory_extends] detail_each_extends [OF detail_tlb_extends]
  show ?thesis using assms
    by (auto simp: detail_processing_unit_def Let_def split: option.splits if_splits prod.splits
        dest!: detail_spec_extends e extends_outD intro: extends_trans)
qed

lemma processing_units_ok:
  assumes "ctx_types_wf ctx" "types_tagged ctx" "cnt \<le> ctx_cpu_typecount ctx"
  shows "\<exists>r s'. processing_units_from fm ctx cnt n s = Some (r, s') \<and> extends s s'"
proof (induction "cnt - n" arbitrary: n s)
  case 0
  then show ?case by (auto simp: processing_units_from.simps [of fm ctx cnt n])
next
  case (Suc k)
  then have n: "n < cnt" by simp
  let ?d = "ctx_cpudescs ctx ! n"
  have d: "ctx_getdesc ctx n = Some ?d" "cput_wf ?d" "tagged (cpu_isa ?d) (cpu_spec ?d)"
    using n assms by (auto simp: ctx_getdesc_def torque_cpu_getdesc_def ctx_types_wf_def types_tagged_def)
  let ?s0 = "out (''('' @ pad_left (CHR '' '') 4 (dec_string (unat (cpu_elements ?d))) @
    ''x) Processing unit type '' @ dec_string (n + 1) @ '' of '' @ dec_string cnt @ '': '') s"
  obtain r1 s1 where u: "detail_processing_unit fm ?d ?s0 = Some (r1, s1)"
    using detail_processing_unit_total [OF d(2,3)] by blast
  have e: "extends s s1" using detail_processing_unit_extends [OF u] by (rule extends_outD)
  obtain r2 s2 where "processing_units_from fm ctx cnt (n + 1) s1 = Some (r2, s2)" "extends s1 s2"
    using Suc.hyps(1) [of "n + 1" s1] Suc.hyps(2) by fastforce
  then show ?case using n d(1) u e extends_trans [OF e]
    by (auto simp: processing_units_from.simps [of fm ctx cnt n])
qed

lemma detail_pagesizes_ok:
  "tot \<le> z + length vs \<Longrightarrow> \<exists>s'. detail_pagesizes fm tot z vs s = Some s' \<and> extends s s'"
proof (induction fm tot z vs s rule: detail_pagesizes.induct)
  case (1 fm tot z s)
  then show ?case by simp
next
  case (2 fm tot z v vs s)
  let ?s1 = "snd (fprintf_bunit fm ''B'' v s)"
  let ?s2 = "if z + 1 < tot then out (if z + 2 = tot then '' and '' else '', '') ?s1 else ?s1"
  have "extends s ?s1" by (rule fprintf_bunit_extends) (rule prod.collapse [symmetric])
  then have e: "extends s ?s2" by simp
  show ?case
  proof (cases "z < tot")
    case True
    then obtain s' where "detail_pagesizes fm tot (z + 1) vs ?s2 = Some s'" "extends ?s2 s'"
      using "2.IH" [OF True refl refl] "2.prems" by auto
    then show ?thesis using True extends_trans [OF e] by (simp add: Let_def)
  next
    case False
    then show ?thesis by simp
  qed
qed

lemma memory_nodes_ok:
  assumes "ctx_nodecount ctx = 1" "ctx_manodes ctx = [nd]" "node_psizes nd = length (node_psizevals nd)"
  shows "\<exists>r s'. detail_memory_nodes fm ctx 1 s = Some (r, s') \<and> extends s s'"
proof -
  have g: "torque_node_getdesc ctx 0 = Some nd" using assms by (simp add: torque_node_getdesc_def)
  let ?s1 = "out (''('' @ pad_left (CHR '' '') 4 (dec_string (unat (node_count nd))) @ ''x) Memory node '' @
    dec_string (0 + 1) @ '' of '' @ dec_string 1 @ '':'' @ [CHR 0x0A, CHR 0x09]) s"
  let ?s2 = "out '' total in '' (snd (fprintf_bunit fm ''B'' (node_size nd) ?s1))"
  have "extends ?s1 (snd (fprintf_bunit fm ''B'' (node_size nd) ?s1))"
    by (rule fprintf_bunit_extends) (rule prod.collapse [symmetric])
  then have e: "extends s ?s2" by (intro extends_out) (rule extends_outD)
  obtain s3 where s3: "detail_pagesizes fm (node_psizes nd) 0 (node_psizevals nd) ?s2 = Some s3" "extends ?s2 s3"
    using detail_pagesizes_ok [of "node_psizes nd" 0 "node_psizevals nd"] assms(3) by auto
  have "extends s s3" using e s3(2) by (rule extends_trans)
  then show ?thesis using g s3(1)
    by (auto simp: detail_memory_nodes_def memory_nodes_from.simps [of fm ctx "Suc 0" 0]
        memory_nodes_from.simps [of fm ctx "Suc 0" "Suc 0"] Let_def)
qed

lemma fprintf_bunit_fails:
  assumes "fprintf_bunit fm suffix v s = (r, s')" "r < 0"
  shows "length (answers s) < 2 \<or> (\<exists>a\<in>set (answers s). rv a < 0)"
proof -
  have p: "answers t = [] \<or> rv (hd (answers t)) < 0" if "printf x t = (q, t')" "q < 0" for x t q t'
    using printf_prints [OF that(1)] that(2) by (cases "answers t") (auto simp: prints_def)
  have h: ?thesis if "answers s = [] \<or> rv (hd (answers s)) < 0" using that by (cases "answers s") auto
  show ?thesis
  proof (cases "unat v < 1024 \<or> unat v mod 1024 \<noteq> 0")
    case True
    then show ?thesis using assms by (intro h p) (simp_all add: fprintf_bunit_def Let_def)
  next
    case False
    obtain v1 k where sc: "bunit_scale (unat v div 1024) 0 = Some (v1, k)" using bunit_scale_word by blast
    obtain r1 s1 where p1: "printf (grouped fm v1 @ [units ! k] @ suffix) s = (r1, s1)" by fastforce
    obtain v2 k2 where q: "bunit_ratio v1 k = (v2, k2)" by fastforce
    have "r1 < 0 \<or> printf ('' ('' @ ratio fm v2 @ '' '' @ [units ! k2] @ suffix @ '')'') s1 = (r, s')"
      using assms False sc p1 q by (auto simp: fprintf_bunit_def Let_def split: if_splits)
    moreover have "answers s1 = tl (answers s)"
      using p1 by (auto simp: printf_def sys_int_def split: prod.splits dest!: sys_call_answers(1))
    ultimately show ?thesis using h p [OF p1] p [of _ s1 r s'] assms(2)
      by (cases "answers s"; cases "tl (answers s)") auto
  qed
qed

text \<open>What the code that prints finds in a context that \<open>torque_init\<close> returned.\<close>

lemma torque_init_hardware:
  assumes "torque_init avail cpuids ver raw s = Some (e, Some ctx, s')"
  shows "\<exists>pm nd. topo_rep (ctx_sched_zone ctx) pm \<and> dom pm \<subseteq> {..<CPU_SETSIZE} \<and> ctx_sched_zone ctx \<noteq> [] \<and>
    ctx_types_wf ctx \<and> types_tagged ctx \<and> ctx_cpu_typecount ctx \<noteq> 0 \<and>
    ctx_nodecount ctx = 1 \<and> ctx_manodes ctx = [nd] \<and> node_psizes nd = length (node_psizevals nd)"
proof -
  obtain s2 s3 e0 ctx0 s4 where c: "create_torque_ctx raw s2 = Some (e0, Some ctx0, s3)"
    and d: "detect_architecture avail cpuids ver ctx0 s3 = Some (0, ctx, s4)"
    using torque_init_cases [OF assms] by blast
  have h: "hw_empty ctx0" using create_torque_ctx_ok [OF c] by simp
  then have z: "ctx_sched_zone ctx0 = []" by (simp add: hw_empty_def)
  obtain pm where pm: "affinity_mask s3 \<noteq> {}" "topo_rep (ctx_sched_zone ctx) pm" "dom pm = affinity_mask s3"
    and ty: "types_ok ctx" and look: "\<forall>aid\<in>affinity_mask s3. \<exists>d. d \<in> set (ctx_cpudescs ctx)"
    using detect_architecture_lookup [OF d z] by blast
  have "dom pm \<subseteq> {..<CPU_SETSIZE}" using pm(3) by (auto simp: affinity_mask_def split: prod.splits)
  moreover have "ctx_sched_zone ctx \<noteq> []" using pm by (fastforce simp: topo_rep_def)
  moreover have "ctx_cpu_typecount ctx \<noteq> 0" using look pm(1) ty by (fastforce simp: types_ok_def ctx_types_wf_def)
  ultimately show ?thesis
    using pm(2) ty detect_architecture_tagged [OF d] detect_architecture_nodes [OF d h] unfolding types_ok_def by blast
qed

section \<open>Properties\<close>

text \<open>
  Fact: sizes are printed without loss. What \<open>fprintf_bunit\<close> writes is the number itself, or a multiple of a
  power of 1024 that equals it exactly, followed at most by a figure of it cut off below a larger unit. The
  units never run out: it fails only when a call of \<open>printf\<close> fails.
\<close>

theorem bunit_exact:
  assumes "fprintf_bunit fm suffix v s = (r, s')"
  shows "(\<exists>t. printed s' = printed s @ t \<and> bunit_text fm suffix (unat v) t) \<and>
    (r < 0 \<longrightarrow> length (answers s) < 2 \<or> (\<exists>a\<in>set (answers s). rv a < 0))"
  using fprintf_bunit_text [OF assms] fprintf_bunit_fails [OF assms] by blast

definition sample_formats :: formats where
  "sample_formats = \<lparr>grouped = dec_string, ratio = \<lambda>v. dec_string (v * 1000 div 1024)\<rparr>"

theorem bunit_exact_witness:
  "\<exists>t. printed (snd (fprintf_bunit sample_formats ''B'' 1572864 (os_answering [ok_ret, ok_ret]))) = t \<and>
     bunit_text sample_formats ''B'' 1572864 t"
proof -
  obtain r s' where run: "fprintf_bunit sample_formats ''B'' 1572864 (os_answering [ok_ret, ok_ret]) = (r, s')" by fastforce
  show ?thesis using bunit_exact [OF run] run by (simp add: os_answering_def printed_def)
qed

text \<open>
  Property C27: the listing of a detected topology. The recursion never gets deeper than the terms for
  its levels, so \<open>print_topology\<close> returns; success means that the whole tree was written, every package with
  its cores and every leaf with its processors; and it succeeds whenever the output does.
\<close>

theorem topology_listed:
  assumes "topo_rep zs pm" "dom pm \<subseteq> {..<CPU_SETSIZE}"
  shows "\<exists>r s'. print_topology zs s = Some (r, s') \<and> r \<in> {0, - 1} \<and>
    (r = 0 \<longrightarrow> printed s' = printed s @ zone_text 0 zs) \<and>
    (zone_prints 0 zs \<le> length (answers s) \<and> (\<forall>a\<in>set (answers s). 0 \<le> rv a) \<longrightarrow> r = 0)"
proof -
  obtain r s' where "print_cpuset zs 0 s = Some (r, s')" "prints (zone_prints 0 zs) (zone_text 0 zs) (0 \<le> r) s s'"
    using print_cpuset_lists [OF topo_rep_listable [OF assms], of s] by (auto simp: listed_def)
  then show ?thesis by (auto simp: print_topology_def prints_def dest: in_set_takeD)
qed

definition sample_pair :: "zone list" where
  "sample_pair = [Zone {0, 1} 0 0 [Zone {0} 0 0 [], Zone {1} 1 0 []]]"

definition sample_pair_at :: placement where
  "sample_pair_at = [0 \<mapsto> (0, 0), 1 \<mapsto> (0, 1)]"

theorem topology_listed_witness:
  "\<exists>r s'. print_topology sample_pair (os_answering (replicate 13 ok_ret)) = Some (r, s') \<and> r = 0 \<and>
     printed s' = zone_text 0 sample_pair"
proof -
  have "topo_rep sample_pair sample_pair_at"
    by (auto simp: topo_rep_def sample_pair_def sample_pair_at_def groups_ordered_def package_ok_def core_ok_def)
  moreover have "dom sample_pair_at \<subseteq> {..<CPU_SETSIZE}" by (auto simp: sample_pair_at_def split: if_splits)
  moreover have "zone_prints 0 sample_pair = 13" by (simp add: sample_pair_def line_prints_def)
  ultimately show ?thesis using topology_listed [of sample_pair sample_pair_at "os_answering (replicate 13 ok_ret)"]
    by (auto simp: os_answering_def ok_ret_def printed_def)
qed

text \<open>
  Property C26: the program on a machine that \<open>torque_init\<close> detected. The report comes to an end without reading past an
  array, a missing description or the wrong alternative of a processor's details; none of the tests for a
  missing topology, memory node or processor type applies; and exit status 0 means that the topology was
  listed first, and in full.
\<close>

theorem archdetect_reports:
  assumes "torque_init avail cpuids ver raw s0 = Some (e, Some ctx, s)"
  shows "torque_get_topology ctx \<noteq> [] \<and> torque_mem_nodecount ctx = 1 \<and> torque_cpu_typecount ctx \<noteq> 0 \<and>
    (\<exists>ret s'. archdetect_report fm ctx s = Some (ret, s') \<and> ret \<in> {EXIT_SUCCESS, EXIT_FAILURE} \<and>
      (ret = EXIT_SUCCESS \<longrightarrow> (\<exists>t. printed s' = printed s @ zone_text 0 (torque_get_topology ctx) @ t)))"
proof -
  obtain pm nd where hw: "topo_rep (ctx_sched_zone ctx) pm" "dom pm \<subseteq> {..<CPU_SETSIZE}" "ctx_sched_zone ctx \<noteq> []"
    "ctx_types_wf ctx" "types_tagged ctx" "ctx_cpu_typecount ctx \<noteq> 0" "ctx_nodecount ctx = 1"
    and nd: "ctx_manodes ctx = [nd]" "node_psizes nd = length (node_psizevals nd)"
    using torque_init_hardware [OF assms] by blast
  obtain q t where pc: "print_cpuset (ctx_sched_zone ctx) 0 s = Some (q, t)"
    and pt: "0 \<le> q \<Longrightarrow> printed t = printed s @ zone_text 0 (ctx_sched_zone ctx)"
    using print_cpuset_lists [OF topo_rep_listable [OF hw(1,2)], of s] by (auto simp: listed_def prints_def)
  obtain r2 s2 where n: "detail_memory_nodes fm ctx 1 t = Some (r2, s2)" "extends t s2"
    using memory_nodes_ok [OF hw(7) nd] by blast
  obtain r3 s3 where u: "detail_processing_units fm ctx (ctx_cpu_typecount ctx) s2 = Some (r3, s3)" "extends s2 s3"
    using processing_units_ok [OF hw(4,5) order.refl] unfolding detail_processing_units_def by blast
  have "extends t s3" using n(2) u(2) by (rule extends_trans)
  then have full: "\<exists>x. printed s3 = printed s @ zone_text 0 (ctx_sched_zone ctx) @ x" if "0 \<le> q"
    using pt [OF that] by (auto simp: extends_def)
  have "\<exists>ret s'. archdetect_report fm ctx s = Some (ret, s') \<and> ret \<in> {EXIT_SUCCESS, EXIT_FAILURE} \<and>
      (ret = EXIT_SUCCESS \<longrightarrow> (\<exists>x. printed s' = printed s @ zone_text 0 (torque_get_topology ctx) @ x))"
    using hw(3,6,7) n(1) u(1) pc full
    by (auto simp: archdetect_report_def print_topology_def torque_get_topology_def torque_mem_nodecount_def
        torque_cpu_typecount_def)
  then show ?thesis
    using hw(3,6,7) by (simp add: torque_get_topology_def torque_mem_nodecount_def torque_cpu_typecount_def)
qed

theorem archdetect_reports_witness:
  "\<exists>ctx s. torque_init True (\<lambda>_. sample_intel) 2020 zero_ctx (os_answering sample_start) = Some (0, Some ctx, s) \<and>
     torque_cpu_typecount ctx \<noteq> 0 \<and> archdetect_report sample_formats ctx s \<noteq> None"
proof -
  obtain ctx s where run: "torque_init True (\<lambda>_. sample_intel) 2020 zero_ctx (os_answering sample_start) =
      Some (0, Some ctx, s)" using sample_start_run by blast
  from archdetect_reports [OF run, of sample_formats] run show ?thesis by auto
qed

text \<open>
  Fact: the exit status. The program exits with 0 only when it was asked for help or its version, or when the library
  was initialised, the report was complete and \<open>torque_stop\<close> released that same context without an
  error.
\<close>

theorem archdetect_exit_status:
  assumes "archdetect_main fm avail cpuids ver raw s = Some (EXIT_SUCCESS, s')"
    and "sys_alloc (Sys_libc ''setlocale'') s = (ok, s1)"
  shows "ok \<and> (case archdetect_args s1 of
      (Args_exit c, s2) \<Rightarrow> s' = s2
    | (Args_bad, s2) \<Rightarrow> False
    | (Args_ok, s2) \<Rightarrow>
        \<exists>e ctx s3 s4. torque_init avail cpuids ver raw s2 = Some (e, Some ctx, s3) \<and>
          archdetect_report fm ctx s3 = Some (EXIT_SUCCESS, s4) \<and> torque_stop (Some ctx) s4 = Some (0, s'))"
  using assms
  by (auto simp: archdetect_main_def archdetect_done_def split: prod.splits if_splits option.splits args.splits)

theorem archdetect_exit_status_witness:
  "\<exists>s1 s'. archdetect_main sample_formats True (\<lambda>_. sample_intel) 2020 zero_ctx
       (os_answering [ok_ret, ok_ret\<lparr>rv := 104\<rparr>]) = Some (EXIT_SUCCESS, s') \<and>
     sys_alloc (Sys_libc ''setlocale'') (os_answering [ok_ret, ok_ret\<lparr>rv := 104\<rparr>]) = (True, s1) \<and>
     archdetect_args s1 = (Args_exit EXIT_SUCCESS, s')"
proof -
  obtain s1 s' where run: "archdetect_main sample_formats True (\<lambda>_. sample_intel) 2020 zero_ctx
      (os_answering [ok_ret, ok_ret\<lparr>rv := 104\<rparr>]) = Some (EXIT_SUCCESS, s')"
    and a: "sys_alloc (Sys_libc ''setlocale'') (os_answering [ok_ret, ok_ret\<lparr>rv := 104\<rparr>]) = (True, s1)"
    and c: "fst (archdetect_args s1) = Args_exit EXIT_SUCCESS"
    by (auto simp: archdetect_main_def archdetect_args_def io_simps)
  from archdetect_exit_status [OF run a] c have "archdetect_args s1 = (Args_exit EXIT_SUCCESS, s')"
    by (cases "archdetect_args s1") simp
  then show ?thesis using run a by blast
qed

end
