(* ===== verification/Echoserver.thy ===== *)
theory Echoserver
  imports Archdetect Dispatch
begin

text \<open>
  The echo server of \<^verbatim>\<open>src/tools/testing/echoserver.c\<close>, the client of the library's buffered descriptors: its callback, its
  listener, and its program. The callback meets the contract \<open>rx_client\<close> of the buffered read callback, which gives what the program is for:
  the bytes sent back are the bytes received.
\<close>

section \<open>The callback\<close>

definition int_string :: "int \<Rightarrow> string" where
  "int_string n = (if n < 0 then CHR ''-'' # dec_string (nat (- n)) else dec_string (nat n))"

text \<open>The prefix \<open>[%4d]\<close> of the messages.\<close>

definition fd_prefix :: "int \<Rightarrow> string" where
  "fd_prefix fd = (let t = int_string fd in ''['' @ replicate (4 - length t) CHR '' '' @ t @ '']'')"

text \<open>The write loop: how many bytes were written, and whether the loop ended without an error.\<close>

function echo_write_loop :: "int \<Rightarrow> u8 list \<Rightarrow> nat \<Rightarrow> sysst \<Rightarrow> nat \<times> bool \<times> sysst" where
  "echo_write_loop fd buf w s =
     (if w < length buf then
        (case sys_write fd (drop w buf) s of
           (r, s1) \<Rightarrow>
             if r < 0 then
               if errno s1 = EAGAIN then (w, True, s1)
               else if errno s1 \<noteq> EINTR then (w, False, complain s1)
               else echo_write_loop fd buf w s1
             else echo_write_loop fd buf (w + nat r) s1)
      else (w, True, s))"
  by pat_completeness auto
termination
  by (relation "measure (\<lambda>(fd, buf, w, s). length (answers s))")
    (auto dest!: sys_write_step [OF sym])

declare echo_write_loop.simps [simp del]

definition echo_server :: rx_callback where
  "echo_server fd rxb s =
     (case rxbuffer_valid rxb of
        (len, buf) \<Rightarrow>
          if len = 0 then (- 1, rxb, sys_note (Sys_close fd) (out (fd_prefix fd @ '' closed'' @ [CHR 0x0A]) s))
          else
            (case echo_write_loop fd buf 0 (out (fd_prefix fd @ '' Read '' @ dec_string len @ ''b'' @ [CHR 0x0A]) s) of
               (w, ok, s1) \<Rightarrow>
                 if ok then
                   (0, rxbuffer_advance w rxb,
                    out (''wrote '' @ dec_string w @ ''/'' @ dec_string len @ [CHR 0x0A]) s1)
                 else (- 1, rxb, sys_note (Sys_close fd) s1)))"

section \<open>What the callback sends\<close>

lemma complain_calls: "calls (complain s) = calls s @ [Sys_write 2 0]" "answers (complain s) = answers s"
  by (simp_all add: complain_def sys_note_def)

lemma out_calls: "calls (out t s) = calls s @ [Sys_printf t]" "answers (out t s) = answers s"
  by (simp_all add: out_def sys_note_def)

text \<open>The loop sends the bytes from where it starts to where it ends, and changes nothing about the descriptor.\<close>

lemma echo_write_sends:
  assumes "echo_write_loop fd buf w s = (w', ok, s')" "w \<le> length buf"
  shows "w \<le> w' \<and> w' \<le> length buf \<and> client_step fd True s s' \<and>
    sent fd (calls s') = sent fd (calls s) @ take (w' - w) (drop w buf)"
  using assms
proof (induction fd buf w s rule: echo_write_loop.induct)
  case (1 fd buf w s)
  show ?case
  proof (cases "w < length buf")
    case False
    then have "w' = w \<and> s' = s" using "1.prems"(1) by (subst (asm) echo_write_loop.simps) simp
    then show ?thesis using "1.prems"(2) by (simp add: client_step_refl)
  next
    case True
    obtain r s1 where wr: "sys_write fd (drop w buf) s = (r, s1)" by fastforce
    then obtain n where n: "n \<le> length buf - w" "calls s1 = calls s @ [Sys_send fd (take n (drop w buf))]"
      "if r < 0 then n = 0 \<and> r = - 1 else r = int n" "length (answers s1) \<le> length (answers s)"
      using sys_write_step [OF wr] by auto
    have st: "client_step fd True s s1" using n by (simp add: client_step_def touches_def)
    show ?thesis
    proof (cases "r < 0 \<and> errno s1 \<noteq> EINTR")
      case True
      then have "w' = w \<and> (s' = s1 \<or> s' = complain s1)"
        using "1.prems"(1) wr \<open>w < length buf\<close> by (auto simp: echo_write_loop.simps [of fd buf w s] split: if_splits)
      moreover have "client_step fd True s (complain s1)"
        using n by (simp add: client_step_def complain_calls touches_def)
      ultimately show ?thesis using True n st "1.prems"(2) by (auto simp: complain_calls)
    next
      case False
      have le: "w + n \<le> length buf" using n(1) \<open>w < length buf\<close> by simp
      have go: "echo_write_loop fd buf (w + n) s1 = (w', ok, s')"
        using "1.prems"(1) wr \<open>w < length buf\<close> n(3) False
        by (auto simp: echo_write_loop.simps [of fd buf w s] split: if_splits)
      have "w + n \<le> w' \<and> w' \<le> length buf \<and> client_step fd True s1 s' \<and>
          sent fd (calls s') = sent fd (calls s1) @ take (w' - (w + n)) (drop (w + n) buf)"
      proof (cases "r < 0")
        case True
        then show ?thesis using "1.IH"(1) [OF \<open>w < length buf\<close> wr [symmetric]] go n False "1.prems"(2) by auto
      next
        case False
        then show ?thesis using "1.IH"(2) [OF \<open>w < length buf\<close> wr [symmetric]] go n le by auto
      qed
      moreover have "take n (drop w buf) @ take (w' - (w + n)) (drop (w + n) buf) = take (w' - w) (drop w buf)"
        if "w + n \<le> w'" using that take_add [of n "w' - (w + n)" "drop w buf"] by (simp add: add.commute)
      ultimately show ?thesis using n st client_step_trans by auto
    qed
  qed
qed

text \<open>
  The contract: all bytes sent so far and the valid bytes of the buffer are together the bytes received; when the callback gives up on
  the connection, what was sent is a prefix of what was received.
\<close>

definition echoed :: "u8 list \<Rightarrow> int \<Rightarrow> u8 list \<Rightarrow> torque_rxbuf \<Rightarrow> sysst \<Rightarrow> bool" where
  "echoed c fd got rxb s \<longleftrightarrow> rxbuf_inv rxb \<and> sent fd (calls s) @ rxbuf_content rxb = c @ got"

definition echo_ended :: "u8 list \<Rightarrow> int \<Rightarrow> u8 list \<Rightarrow> torque_rxbuf \<Rightarrow> sysst \<Rightarrow> bool" where
  "echo_ended c fd got rxb s \<longleftrightarrow> (\<exists>rest. sent fd (calls s) @ rest = c @ got)"

lemma echo_server_keeps:
  assumes "echoed c fd got rxb s" "echo_server fd rxb s = (r, rxb', s')"
  shows "(if r = 0 then echoed c fd got rxb' s' else echo_ended c fd got rxb' s') \<and> client_step fd (r = 0) s s'"
proof (cases "fst (rxbuffer_valid rxb) = 0")
  case True
  then show ?thesis using assms
    by (auto simp: echo_server_def echo_ended_def echoed_def client_step_def sys_note_def out_calls split: prod.splits)
next
  case False
  let ?buf = "rxbuf_content rxb"
  let ?s0 = "out (fd_prefix fd @ '' Read '' @ dec_string (fst (rxbuffer_valid rxb)) @ ''b'' @ [CHR 0x0A]) s"
  obtain w ok s1 where l: "echo_write_loop fd ?buf 0 ?s0 = (w, ok, s1)" by (cases rule: prod_cases3)
  have w: "w \<le> length ?buf" and st: "client_step fd True ?s0 s1" and snt: "sent fd (calls s1) = sent fd (calls s) @ take w ?buf"
    using echo_write_sends [OF l] by (simp_all add: out_calls)
  have res: "(r, rxb', s') = (if ok then (0, rxbuffer_advance w rxb,
       out (''wrote '' @ dec_string w @ ''/'' @ dec_string (fst (rxbuffer_valid rxb)) @ [CHR 0x0A]) s1)
      else (- 1, rxb, sys_note (Sys_close fd) s1))"
    using assms(2) False l by (cases "rxbuffer_valid rxb") (auto simp: echo_server_def rxbuf_content_def)
  have "client_step fd True s s1"
    using st by (rule client_step_trans [rotated]) (simp add: client_step_def out_calls touches_def)
  moreover have "rxbuf_inv (rxbuffer_advance w rxb) \<and> rxbuf_content (rxbuffer_advance w rxb) = drop w ?buf"
    using rxq.release_law [of rxb w] w assms(1) by (simp add: echoed_def)
  moreover have "sent fd (calls s1) @ drop w ?buf = c @ got" using snt assms(1) by (simp add: echoed_def)
  ultimately show ?thesis using res assms(1)
    by (cases ok) (auto simp: echoed_def echo_ended_def client_step_def out_calls sys_note_def touches_def)
qed

interpretation echo_rx: rx_client echo_server "echoed c" "echo_ended c" for c
proof
  fix fd got rxb s and d :: "u8 list"
  assume "echoed c fd got rxb s" "length d \<le> rxbuf_room rxb"
  then show "echoed c fd (got @ d) (rx_fill d rxb) s"
    using rxq.fill_law [of rxb d] by (auto simp: echoed_def)
next
  fix fd got rxb s s'
  assume "echoed c fd got rxb s" "silent s s'"
  then show "echoed c fd got rxb s'" by (auto simp: echoed_def silent_def sent_nothing)
next
  fix fd got rxb s r rxb' s'
  assume "echoed c fd got rxb s" "echo_server fd rxb s = (r, rxb', s')"
  then show "(if r = 0 then echoed c fd got rxb' s' else echo_ended c fd got rxb' s') \<and> client_step fd (r = 0) s s'"
    by (rule echo_server_keeps)
qed (use rxq.grow_law in \<open>auto simp: echoed_def\<close>)

section \<open>A connection\<close>

text \<open>
  The life of a connection: a report of the descriptor runs \<open>buffered_rxfxn\<close> with this callback, as long as it is armed for reading again. The
  result is how it ended, the bytes received in all, the buffer and the system.
\<close>

fun echo_session :: "nat \<Rightarrow> int \<Rightarrow> torque_rxbuf \<Rightarrow> sysst \<Rightarrow> (rx_exit \<times> u8 list \<times> torque_rxbuf \<times> sysst) option" where
  "echo_session 0 fd rxb s = Some (RX_rearmed EVREAD, [], rxb, s)"
| "echo_session (Suc n) fd rxb s =
     (case buffered_rxfxn echo_server fd rxb s of
        None \<Rightarrow> None
      | Some (x, got, rxb1, s1) \<Rightarrow>
          if x \<noteq> RX_rearmed EVREAD then Some (x, got, rxb1, s1)
          else (case echo_session n fd rxb1 s1 of
                  None \<Rightarrow> None
                | Some (x', got', rxb2, s2) \<Rightarrow> Some (x', got @ got', rxb2, s2)))"

lemma echo_session_keeps:
  "echoed c fd got rxb s \<Longrightarrow> \<exists>x d rxb' s'. echo_session n fd rxb s = Some (x, d, rxb', s') \<and>
     (if x = RX_client then echo_ended c fd (got @ d) rxb' s' else echoed c fd (got @ d) rxb' s')"
proof (induction n arbitrary: got rxb s)
  case 0
  then show ?case by simp
next
  case (Suc n)
  obtain x d rxb1 s1 where b: "buffered_rxfxn echo_server fd rxb s = Some (x, d, rxb1, s1)"
    and l: "echo_rx.left_with c x fd (got @ d) rxb1 s1"
    using echo_rx.loop_returns [OF Suc.prems] unfolding buffered_rxfxn_def by blast
  show ?case
  proof (cases "x = RX_rearmed EVREAD")
    case True
    then have "echoed c fd (got @ d) rxb1 s1" using l by simp
    from Suc.IH [OF this] show ?thesis using b True by fastforce
  next
    case False
    then show ?thesis using b l by (auto simp: echo_rx.left_with_def split: if_splits)
  qed
qed

section \<open>The listener\<close>

definition echo_server_fn :: nat where "echo_server_fn = 0"

text \<open>One accepted connection: made nonblocking and registered, or closed.\<close>

definition conn_one :: "torque_ctx \<Rightarrow> int \<Rightarrow> rxcb_heap \<Rightarrow> sysst \<Rightarrow> (torque_ctx \<times> rxcb_heap \<times> sysst) option" where
  "conn_one ctx sd h s =
     (let closed = (\<lambda>t. sys_note (Sys_close sd) t) in
      case sys_int (Sys_fcntl sd) (out (''Got new connection on sd '' @ int_string sd @ [CHR 0x0A]) s) of
        (flags, s1) \<Rightarrow>
          if flags < 0 then Some (ctx, h, closed s1)
          else
            (case sys_int (Sys_fcntl sd) s1 of
               (r, s2) \<Rightarrow>
                 if r \<noteq> 0 then Some (ctx, h, closed s2)
                 else
                   (case torque_addfd ctx sd (Some echo_server_fn) None 0 h s2 of
                      None \<Rightarrow> None
                    | Some (e, ctx', h', s3) \<Rightarrow>
                        Some (ctx', h', if e \<noteq> 0 then closed (complain s3) else s3))))"

text \<open>\<open>strerror\<close> is the text of an error, from libc.\<close>

partial_function (option) conn_handler ::
  "(nat \<Rightarrow> string) \<Rightarrow> torque_ctx \<Rightarrow> int \<Rightarrow> rxcb_heap \<Rightarrow> sysst \<Rightarrow> (torque_ctx \<times> rxcb_heap \<times> sysst) option" where
  "conn_handler strerror ctx fd h s =
     (case sys_int (Sys_accept fd) s of
        (sd, s1) \<Rightarrow>
          if sd \<ge> 0 then Option.bind (conn_one ctx sd h s1) (\<lambda>(ctx', h', s2). conn_handler strerror ctx' fd h' s2)
          else if errno s1 = EINTR then conn_handler strerror ctx fd h s1
          else
            Some (ctx, h,
              if errno s1 \<noteq> EAGAIN
              then out (''Accept() callback errno '' @ dec_string (errno s1) @ '' ('' @ strerror (errno s1) @ '')'' @ [CHR 0x0A]) s1
              else s1))"

declare conn_handler.simps [code]

definition make_echo_fd :: "sysst \<Rightarrow> int \<times> sysst" where
  "make_echo_fd s =
     (case sys_int (Sys_libc ''socket'') s of
        (sd, s1) \<Rightarrow>
          let failed = (\<lambda>t. (- 1, sys_note (Sys_close sd) t)) in
          if sd < 0 then (- 1, s1)
          else
            (case sys_int (Sys_libc ''setsockopt'') s1 of (r, s2) \<Rightarrow>
             if r \<noteq> 0 then failed s2
             else
            (case sys_int (Sys_libc ''bind'') s2 of (r, s3) \<Rightarrow>
             if r \<noteq> 0 then failed s3
             else
            (case sys_int (Sys_libc ''listen'') s3 of (r, s4) \<Rightarrow>
             if r \<noteq> 0 then failed s4
             else
            (case sys_int (Sys_fcntl sd) s4 of (flags, s5) \<Rightarrow>
             if flags < 0 then failed s5
             else
            (case sys_int (Sys_fcntl sd) s5 of (r, s6) \<Rightarrow>
             if r \<noteq> 0 then failed s6 else (sd, s6)))))))"

section \<open>The program\<close>

text \<open>
  An answer of \<open>getopt_long\<close>, with the number that \<open>atoi\<close> makes of the argument of \<open>-p\<close> or the flag of a long option in \<open>rout\<close>;
  104, 112 and 118 are the characters h, p and v. The port is kept at 16 bits.
\<close>

definition DEFAULT_PORT :: "16 word" where "DEFAULT_PORT = 4007"

definition echo_option :: "sysret \<Rightarrow> 16 word \<Rightarrow> sysst \<Rightarrow> args option \<times> 16 word \<times> sysst" where
  "echo_option a port s =
     (if rv a = 112 then
        if rout a > 0xffff \<or> rout a = 0 then (Some Args_bad, port, complain s)
        else if port \<noteq> 0 then (Some Args_bad, port, complain (complain s))
        else (None, of_int (rout a), s)
      else if rv a = 104 then (Some (Args_exit EXIT_SUCCESS), port, complain s)
      else if rv a = 0 \<and> rout a = 118 then (Some (Args_exit EXIT_SUCCESS), port, complain s)
      else (Some Args_bad, port, complain s))"

function echo_args :: "16 word \<Rightarrow> sysst \<Rightarrow> args \<times> 16 word \<times> sysst" where
  "echo_args port s =
     (case sys_call (Sys_libc ''getopt_long'') s of
        (a, s1) \<Rightarrow>
          if rv a < 0 then (Args_ok, port, s1)
          else
            (case echo_option a port s1 of
               (Some r, port1, s2) \<Rightarrow> (r, port1, s2)
             | (None, port1, s2) \<Rightarrow> echo_args port1 s2))"
  by pat_completeness auto
termination
  by (relation "measure (\<lambda>(port, s). length (answers s))")
    (auto simp: sys_call_def failed_ret_def echo_option_def split: list.splits if_splits)

declare echo_args.simps [simp del]

definition conn_handler_fn :: nat where "conn_handler_fn = 1"

text \<open>The error exit: stop the library and close the listener.\<close>

definition echo_err :: "torque_ctx option \<Rightarrow> int \<Rightarrow> sysst \<Rightarrow> (int \<times> sysst) option" where
  "echo_err octx sd s =
     (case torque_stop octx s of
        None \<Rightarrow> None
      | Some (e, s1) \<Rightarrow>
          if e \<noteq> 0 then Some (EXIT_FAILURE, complain s1)
          else if sd \<ge> 0 then
            (case sys_int (Sys_close sd) s1 of
               (r, s2) \<Rightarrow> Some (EXIT_FAILURE, if r \<noteq> 0 then complain s2 else s2))
          else Some (EXIT_FAILURE, s1))"

text \<open>\<open>strsignal\<close> is the text of a signal, from libc.\<close>

definition echo_serve :: "(int \<Rightarrow> string) \<Rightarrow> 16 word \<Rightarrow> torque_ctx \<Rightarrow> sysst \<Rightarrow> (int \<times> sysst) option" where
  "echo_serve strsignal port ctx s =
     (case make_echo_fd s of
        (sd, s1) \<Rightarrow>
          if sd < 0 then echo_err (Some ctx) sd (complain s1)
          else
            (case torque_addfd_concurrent ctx sd (Some (Cb_user conn_handler_fn)) None Ptr_ctx
                    (out (''Registering server sd '' @ int_string sd @ '', port '' @ dec_string (unat port) @ [CHR 0x0A]) s1) of
               None \<Rightarrow> None
             | Some (e, ctx1, s2) \<Rightarrow>
                 if e \<noteq> 0 then echo_err (Some ctx1) sd (complain s2)
                 else
                   (case sys_call (Sys_libc ''sigwait'') (out (''Waiting on termination signal...'' @ [CHR 0x0A]) s2) of
                      (a, s3) \<Rightarrow>
                        if rv a \<noteq> 0 then echo_err (Some ctx1) sd (complain s3)
                        else
                          (case torque_stop (Some ctx1)
                                  (out (''Got signal '' @ int_string (rout a) @ '' ('' @ strsignal (rout a) @ ''), closing down...'' @ [CHR 0x0A]) s3) of
                             None \<Rightarrow> None
                           | Some (e, s4) \<Rightarrow>
                               if e \<noteq> 0 then Some (EXIT_FAILURE, complain s4)
                               else Some (EXIT_SUCCESS, out (''Successfully cleaned up.'' @ [CHR 0x0A]) s4)))))"

definition echo_main ::
  "(int \<Rightarrow> string) \<Rightarrow> bool \<Rightarrow> (nat \<Rightarrow> cpuid_fn) \<Rightarrow> int \<Rightarrow> torque_ctx \<Rightarrow> sysst \<Rightarrow> (int \<times> sysst) option" where
  "echo_main strsignal avail cpuids CUDA_VERSION raw s =
     (case echo_args 0 s of
        (Args_exit c, port, s1) \<Rightarrow> Some (c, s1)
      | (Args_bad, port, s1) \<Rightarrow> Some (EXIT_FAILURE, s1)
      | (Args_ok, port, s1) \<Rightarrow>
          (case torque_sigmask s1 of
             (e, os, s2) \<Rightarrow>
               if e \<noteq> 0 then Some (EXIT_FAILURE, complain s2)
               else
                 (case torque_init avail cpuids CUDA_VERSION raw s2 of
                    None \<Rightarrow> None
                  | Some (e, None, s3) \<Rightarrow> echo_err None (- 1) (complain s3)
                  | Some (e, Some ctx, s3) \<Rightarrow> echo_serve strsignal (if port \<noteq> 0 then port else DEFAULT_PORT) ctx s3)))"

section \<open>Accepted connections\<close>

text \<open>What becomes of an accepted descriptor: registered with the echo callback and its buffer empty, or closed once.\<close>

definition conn_served :: "int \<Rightarrow> torque_ctx \<Rightarrow> rxcb_heap \<Rightarrow> bool" where
  "conn_served sd ctx h \<longleftrightarrow>
     (\<exists>p rxb. fd_entry ctx (nat sd) = Some (Some Cb_buffered_rxfxn, None, Ptr_obj p) \<and>
        h p = Some \<lparr>cb_rxbuf = rxb, cb_rx = Some echo_server_fn, cb_tx = None, cb_cbstate = 0\<rparr> \<and>
        rxbuf_inv rxb \<and> rxbuf_content rxb = [])"

lemma conn_one_outcome:
  assumes "tables_wf ctx" "0 \<le> sd"
  shows "\<exists>ctx' h' s'. conn_one ctx sd h s = Some (ctx', h', s') \<and> tables_wf ctx' \<and>
    length (answers s') \<le> length (answers s) \<and>
    (conn_served sd ctx' h' \<and> closes sd s' = closes sd s \<or> closes sd s' = closes sd s + 1)"
proof -
  let ?s0 = "out (''Got new connection on sd '' @ int_string sd @ [CHR 0x0A]) s"
  have q0: "sys_quiet sd s ?s0" unfolding out_def by (rule sys_quiet_note) simp
  obtain fl s1 where f1: "sys_int (Sys_fcntl sd) ?s0 = (fl, s1)" by fastforce
  obtain r s2 where f2: "sys_int (Sys_fcntl sd) s1 = (r, s2)" by fastforce
  have q1: "sys_quiet sd s s1" by (rule sys_quiet_trans [OF q0 sys_quiet_int [OF f1]]) simp
  have q2: "sys_quiet sd s s2" by (rule sys_quiet_trans [OF q1 sys_quiet_int [OF f2]]) simp
  obtain e ctx' h' s3 where a: "torque_addfd ctx sd (Some echo_server_fn) None 0 h s2 = Some (e, ctx', h', s3)"
    and wf: "tables_wf ctx'" and ok: "e = 0 \<Longrightarrow> conn_served sd ctx' h'"
    using torque_addfd_cases [OF assms, of "Some echo_server_fn" None 0 h s2]
    by (fastforce simp: conn_served_def)
  have q3: "sys_quiet sd s s3" by (rule sys_quiet_trans [OF q2 sys_quiet_torque_addfd [OF a]])
  have shut: "closes sd (sys_note (Sys_close sd) t) = closes sd s + 1 \<and>
      length (answers (sys_note (Sys_close sd) t)) \<le> length (answers s)" if "sys_quiet sd s t" for t
    using that sys_quiet_answers(1) [OF that] by (simp add: closes_note sys_quiet_def) (simp add: sys_note_def)
  have q4: "sys_quiet sd s (complain s3)" using q3 by (simp add: complain_def sys_quiet_after_note)
  show ?thesis using f1 f2 a wf ok assms(1) shut [OF q1] shut [OF q2] shut [OF q4] q3 sys_quiet_answers(1) [OF q3]
    by (auto simp: conn_one_def Let_def sys_quiet_def)
qed

lemma sys_accept_answers: "sys_int c s = (r, s') \<Longrightarrow> 0 \<le> r \<or> errno s' = EINTR \<Longrightarrow> length (answers s') < length (answers s)"
  by (auto simp: sys_int_def sys_call_def failed_ret_def split: list.splits)

lemma conn_handler_returns:
  "tables_wf ctx \<Longrightarrow> \<exists>ctx' h' s'. conn_handler strerror ctx fd h s = Some (ctx', h', s') \<and> tables_wf ctx' \<and> errno s' \<noteq> EINTR"
proof (induction "length (answers s)" arbitrary: ctx h s rule: less_induct)
  case less
  obtain sd s1 where ac: "sys_int (Sys_accept fd) s = (sd, s1)" by fastforce
  show ?case
  proof (cases "0 \<le> sd")
    case True
    obtain ctx1 h1 s2 where o: "conn_one ctx sd h s1 = Some (ctx1, h1, s2)" "tables_wf ctx1"
      "length (answers s2) \<le> length (answers s1)"
      using conn_one_outcome [OF less.prems True, of h s1] by blast
    then have "length (answers s2) < length (answers s)" using sys_accept_answers [OF ac] True by simp
    from less.hyps [OF this o(2), of h1] show ?thesis using ac True o(1) by (subst conn_handler.simps) simp
  next
    case False
    then show ?thesis using less.hyps [OF sys_accept_answers [OF ac] less.prems] less.prems ac
      by (subst conn_handler.simps) (auto simp: out_def sys_note_def)
  qed
qed

section \<open>Properties\<close>

text \<open>
  Property C15: the echo server echoes. Over any number of reports of a connection and whatever the system answers (short reads and
  writes, interruptions, full buffers, errors), every callback returns; as long as the callback has not given the connection up, the
  bytes it has sent back followed by those still in its buffer are the bytes received, in order; when it gives up, what it has sent is a prefix
  of them.
\<close>

theorem echo_echoes:
  assumes "rxbuf_inv rxb" "rxbuf_content rxb = []"
  shows "\<exists>x got rxb' s'. echo_session n fd rxb (os_answering as) = Some (x, got, rxb', s') \<and>
    (if x = RX_client then \<exists>rest. sent fd (calls s') @ rest = got
     else rxbuf_inv rxb' \<and> sent fd (calls s') @ rxbuf_content rxb' = got)"
proof -
  have "echoed [] fd [] rxb (os_answering as)" using assms by (simp add: echoed_def os_answering_def)
  from echo_session_keeps [OF this, of n] show ?thesis unfolding echoed_def echo_ended_def append_Nil .
qed

text \<open>Three bytes arrive in two reads; a write takes one of them, the next the others; the connection is armed again.\<close>

definition sample_echo :: "sysret list" where
  "sample_echo = [zero_ret\<lparr>rdata := [1, 2]\<rparr>, zero_ret\<lparr>rdata := [3]\<rparr>, failed_ret\<lparr>rerr := 11\<rparr>,
     zero_ret\<lparr>rv := 1\<rparr>, zero_ret\<lparr>rv := 2\<rparr>, zero_ret]"

theorem echo_echoes_witness:
  "\<exists>x got rxb' s'. echo_session 1 3 sample_rxbuf (os_answering sample_echo) = Some (x, got, rxb', s') \<and>
     (if x = RX_client then \<exists>rest. sent 3 (calls s') @ rest = got
      else rxbuf_inv rxb' \<and> sent 3 (calls s') @ rxbuf_content rxb' = got)"
  by (rule echo_echoes) (simp_all add: rxbuf_inv_def rxbuf_content_def rxbuffer_valid_def sample_rxbuf_def)

lemmas echo_eval = buffered_rxfxn_def buffered_rx_loop.simps rx_make_room_def sample_rxbuf_def io_simps sys_read_def
  rx_fill_def store_bytes_def rxback_def echo_server_def rxbuffer_valid_def out_def echo_write_loop.simps sys_write_def
  rxbuffer_advance_def rx_rearm_def restorefd_def

text \<open>
  Fact: the run of the witness in full: the three bytes come back, and the descriptor is armed for reading.
\<close>

theorem sample_echo_run:
  "map_option (\<lambda>(x, got, rxb', s'). (x, got, rxbuf_content rxb', sent 3 (calls s')))
     (echo_session 1 3 sample_rxbuf (os_answering sample_echo)) = Some (RX_rearmed EVREAD, [1, 2, 3], [], [1, 2, 3])"
  by (simp add: sample_echo_def echo_eval rxbuf_content_def)

text \<open>
  Fact: the listener serves or closes every connection it accepts, and ends: with the tables of a context in order, each accepted
  descriptor is registered with an empty buffer, or closed once; and \<open>conn_handler\<close> returns.
\<close>

theorem listener_serves:
  assumes "tables_wf ctx" "0 \<le> sd"
  shows "(\<exists>ctx' h' s'. conn_one ctx sd h s = Some (ctx', h', s') \<and> tables_wf ctx' \<and>
      (conn_served sd ctx' h' \<and> closes sd s' = closes sd s \<or> closes sd s' = closes sd s + 1)) \<and>
    (\<exists>ctx' h' s'. conn_handler strerror ctx fd h s = Some (ctx', h', s') \<and> tables_wf ctx')"
  using conn_one_outcome [OF assms, of h s] conn_handler_returns [OF assms(1), of strerror fd h s] by blast

theorem listener_serves_witness:
  "\<exists>ctx' h' s'. conn_handler (\<lambda>_. []) sample_table 3 Map.empty (os_answering [zero_ret, failed_ret, failed_ret]) = Some (ctx', h', s') \<and>
     tables_wf ctx'"
  using listener_serves [of sample_table 0] by (simp add: tables_wf_def sample_table_def)

text \<open>
  Fact: a peer that sends and then closes its side is never closed by the server. The last callback finds bytes to echo and returns 0, so the
  library arms the descriptor for writing, for which there is no callback (see \<open>unhandled_event_loses\<close>); the descriptor is neither closed nor
  reported again.
\<close>

theorem half_close_not_closed:
  "map_option (\<lambda>(x, got, rxb', s'). (x, sent 3 (calls s'), closes 3 s'))
     (buffered_rxfxn echo_server 3 sample_rxbuf
       (os_answering [zero_ret\<lparr>rdata := [1, 2]\<rparr>, zero_ret, zero_ret\<lparr>rv := 2\<rparr>, zero_ret])) =
   Some (RX_rearmed EVWRITE, [1, 2], 0)"
  by (simp add: echo_eval closes_def)

text \<open>
  Fact: making the listening socket leaves nothing behind when it fails. The result is the open descriptor, or \<open>-1\<close> and the descriptor
  has been closed once.
\<close>

theorem make_echo_fd_closes:
  assumes "sys_int (Sys_libc ''socket'') s = (sd, s1)" "0 \<le> sd" "make_echo_fd s = (r, s')"
  shows "r = sd \<and> closes sd s' = closes sd s \<or> r = - 1 \<and> closes sd s' = closes sd s + 1"
  using assms
  by (auto simp: make_echo_fd_def Let_def closes_note sys_int_def split: prod.splits if_splits dest!: closes_call [where fd = sd])

theorem make_echo_fd_closes_witness:
  "closes 1 (snd (make_echo_fd (os_answering [ok_ret]))) = 1"
proof -
  obtain s1 where a: "sys_int (Sys_libc ''socket'') (os_answering [ok_ret]) = (1, s1)" by (simp add: io_simps)
  obtain s' where m: "make_echo_fd (os_answering [ok_ret]) = (- 1, s')"
    by (simp add: make_echo_fd_def io_simps)
  from make_echo_fd_closes [OF a _ m] m show ?thesis by (simp add: closes_def os_answering_def)
qed

end
