(* ===== verification/Ssl.thy ===== *)
theory Ssl
  imports Torque
begin

text \<open>
  TLS connections: \<^verbatim>\<open>src/src/libtorque/protos/ssl.c\<close>, \<open>torque_addssl\<close> of \<^verbatim>\<open>torque.c\<close> and the echo client of
  \<^verbatim>\<open>src/tools/testing/torquessl.c\<close>. OpenSSL is code of its own: each of its functions is a call (\<open>Sys_ssl\<close>) with
  any answer. The callback objects live in a heap, so that the use of a freed object is
  visible; a callback that returns yields a new world, \<open>None\<close> is undefined behaviour or a
  loop that does not end.
\<close>

section \<open>Callback objects\<close>

record ssl_cbstate =
  sc_sslctx :: nat
  sc_ssl :: "nat option"
  sc_cbstate :: nat
  sc_rxfxn :: "nat option"
  sc_txfxn :: "nat option"
  sc_rxb :: torque_rxbuf

type_synonym ssl_heap = "nat \<rightharpoonup> ssl_cbstate"

text \<open>What a callback sees: the thread's context, the callback objects, the system.\<close>

record ssl_world =
  sw_ctx :: torque_ctx
  sw_heap :: ssl_heap
  sw_sys :: sysst

definition w_sys :: "(sysst \<Rightarrow> 'a \<times> sysst) \<Rightarrow> ssl_world \<Rightarrow> 'a \<times> ssl_world" where
  "w_sys f w = (case f (sw_sys w) of (r, s) \<Rightarrow> (r, w\<lparr>sw_sys := s\<rparr>))"

definition w_note :: "syscall \<Rightarrow> ssl_world \<Rightarrow> ssl_world" where
  "w_note c w = w\<lparr>sw_sys := sys_note c (sw_sys w)\<rparr>"

definition create_ssl_cbstate ::
  "nat \<Rightarrow> nat \<Rightarrow> nat option \<Rightarrow> nat option \<Rightarrow> ssl_world \<Rightarrow> nat option \<times> ssl_world" where
  "create_ssl_cbstate sslctx cbstate rx tx w =
     (case w_sys (sys_ptr (Sys_malloc ''ssl_cbstate'')) w of
        (None, w1) \<Rightarrow> (None, w1)
      | (Some p, w1) \<Rightarrow>
          (case w_sys (initialize_rxbuffer (sw_ctx w1)) w1 of
             (Some rxb, w2) \<Rightarrow>
               (Some p, w2\<lparr>sw_heap := (sw_heap w2)(p \<mapsto>
                  \<lparr>sc_sslctx = sslctx, sc_ssl = None, sc_cbstate = cbstate, sc_rxfxn = rx, sc_txfxn = tx,
                   sc_rxb = rxb\<rparr>)\<rparr>)
           | (None, w2) \<Rightarrow> (None, w_note (Sys_free ''ssl_cbstate'') w2)))"

text \<open>The null pointer is 0; \<open>SSL_free\<close> takes a null pointer.\<close>

definition free_ssl_cbstate :: "nat \<Rightarrow> ssl_world \<Rightarrow> ssl_world option" where
  "free_ssl_cbstate p w =
     (if p = 0 then Some w
      else
        (case sw_heap w p of
           None \<Rightarrow> None
         | Some sc \<Rightarrow>
             let w1 = w_note (Sys_ssl ''SSL_free'') w;
                 w2 = w1\<lparr>sw_sys := free_rxbuffer (sc_rxb sc) (sw_sys w1)\<rparr>
             in Some (w_note (Sys_free ''ssl_cbstate'') (w2\<lparr>sw_heap := (sw_heap w2)(p := None)\<rparr>))))"

section \<open>Library set-up\<close>

text \<open>
  The two globals \<open>numlocks\<close> and \<open>openssl_locks\<close>; an array of mutexes is the list of their
  states, \<open>True\<close> when initialised. Using a mutex outside the array or one that is not
  initialised is undefined.
\<close>

record ssl_globals =
  numlocks :: nat
  openssl_locks :: "bool list option"

definition mutex_destroy :: "nat \<Rightarrow> ssl_globals \<Rightarrow> sysst \<Rightarrow> (int \<times> ssl_globals \<times> sysst) option" where
  "mutex_destroy z g s =
     (case openssl_locks g of
        None \<Rightarrow> None
      | Some ms \<Rightarrow>
          if z < length ms \<and> ms ! z then
            (case sys_int (Sys_pthread ''mutex_destroy'') s of
               (r, s') \<Rightarrow> Some (r, g\<lparr>openssl_locks := Some (ms[z := False])\<rparr>, s'))
          else None)"

fun destroy_locks :: "nat \<Rightarrow> nat \<Rightarrow> int \<Rightarrow> ssl_globals \<Rightarrow> sysst \<Rightarrow> (int \<times> ssl_globals \<times> sysst) option" where
  "destroy_locks 0 z ret g s = Some (ret, g, s)"
| "destroy_locks (Suc n) z ret g s =
     (case mutex_destroy z g s of
        None \<Rightarrow> None
      | Some (r, g', s') \<Rightarrow> destroy_locks n (z + 1) (if r \<noteq> 0 then - 1 else ret) g' s')"

definition torque_stop_ssl :: "ssl_globals \<Rightarrow> sysst \<Rightarrow> (int \<times> ssl_globals \<times> sysst) option" where
  "torque_stop_ssl g s =
     (let s1 = sys_note (Sys_ssl ''CRYPTO_set_id_callback'')
                 (sys_note (Sys_ssl ''CRYPTO_set_locking_callback'') (sys_note (Sys_ssl ''RAND_cleanup'') s))
      in case destroy_locks (numlocks g) 0 0 g s1 of
           None \<Rightarrow> None
         | Some (ret, g', s2) \<Rightarrow>
             Some (ret, g'\<lparr>numlocks := 0, openssl_locks := None\<rparr>, sys_note (Sys_free ''openssl_locks'') s2))"

definition CRYPTO_LOCK :: u32 where [simp]: "CRYPTO_LOCK = 1"

definition openssl_lock_callback :: "u32 \<Rightarrow> nat \<Rightarrow> ssl_globals \<Rightarrow> sysst \<Rightarrow> sysst option" where
  "openssl_lock_callback mode n g s =
     (case openssl_locks g of
        None \<Rightarrow> None
      | Some ms \<Rightarrow>
          if n < length ms \<and> ms ! n then
            Some (snd (sys_int (Sys_pthread (if mode AND CRYPTO_LOCK \<noteq> 0 then ''mutex_lock'' else ''mutex_unlock'')) s))
          else None)"

definition openssl_dyncreate_callback :: "sysst \<Rightarrow> nat option \<times> sysst" where
  "openssl_dyncreate_callback s =
     (case sys_ptr (Sys_malloc ''dynlock'') s of
        (None, s1) \<Rightarrow> (None, s1)
      | (Some p, s1) \<Rightarrow>
          (case sys_int (Sys_pthread ''mutex_init'') s1 of
             (r, s2) \<Rightarrow> if r \<noteq> 0 then (None, sys_note (Sys_free ''dynlock'') s2) else (Some p, s2)))"

definition openssl_dynlock_callback :: "u32 \<Rightarrow> sysst \<Rightarrow> sysst" where
  "openssl_dynlock_callback mode s =
     snd (sys_int (Sys_pthread (if mode AND CRYPTO_LOCK \<noteq> 0 then ''mutex_lock'' else ''mutex_unlock'')) s)"

definition openssl_dyndestroy_callback :: "sysst \<Rightarrow> sysst" where
  "openssl_dyndestroy_callback s =
     sys_note (Sys_free ''dynlock'') (snd (sys_int (Sys_pthread ''mutex_destroy'') s))"

definition openssl_verify_callback :: "int \<Rightarrow> int" where
  "openssl_verify_callback preverify_ok = preverify_ok"

text \<open>
  The error exits of \<open>torque_ssl_ctx\<close> release the new context. \<open>no_sslv2\<close> is OpenSSL's constant
  \<open>SSL_OP_NO_SSLv2\<close>, whose value depends on its version.
\<close>

definition ssl_ctx_fail :: "sysst \<Rightarrow> nat option \<times> sysst" where
  "ssl_ctx_fail s = (None, sys_note (Sys_ssl ''SSL_CTX_free'') s)"

definition ssl_ctx_keys :: "nat \<Rightarrow> sysst \<Rightarrow> nat option \<times> sysst" where
  "ssl_ctx_keys ret s =
     (case sys_int (Sys_ssl ''SSL_CTX_use_PrivateKey_file'') s of
        (r1, s1) \<Rightarrow>
          if r1 = 1 then
            (case sys_int (Sys_ssl ''SSL_CTX_use_certificate_chain_file'') s1 of
               (c, s2) \<Rightarrow> if c = 1 then (Some ret, s2) else ssl_ctx_fail s2)
          else
            (case sys_int (Sys_ssl ''SSL_CTX_use_PrivateKey_file'') s1 of
               (r2, s2) \<Rightarrow>
                 if r2 = 1 then
                   (case sys_int (Sys_ssl ''SSL_CTX_use_certificate_chain_file'') s2 of
                      (c, s3) \<Rightarrow> if c = 1 then (Some ret, s3) else ssl_ctx_fail s3)
                 else ssl_ctx_fail s2))"

definition ssl_ctx_trust ::
  "string option \<Rightarrow> string option \<Rightarrow> string option \<Rightarrow> nat \<Rightarrow> sysst \<Rightarrow> nat option \<times> sysst" where
  "ssl_ctx_trust certfile keyfile cafile ret s =
     (case (if cafile \<noteq> None then sys_int (Sys_ssl ''SSL_CTX_load_verify_locations'') s else (1, s)) of
        (r, s1) \<Rightarrow>
          if r \<noteq> 1 then ssl_ctx_fail s1
          else
            let s2 = sys_note (Sys_ssl ''SSL_CTX_set_verify'') s1
            in if keyfile = None \<and> certfile = None then (Some ret, s2) else ssl_ctx_keys ret s2)"

definition torque_ssl_ctx ::
  "u32 \<Rightarrow> string option \<Rightarrow> string option \<Rightarrow> string option \<Rightarrow> sysst \<Rightarrow> nat option \<times> sysst" where
  "torque_ssl_ctx no_sslv2 certfile keyfile cafile s =
     (case sys_ptr (Sys_ssl ''SSL_CTX_new'') s of
        (None, s1) \<Rightarrow> (None, s1)
      | (Some ret, s1) \<Rightarrow>
          (case sys_int (Sys_ssl ''SSL_CTX_set_options'') s1 of
             (opts, s2) \<Rightarrow>
               if (word_of_int opts :: u32) AND no_sslv2 = 0 then ssl_ctx_fail s2
               else
                 (case sys_int (Sys_ssl ''RAND_bytes'') s2 of
                    (r, s3) \<Rightarrow>
                      if r < 0 then ssl_ctx_fail s3
                      else
                        (case sys_int (Sys_ssl ''SSL_CTX_set_session_id_context'') s3 of
                           (r, s4) \<Rightarrow>
                             if r \<noteq> 1 then ssl_ctx_fail s4
                             else ssl_ctx_trust certfile keyfile cafile ret s4))))"

text \<open>The mutexes are initialised in order; a failure destroys those before it, the last first.\<close>

fun undo_locks :: "nat \<Rightarrow> ssl_globals \<Rightarrow> sysst \<Rightarrow> (ssl_globals \<times> sysst) option" where
  "undo_locks 0 g s = Some (g, s)"
| "undo_locks (Suc z) g s =
     (case mutex_destroy z g s of None \<Rightarrow> None | Some (_, g', s') \<Rightarrow> undo_locks z g' s')"

fun init_locks :: "nat \<Rightarrow> nat \<Rightarrow> ssl_globals \<Rightarrow> sysst \<Rightarrow> (int \<times> ssl_globals \<times> sysst) option" where
  "init_locks 0 z g s = Some (0, g, s)"
| "init_locks (Suc n) z g s =
     (case sys_int (Sys_pthread ''mutex_init'') s of
        (r, s1) \<Rightarrow>
          if r \<noteq> 0 then
            (case undo_locks z g s1 of
               None \<Rightarrow> None
             | Some (g', s2) \<Rightarrow>
                 Some (- 1, g'\<lparr>numlocks := 0, openssl_locks := None\<rparr>,
                   sys_note (Sys_ssl ''RAND_cleanup'') (sys_note (Sys_free ''openssl_locks'') s2)))
          else init_locks n (z + 1) (g\<lparr>openssl_locks := map_option (\<lambda>ms. ms[z := True]) (openssl_locks g)\<rparr>) s1)"

definition threading_setup :: "string list" where
  "threading_setup =
     [''CRYPTO_set_locking_callback'', ''CRYPTO_set_id_callback'', ''CRYPTO_set_dynlock_create_callback'',
      ''CRYPTO_set_dynlock_lock_callback'', ''CRYPTO_set_dynlock_destroy_callback'']"

definition torque_init_ssl :: "ssl_globals \<Rightarrow> sysst \<Rightarrow> (int \<times> ssl_globals \<times> sysst) option" where
  "torque_init_ssl g s =
     (case sys_int (Sys_ssl ''SSL_library_init'') s of
        (r, s1) \<Rightarrow>
          if r \<noteq> 1 then Some (- 1, g, s1)
          else
            (case sys_int (Sys_ssl ''RAND_status'') s1 of
               (r, s2) \<Rightarrow>
                 if r \<noteq> 1 then Some (- 1, g, s2)
                 else
                   (case sys_int (Sys_ssl ''CRYPTO_num_locks'') s2 of
                      (nlocks, s3) \<Rightarrow>
                        if nlocks < 0 then Some (- 1, g, sys_note (Sys_ssl ''RAND_cleanup'') s3)
                        else if nlocks = 0 then Some (0, g, s3)
                        else
                          let g1 = g\<lparr>numlocks := nat nlocks\<rparr> in
                          (case sys_alloc (Sys_malloc ''openssl_locks'') s3 of
                             (ok, s4) \<Rightarrow>
                               if \<not> ok then Some (- 1, g1\<lparr>openssl_locks := None\<rparr>, sys_note (Sys_ssl ''RAND_cleanup'') s4)
                               else
                                 (case init_locks (nat nlocks) 0
                                         (g1\<lparr>openssl_locks := Some (replicate (nat nlocks) False)\<rparr>) s4 of
                                    None \<Rightarrow> None
                                  | Some (r, g2, s5) \<Rightarrow>
                                      if r \<noteq> 0 then Some (r, g2, s5)
                                      else Some (0, g2, foldl (\<lambda>s f. sys_note (Sys_ssl f) s) s5 threading_setup))))))"

section \<open>Connections\<close>

definition SSL_ERROR_WANT_READ :: int where [simp]: "SSL_ERROR_WANT_READ = 2"
definition SSL_ERROR_WANT_WRITE :: int where [simp]: "SSL_ERROR_WANT_WRITE = 3"

definition ssl_get_error :: "ssl_world \<Rightarrow> int \<times> ssl_world" where
  "ssl_get_error w = w_sys (sys_int (Sys_ssl ''SSL_get_error'')) w"

text \<open>The two assignments to the callbacks of a descriptor, whose state pointer stays.\<close>

definition set_sources :: "int \<Rightarrow> cbfn option \<Rightarrow> cbfn option \<Rightarrow> ssl_world \<Rightarrow> ssl_world option" where
  "set_sources fd rx tx w =
     (case set_evsource_rx (fdarray (ctx_eventtables (sw_ctx w))) (nat fd) rx of
        None \<Rightarrow> None
      | Some evs \<Rightarrow>
          (case set_evsource_tx evs (nat fd) tx of
             None \<Rightarrow> None
           | Some evs' \<Rightarrow> Some (w\<lparr>sw_ctx := set_fdarray evs' (sw_ctx w)\<rparr>)))"

text \<open>The label \<open>err\<close> of the callbacks, and their \<open>if(restorefd(...)) goto err\<close>.\<close>

definition ssl_err :: "int \<Rightarrow> nat \<Rightarrow> ssl_world \<Rightarrow> ssl_world option" where
  "ssl_err fd p w = map_option (w_note (Sys_close fd)) (free_ssl_cbstate p w)"

definition ssl_restore :: "int \<Rightarrow> nat \<Rightarrow> u32 \<Rightarrow> ssl_world \<Rightarrow> ssl_world option" where
  "ssl_restore fd p flags w =
     (case w_sys (restorefd fd flags) w of (r, w') \<Rightarrow> if r \<noteq> 0 then ssl_err fd p w' else Some w')"

text \<open>The object of a connection, with its \<open>SSL\<close>; anything else is undefined.\<close>

definition ssl_conn :: "nat \<Rightarrow> ssl_world \<Rightarrow> ssl_cbstate option" where
  "ssl_conn p w =
     (case sw_heap w p of
        None \<Rightarrow> None
      | Some sc \<Rightarrow> if sc_ssl sc = None then None else Some sc)"

text \<open>\<open>SSL_write\<close> of at most \<open>len\<close> bytes: negative, or the number of bytes taken.\<close>

definition ssl_write :: "nat \<Rightarrow> ssl_world \<Rightarrow> int \<times> ssl_world" where
  "ssl_write len w =
     (case w_sys (sys_int (Sys_ssl ''SSL_write'')) w of (r, w') \<Rightarrow> (min r (int len), w'))"

lemma w_sys_answers:
  assumes "w_sys (sys_int c) w = (r, w')" "0 \<le> r"
  shows "length (answers (sw_sys w')) < length (answers (sw_sys w))"
  using assms by (auto simp: w_sys_def sys_int_def sys_call_def failed_ret_def split: prod.splits list.splits)

function ssl_tx_loop :: "int \<Rightarrow> nat \<Rightarrow> nat \<Rightarrow> nat \<Rightarrow> ssl_world \<Rightarrow> (int \<times> ssl_world) option" where
  "ssl_tx_loop fd p len ret w =
     (if ret < len then
        (case ssl_conn p w of
           None \<Rightarrow> None
         | Some sc \<Rightarrow>
             (case ssl_write (len - ret) w of
                (r, w1) \<Rightarrow>
                  if r \<ge> 0 then ssl_tx_loop fd p len (ret + nat r) w1
                  else
                    (case ssl_get_error w1 of
                       (err, w2) \<Rightarrow>
                         if err = SSL_ERROR_WANT_READ then
                           (case set_sources fd (Some Cb_ssl_rxfxn) None w2 of
                              None \<Rightarrow> None
                            | Some w3 \<Rightarrow>
                                (case w_sys (restorefd fd EVREAD) w3 of
                                   (q, w4) \<Rightarrow> Some (if q \<noteq> 0 then - 1 else int ret, w4)))
                         else if err = SSL_ERROR_WANT_WRITE then
                           (case w_sys (restorefd fd (EVREAD OR EVWRITE)) w2 of
                              (q, w4) \<Rightarrow> Some (if q \<noteq> 0 then - 1 else int ret, w4))
                         else Some (- 1, w2))))
      else Some (int ret, w))"
  by pat_completeness auto
termination
proof (relation "measure (\<lambda>(fd, p, len, ret, w). length (answers (sw_sys w)))", goal_cases)
  case (2 fd p len ret w sc r w1)
  then obtain q where q: "w_sys (sys_int (Sys_ssl ''SSL_write'')) w = (q, w1)" "r = min q (int (len - ret))"
    by (auto simp: ssl_write_def split: prod.splits)
  show ?case using w_sys_answers [OF q(1)] q(2) 2 by simp
qed simp

declare ssl_tx_loop.simps [simp del]

definition ssl_tx :: "int \<Rightarrow> nat \<Rightarrow> u8 list \<Rightarrow> ssl_world \<Rightarrow> (int \<times> ssl_world) option" where
  "ssl_tx fd p buf w = ssl_tx_loop fd p (length buf) 0 w"

text \<open>
  A client's function: its name, the descriptor, the object, the world; \<open>None\<close> when it does not return.
\<close>

type_synonym ssl_client = "nat \<Rightarrow> int \<Rightarrow> nat \<Rightarrow> ssl_world \<Rightarrow> (int \<times> ssl_world) option"

text \<open>\<open>rxbuffer_ssl\<close> over the answer of \<open>SSL_read\<close>.\<close>

definition ssl_read :: "nat \<Rightarrow> ssl_world \<Rightarrow> (int \<times> ssl_world) option" where
  "ssl_read p w =
     (case ssl_conn p w of
        None \<Rightarrow> None
      | Some sc \<Rightarrow>
          (case w_sys (sys_call (Sys_ssl ''SSL_read'')) w of
             (a, w1) \<Rightarrow>
               let d = take (rx_buftot (sc_rxb sc) - rx_bufoff (sc_rxb sc)) (rdata a);
                   r = (if rv a > 0 then int (length d) else rv a)
               in case rxbuffer_ssl r d (sc_rxb sc) of
                    (r', rxb) \<Rightarrow> Some (r', w1\<lparr>sw_heap := (sw_heap w1)(p \<mapsto> sc\<lparr>sc_rxb := rxb\<rparr>)\<rparr>)))"

text \<open>
  The read loops, which go on while \<open>goon\<close> holds of the result of \<open>SSL_read\<close>. They end with
  that result, or with \<open>None\<close> inside when the client asks for the end of the connection.
\<close>

partial_function (option) ssl_read_loop ::
  "(int \<Rightarrow> bool) \<Rightarrow> ssl_client \<Rightarrow> int \<Rightarrow> nat \<Rightarrow> ssl_world \<Rightarrow> (int option \<times> ssl_world) option" where
  "ssl_read_loop goon client fd p w =
     (case ssl_read p w of
        None \<Rightarrow> None
      | Some (r, w1) \<Rightarrow>
          if goon r then
            (case Option.bind (sw_heap w1 p) sc_rxfxn of
               None \<Rightarrow> None
             | Some f \<Rightarrow>
                 (case client f fd p w1 of
                    None \<Rightarrow> None
                  | Some (c, w2) \<Rightarrow> if c \<noteq> 0 then Some (None, w2) else ssl_read_loop goon client fd p w2))
          else Some (Some r, w1))"

declare ssl_read_loop.simps [code]

definition ssl_txrxfxn :: "ssl_client \<Rightarrow> int \<Rightarrow> nat \<Rightarrow> ssl_world \<Rightarrow> ssl_world option" where
  "ssl_txrxfxn client fd p w =
     (case ssl_read_loop (\<lambda>r. r > 0) client fd p w of
        None \<Rightarrow> None
      | Some (None, w1) \<Rightarrow> ssl_err fd p w1
      | Some (Some r, w1) \<Rightarrow>
          (case ssl_get_error w1 of
             (err, w2) \<Rightarrow>
               if err = SSL_ERROR_WANT_READ then
                 (case set_sources fd (Some Cb_ssl_rxfxn) None w2 of
                    None \<Rightarrow> None
                  | Some w3 \<Rightarrow> ssl_restore fd p EVREAD w3)
               else if err = SSL_ERROR_WANT_WRITE then ssl_restore fd p (EVREAD OR EVWRITE) w2
               else ssl_err fd p w2))"

definition ssl_rxfxn :: "ssl_client \<Rightarrow> int \<Rightarrow> nat \<Rightarrow> ssl_world \<Rightarrow> ssl_world option" where
  "ssl_rxfxn client fd p w =
     (case ssl_read_loop (\<lambda>r. r \<ge> 0) client fd p w of
        None \<Rightarrow> None
      | Some (None, w1) \<Rightarrow> ssl_err fd p w1
      | Some (Some r, w1) \<Rightarrow>
          (case ssl_get_error w1 of
             (err, w2) \<Rightarrow>
               if err = SSL_ERROR_WANT_WRITE then
                 (case set_sources fd None (Some Cb_ssl_txrxfxn) w2 of
                    None \<Rightarrow> None
                  | Some w3 \<Rightarrow> ssl_restore fd p (EVWRITE OR EVREAD) w3)
               else if err = SSL_ERROR_WANT_READ then ssl_restore fd p EVREAD w2
               else ssl_err fd p w2))"

definition ssl_txfxn :: "ssl_client \<Rightarrow> int \<Rightarrow> nat \<Rightarrow> ssl_world \<Rightarrow> ssl_world option" where
  "ssl_txfxn client fd p w =
     (case sw_heap w p of
        None \<Rightarrow> None
      | Some sc \<Rightarrow>
          (case sc_txfxn sc of
             None \<Rightarrow> ssl_err fd p w
           | Some f \<Rightarrow>
               (case client f fd p w of
                  None \<Rightarrow> None
                | Some (r, w1) \<Rightarrow> if r \<noteq> 0 then ssl_err fd p w1 else Some w1)))"

section \<open>Accepting connections\<close>

text \<open>
  \<open>initialize_rxbuffer\<close> on a buffer in use: the old mapping is forgotten; when no page can be had, the
  buffer is null and its length that of the page.
\<close>

definition reinitialize_rxbuffer :: "torque_ctx \<Rightarrow> torque_rxbuf \<Rightarrow> sysst \<Rightarrow> int \<times> torque_rxbuf \<times> sysst" where
  "reinitialize_rxbuffer ctx rxb s =
     (case get_big_page ctx s of
        (ok, sz, s') \<Rightarrow>
          if ok then (0, \<lparr>rx_buffer = replicate (unat sz) 0, rx_buftot = unat sz, rx_bufoff = 0, rx_bufate = 0\<rparr>, s')
          else (- 1, rxb\<lparr>rx_buffer := [], rx_buftot := unat sz\<rparr>, s'))"

definition conn_rxbuffer :: "nat \<Rightarrow> ssl_cbstate \<Rightarrow> ssl_world \<Rightarrow> int \<times> ssl_world" where
  "conn_rxbuffer p sc w =
     (case reinitialize_rxbuffer (sw_ctx w) (sc_rxb sc) (sw_sys w) of
        (r, rxb, s) \<Rightarrow> (r, w\<lparr>sw_sys := s, sw_heap := (sw_heap w)(p \<mapsto> sc\<lparr>sc_rxb := rxb\<rparr>)\<rparr>))"

definition ssl_accept :: "ssl_world \<Rightarrow> int \<times> ssl_world" where
  "ssl_accept w = w_sys (sys_int (Sys_ssl ''SSL_accept'')) w"

definition conn_rx :: "ssl_cbstate \<Rightarrow> cbfn option" where
  "conn_rx sc = (if sc_rxfxn sc \<noteq> None then Some Cb_ssl_rxfxn else None)"

definition conn_tx :: "ssl_cbstate \<Rightarrow> cbfn option" where
  "conn_tx sc = (if sc_txfxn sc \<noteq> None then Some Cb_ssl_txfxn else None)"

definition conn_events :: "ssl_cbstate \<Rightarrow> u32" where
  "conn_events sc = (if conn_rx sc \<noteq> None then EVREAD else 0) OR (if conn_tx sc \<noteq> None then EVWRITE else 0)"

definition accept_contrxfxn :: "int \<Rightarrow> nat \<Rightarrow> ssl_world \<Rightarrow> ssl_world option" where
  "accept_contrxfxn fd p w =
     (case ssl_conn p w of
        None \<Rightarrow> None
      | Some sc \<Rightarrow>
          (case ssl_accept w of
             (ret, w1) \<Rightarrow>
               if ret = 1 then
                 (case conn_rxbuffer p sc w1 of
                    (r, w2) \<Rightarrow>
                      if r \<noteq> 0 then ssl_err fd p w2
                      else
                        (case set_sources fd (conn_rx sc) (conn_tx sc) w2 of
                           None \<Rightarrow> None
                         | Some w3 \<Rightarrow> ssl_restore fd p (conn_events sc) w3))
               else
                 (case ssl_get_error w1 of
                    (err, w2) \<Rightarrow>
                      if err = SSL_ERROR_WANT_WRITE then
                        (case set_sources fd None (Some Cb_accept_conttxfxn) w2 of
                           None \<Rightarrow> None
                         | Some w3 \<Rightarrow> ssl_restore fd p EVWRITE w3)
                      else if err = SSL_ERROR_WANT_READ then ssl_restore fd p EVREAD w2
                      else ssl_err fd p w2)))"

definition accept_conttxfxn :: "int \<Rightarrow> nat \<Rightarrow> ssl_world \<Rightarrow> ssl_world option" where
  "accept_conttxfxn fd p w =
     (case ssl_conn p w of
        None \<Rightarrow> None
      | Some sc \<Rightarrow>
          (case ssl_accept w of
             (ret, w1) \<Rightarrow>
               if ret = 1 then
                 (case conn_rxbuffer p sc w1 of
                    (r, w2) \<Rightarrow>
                      if r \<noteq> 0 then ssl_err fd p w2
                      else set_sources fd (conn_rx sc) (conn_tx sc) w2)
               else
                 (case ssl_get_error w1 of
                    (err, w2) \<Rightarrow>
                      if err = SSL_ERROR_WANT_READ then set_sources fd (Some Cb_accept_contrxfxn) None w2
                      else if err = SSL_ERROR_WANT_WRITE then Some w2
                      else ssl_err fd p w2)))"

text \<open>A failed set-up of a connection: free the object, return \<open>-1\<close>.\<close>

definition accept_fail :: "nat \<Rightarrow> ssl_world \<Rightarrow> (int \<times> ssl_world) option" where
  "accept_fail c w = map_option (Pair (- 1)) (free_ssl_cbstate c w)"

definition accept_register ::
  "int \<Rightarrow> cbfn option \<Rightarrow> cbfn option \<Rightarrow> nat \<Rightarrow> ssl_world \<Rightarrow> (int \<times> ssl_world) option" where
  "accept_register sd rx tx c w =
     (case torque_addfd_unbuffered (sw_ctx w) sd rx tx (Ptr_obj c) (sw_sys w) of
        None \<Rightarrow> None
      | Some (r, ctx, s) \<Rightarrow>
          let w' = w\<lparr>sw_ctx := ctx, sw_sys := s\<rparr> in
          if r \<noteq> 0 then accept_fail c w' else Some (0, w'))"

text \<open>The first attempt at the handshake, on the new object.\<close>

definition accept_start :: "int \<Rightarrow> nat \<Rightarrow> ssl_cbstate \<Rightarrow> ssl_world \<Rightarrow> (int \<times> ssl_world) option" where
  "accept_start sd c csc w =
     (case ssl_accept w of
        (ret, w1) \<Rightarrow>
          if ret = 1 then
            (case conn_rxbuffer c csc w1 of
               (r, w2) \<Rightarrow>
                 if r \<noteq> 0 then accept_fail c w2
                 else accept_register sd (conn_rx csc) (conn_tx csc) c w2)
          else
            (case ssl_get_error w1 of
               (err, w2) \<Rightarrow>
                 if err = SSL_ERROR_WANT_WRITE then accept_register sd None (Some Cb_accept_conttxfxn) c w2
                 else if err = SSL_ERROR_WANT_READ then accept_register sd (Some Cb_accept_contrxfxn) None c w2
                 else accept_fail c w2))"

definition ssl_accept_internal :: "int \<Rightarrow> nat \<Rightarrow> ssl_world \<Rightarrow> (int \<times> ssl_world) option" where
  "ssl_accept_internal sd p w =
     (case sw_heap w p of
        None \<Rightarrow> None
      | Some sc \<Rightarrow>
          (case create_ssl_cbstate (sc_sslctx sc) (sc_cbstate sc) (sc_rxfxn sc) (sc_txfxn sc) w of
             (None, w1) \<Rightarrow> Some (- 1, w1)
           | (Some c, w1) \<Rightarrow>
               (case w_sys (sys_ptr (Sys_ssl ''SSL_new'')) w1 of
                  (None, w2) \<Rightarrow> accept_fail c w2
                | (Some q, w2) \<Rightarrow>
                    let csc = (the (sw_heap w2 c))\<lparr>sc_ssl := Some q\<rparr>;
                        w3 = w2\<lparr>sw_heap := (sw_heap w2)(c \<mapsto> csc)\<rparr>
                    in case w_sys (sys_int (Sys_ssl ''SSL_set_fd'')) w3 of
                         (r, w4) \<Rightarrow> if r \<noteq> 1 then accept_fail c w4 else accept_start sd c csc w4)))"

text \<open>Make the descriptor non-blocking, then set up the connection.\<close>

definition nonblocking :: "int \<Rightarrow> ssl_world \<Rightarrow> bool \<times> ssl_world" where
  "nonblocking sd w =
     (case w_sys (sys_int (Sys_fcntl sd)) w of
        (flags, w1) \<Rightarrow>
          if flags < 0 then (False, w1)
          else (case w_sys (sys_int (Sys_fcntl sd)) w1 of (r, w2) \<Rightarrow> (r = 0, w2)))"

definition accept_one :: "int \<Rightarrow> nat \<Rightarrow> ssl_world \<Rightarrow> ssl_world option" where
  "accept_one sd p w =
     (case nonblocking sd w of
        (ok, w1) \<Rightarrow>
          if \<not> ok then Some (w_note (Sys_close sd) w1)
          else
            (case ssl_accept_internal sd p w1 of
               None \<Rightarrow> None
             | Some (r, w2) \<Rightarrow> Some (if r \<noteq> 0 then w_note (Sys_close sd) w2 else w2)))"

partial_function (option) ssl_accept_rxfxn :: "int \<Rightarrow> nat \<Rightarrow> ssl_world \<Rightarrow> ssl_world option" where
  "ssl_accept_rxfxn fd p w =
     (case w_sys (sys_int (Sys_accept fd)) w of
        (sd, w1) \<Rightarrow>
          if sd < 0 then
            if errno (sw_sys w1) \<noteq> EINTR then Some (snd (w_sys (restorefd fd EVREAD) w1))
            else ssl_accept_rxfxn fd p w1
          else
            (case accept_one sd p w1 of None \<Rightarrow> None | Some w2 \<Rightarrow> ssl_accept_rxfxn fd p w2))"

declare ssl_accept_rxfxn.simps [code]

definition torque_addssl ::
  "int \<Rightarrow> nat \<Rightarrow> nat option \<Rightarrow> nat option \<Rightarrow> nat \<Rightarrow> ssl_world \<Rightarrow> (torque_err \<times> ssl_world) option" where
  "torque_addssl fd sslctx rx tx state w =
     (case create_ssl_cbstate sslctx state rx tx w of
        (None, w1) \<Rightarrow> Some (TORQUE_ERR_RESOURCE, w1)
      | (Some p, w1) \<Rightarrow>
          (case torque_addfd_unbuffered (sw_ctx w1) fd (Some Cb_ssl_accept_rxfxn) None (Ptr_obj p) (sw_sys w1) of
             None \<Rightarrow> None
           | Some (r, ctx, s) \<Rightarrow>
               let w2 = w1\<lparr>sw_ctx := ctx, sw_sys := s\<rparr> in
               if r \<noteq> 0 then map_option (Pair TORQUE_ERR_RESOURCE) (free_ssl_cbstate p w2) else Some (0, w2)))"

section \<open>The echo client\<close>

definition ssl_conn_handler :: ssl_client where
  "ssl_conn_handler f fd p w =
     (case sw_heap w p of
        None \<Rightarrow> None
      | Some sc \<Rightarrow>
          (case rxbuffer_valid (sc_rxb sc) of
             (len, buf) \<Rightarrow>
               if len = 0 then Some (- 1, w)
               else
                 (case ssl_tx fd p buf w of
                    None \<Rightarrow> None
                  | Some (r, w1) \<Rightarrow>
                      if r < int len then Some (- 1, w1)
                      else
                        (case sw_heap w1 p of
                           None \<Rightarrow> None
                         | Some sc1 \<Rightarrow>
                             Some (0, w1\<lparr>sw_heap := (sw_heap w1)(p \<mapsto>
                               sc1\<lparr>sc_rxb := rxbuffer_advance len (sc_rxb sc1)\<rparr>)\<rparr>)))))"

end
