(* ===== verification/Tls.thy ===== *)
theory Tls
  imports Ssl
begin

text \<open>
  Correctness of the TLS connections of \<open>Ssl\<close>: who owns a connection's object and its descriptor,
  what the listener does with each accepted descriptor, the set-up of the OpenSSL locks, and
  where the code goes wrong.
\<close>

section \<open>Frames\<close>

text \<open>
  What a callback may change of the world of connection \<open>p\<close> on descriptor \<open>fd\<close>: its buffer, the source
  table's entries and the system, without closing the descriptor.
\<close>

definition world_table :: "ssl_world \<Rightarrow> evsource list" where
  "world_table w = fdarray (ctx_eventtables (sw_ctx w))"

definition same_conn :: "ssl_cbstate \<Rightarrow> ssl_cbstate \<Rightarrow> bool" where
  "same_conn sc sc' \<longleftrightarrow> sc' = sc\<lparr>sc_rxb := sc_rxb sc'\<rparr>"

definition conn_frame :: "int \<Rightarrow> nat \<Rightarrow> ssl_world \<Rightarrow> ssl_world \<Rightarrow> bool" where
  "conn_frame fd p w w' \<longleftrightarrow>
     (\<exists>sc sc'. sw_heap w p = Some sc \<and> sw_heap w' p = Some sc' \<and> same_conn sc sc') \<and>
     (\<forall>q. q \<noteq> p \<longrightarrow> sw_heap w' q = sw_heap w q) \<and>
     sys_quiet fd (sw_sys w) (sw_sys w') \<and> length (world_table w') = length (world_table w)"

text \<open>The connection is given up: the object is freed and the descriptor closed, once.\<close>

definition conn_done :: "int \<Rightarrow> nat \<Rightarrow> ssl_world \<Rightarrow> ssl_world \<Rightarrow> bool" where
  "conn_done fd p w w' \<longleftrightarrow>
     sw_heap w' = (sw_heap w)(p := None) \<and> closes fd (sw_sys w') = closes fd (sw_sys w) + 1 \<and>
     length (world_table w') = length (world_table w)"

definition conn_ends :: "int \<Rightarrow> nat \<Rightarrow> ssl_world \<Rightarrow> ssl_world \<Rightarrow> bool" where
  "conn_ends fd p w w' \<longleftrightarrow> conn_frame fd p w w' \<or> conn_done fd p w w'"

definition conn_ok :: "int \<Rightarrow> nat \<Rightarrow> ssl_world \<Rightarrow> bool" where
  "conn_ok fd p w \<longleftrightarrow> p \<noteq> 0 \<and> ssl_conn p w \<noteq> None \<and> nat fd < length (world_table w)"

lemma same_conn_trans: "same_conn a b \<Longrightarrow> same_conn b c \<Longrightarrow> same_conn a c"
  by (cases a; cases b; cases c) (simp add: same_conn_def)

lemma same_conn_refl: "same_conn sc sc" "same_conn sc (sc\<lparr>sc_rxb := b\<rparr>)"
  by (simp_all add: same_conn_def)

lemma same_conn_fields:
  "same_conn sc sc' \<Longrightarrow> sc_ssl sc' = sc_ssl sc \<and> sc_rxfxn sc' = sc_rxfxn sc \<and> sc_txfxn sc' = sc_txfxn sc"
  by (cases sc; cases sc') (simp add: same_conn_def)

lemmas quiet = sys_quiet_call sys_quiet_int sys_quiet_ptr sys_quiet_alloc sys_quiet_restorefd sys_quiet_big_page

lemma conn_ok_heap: "conn_ok fd p w \<Longrightarrow> \<exists>sc. sw_heap w p = Some sc \<and> sc_ssl sc \<noteq> None \<and> ssl_conn p w = Some sc"
  by (auto simp: conn_ok_def ssl_conn_def split: option.splits if_splits)

lemma conn_frame_sys:
  assumes "sw_heap w p \<noteq> None" "sys_quiet fd (sw_sys w) s"
  shows "conn_frame fd p w (w\<lparr>sw_sys := s\<rparr>)"
  using assms by (auto simp: conn_frame_def world_table_def same_conn_refl)

lemma conn_frame_trans: "conn_frame fd p w w1 \<Longrightarrow> conn_frame fd p w1 w2 \<Longrightarrow> conn_frame fd p w w2"
  by (auto simp: conn_frame_def dest: same_conn_trans sys_quiet_trans)

lemma conn_frame_done: "conn_frame fd p w w1 \<Longrightarrow> conn_done fd p w1 w2 \<Longrightarrow> conn_done fd p w w2"
  by (auto simp: conn_frame_def conn_done_def sys_quiet_def)

lemma conn_frame_ends: "conn_frame fd p w w1 \<Longrightarrow> conn_ends fd p w1 w2 \<Longrightarrow> conn_ends fd p w w2"
  by (auto simp: conn_ends_def intro: conn_frame_trans conn_frame_done)

lemma conn_frame_ok: "conn_frame fd p w w1 \<Longrightarrow> conn_ok fd p w \<Longrightarrow> conn_ok fd p w1"
  by (auto simp: conn_frame_def conn_ok_def ssl_conn_def split: option.splits if_splits dest: same_conn_fields)

lemma conn_frame_fns:
  "conn_frame fd p w w1 \<Longrightarrow> sw_heap w p = Some sc \<Longrightarrow>
     \<exists>sc1. sw_heap w1 p = Some sc1 \<and> sc_rxfxn sc1 = sc_rxfxn sc \<and> sc_txfxn sc1 = sc_txfxn sc"
  by (auto simp: conn_frame_def dest: same_conn_fields)

section \<open>The building blocks\<close>

lemma w_sys_frame:
  assumes "w_sys f w = (r, w')" "conn_ok fd p w" "\<And>s r s'. f s = (r, s') \<Longrightarrow> sys_quiet fd s s'"
  shows "conn_frame fd p w w'"
proof -
  obtain s' where "f (sw_sys w) = (r, s')" "w' = w\<lparr>sw_sys := s'\<rparr>"
    using assms(1) by (auto simp: w_sys_def split: prod.splits)
  moreover have "sw_heap w p \<noteq> None" using conn_ok_heap [OF assms(2)] by auto
  ultimately show ?thesis using conn_frame_sys assms(3) by simp
qed

lemma ssl_get_error_frame: "ssl_get_error w = (r, w') \<Longrightarrow> conn_ok fd p w \<Longrightarrow> conn_frame fd p w w'"
  unfolding ssl_get_error_def by (erule w_sys_frame) (auto dest: sys_quiet_int)

lemma ssl_accept_frame: "ssl_accept w = (r, w') \<Longrightarrow> conn_ok fd p w \<Longrightarrow> conn_frame fd p w w'"
  unfolding ssl_accept_def by (erule w_sys_frame) (auto dest: sys_quiet_int)

lemma ssl_write_frame: "ssl_write n w = (r, w') \<Longrightarrow> conn_ok fd p w \<Longrightarrow> conn_frame fd p w w'"
  by (auto simp: ssl_write_def split: prod.splits dest!: w_sys_frame intro: sys_quiet_int)

lemma restorefd_frame: "w_sys (restorefd d fl) w = (r, w') \<Longrightarrow> conn_ok fd p w \<Longrightarrow> conn_frame fd p w w'"
  by (erule w_sys_frame) (auto dest: sys_quiet_restorefd)

lemma set_sources_frame:
  assumes "conn_ok fd p w"
  shows "\<exists>w'. set_sources fd rx tx w = Some w' \<and> conn_frame fd p w w' \<and> sw_sys w' = sw_sys w \<and>
    (\<exists>v. src_entry (world_table w') (nat fd) = Some (rx, tx, v) \<and>
         (\<exists>r t. src_entry (world_table w) (nat fd) = Some (r, t, v)))"
proof -
  have n: "nat fd < length (world_table w)" using assms by (simp add: conn_ok_def)
  obtain sc where h: "sw_heap w p = Some sc" using conn_ok_heap [OF assms] by auto
  show ?thesis using n h
    by (auto simp: set_sources_def set_evsource_rx_def set_evsource_tx_def world_table_def set_fdarray_def
        conn_frame_def same_conn_refl sys_quiet_refl src_entry_def)
qed

lemma ssl_err_done:
  assumes "conn_ok fd p w"
  shows "\<exists>w'. ssl_err fd p w = Some w' \<and> conn_done fd p w w'"
proof -
  obtain sc where "sw_heap w p = Some sc" using conn_ok_heap [OF assms] by auto
  then show ?thesis using assms
    by (auto simp: ssl_err_def free_ssl_cbstate_def Let_def conn_ok_def conn_done_def w_note_def
        free_rxbuffer_def dealloc_def closes_note world_table_def)
qed

lemma ssl_restore_ends:
  assumes "conn_ok fd p w"
  shows "\<exists>w'. ssl_restore fd p fl w = Some w' \<and> conn_ends fd p w w'"
proof -
  obtain r w1 where r: "w_sys (restorefd fd fl) w = (r, w1)" by (cases "w_sys (restorefd fd fl) w")
  note fr = restorefd_frame [OF r assms]
  show ?thesis
  proof (cases "r = 0")
    case True
    then show ?thesis using r fr by (simp add: ssl_restore_def conn_ends_def)
  next
    case False
    then show ?thesis using r ssl_err_done [OF conn_frame_ok [OF fr assms]] conn_frame_done [OF fr]
      by (auto simp: ssl_restore_def conn_ends_def)
  qed
qed

text \<open>A step that keeps the connection, followed by one that ends its callback.\<close>

lemma ends_after:
  assumes "conn_ok fd p w" "conn_frame fd p w w1"
    and "conn_ok fd p w1 \<Longrightarrow> \<exists>w'. x = Some w' \<and> conn_ends fd p w1 w'"
  shows "\<exists>w'. x = Some w' \<and> conn_ends fd p w w'"
  using assms conn_frame_ok conn_frame_ends by blast

lemma ssl_err_ends: "conn_ok fd p w \<Longrightarrow> \<exists>w'. ssl_err fd p w = Some w' \<and> conn_ends fd p w w'"
  unfolding conn_ends_def using ssl_err_done by blast

lemma set_restore_ends:
  assumes "conn_ok fd p w"
  shows "\<exists>w'. (case set_sources fd rx tx w of None \<Rightarrow> None | Some w3 \<Rightarrow> ssl_restore fd p fl w3) = Some w' \<and>
    conn_ends fd p w w'"
proof -
  obtain w3 where w3: "set_sources fd rx tx w = Some w3" and fr: "conn_frame fd p w w3"
    using set_sources_frame [OF assms] by blast
  from ends_after [OF assms fr, of "ssl_restore fd p fl w3"] ssl_restore_ends w3 show ?thesis by auto
qed

lemma ssl_read_frame:
  assumes "conn_ok fd p w"
  shows "\<exists>r w'. ssl_read p w = Some (r, w') \<and> conn_frame fd p w w' \<and>
    (0 \<le> r \<longrightarrow> length (answers (sw_sys w')) < length (answers (sw_sys w)))"
proof -
  obtain sc where sc: "ssl_conn p w = Some sc" "sw_heap w p = Some sc" using conn_ok_heap [OF assms] by auto
  obtain a s1 where a: "sys_call (Sys_ssl ''SSL_read'') (sw_sys w) = (a, s1)" by (cases rule: prod.exhaust)
  have q: "sys_quiet fd (sw_sys w) s1" using sys_quiet_call [OF a] by simp
  have dec: "0 \<le> rv a \<Longrightarrow> length (answers s1) < length (answers (sw_sys w))"
    using a by (auto simp: sys_call_def failed_ret_def split: list.splits)
  show ?thesis using sc a q dec
    by (auto simp: ssl_read_def w_sys_def Let_def rxbuffer_ssl_def conn_frame_def same_conn_refl world_table_def)
qed

section \<open>Clients\<close>

text \<open>
  The contract of a client's function: it returns, and leaves the connection whose object it was
  given in place; the connection's end is asked for by the result, not made.
\<close>

locale tls_client =
  fixes client :: ssl_client
  assumes returns: "conn_ok fd p w \<Longrightarrow> \<exists>c w'. client f fd p w = Some (c, w') \<and> conn_frame fd p w w'"
begin

lemma read_loop_returns:
  assumes "conn_ok fd p w" "sw_heap w p = Some sc" "sc_rxfxn sc \<noteq> None" "\<And>r. goon r \<Longrightarrow> 0 \<le> r"
  shows "\<exists>x w'. ssl_read_loop goon client fd p w = Some (x, w') \<and> conn_frame fd p w w'"
  using assms(1-3)
proof (induction "length (answers (sw_sys w))" arbitrary: w sc rule: less_induct)
  case less
  obtain r w1 where rd: "ssl_read p w = Some (r, w1)" and fr: "conn_frame fd p w w1"
    and dec: "0 \<le> r \<longrightarrow> length (answers (sw_sys w1)) < length (answers (sw_sys w))"
    using ssl_read_frame [OF less.prems(1)] by blast
  have ok1: "conn_ok fd p w1" using conn_frame_ok [OF fr less.prems(1)] .
  show ?case
  proof (cases "goon r")
    case False
    then show ?thesis using rd fr by (subst ssl_read_loop.simps) simp
  next
    case True
    obtain sc1 f where sc1: "sw_heap w1 p = Some sc1" "sc_rxfxn sc1 = Some f"
      using conn_frame_fns [OF fr less.prems(2)] less.prems(3) by auto
    obtain c w2 where cl: "client f fd p w1 = Some (c, w2)" and fr2: "conn_frame fd p w1 w2"
      using returns [OF ok1] by blast
    have fr02: "conn_frame fd p w w2" using conn_frame_trans [OF fr fr2] .
    show ?thesis
    proof (cases "c = 0")
      case False
      then show ?thesis using rd True sc1 cl fr02 by (subst ssl_read_loop.simps) simp
    next
      case c0: True
      obtain sc2 where sc2: "sw_heap w2 p = Some sc2" "sc_rxfxn sc2 = Some f"
        using conn_frame_fns [OF fr2 sc1(1)] sc1(2) by auto
      have "length (answers (sw_sys w2)) \<le> length (answers (sw_sys w1))"
        using fr2 unfolding conn_frame_def by (blast dest: sys_quiet_answers(1))
      then have "length (answers (sw_sys w2)) < length (answers (sw_sys w))" using dec assms(4) [OF True] by simp
      from less.hyps [OF this conn_frame_ok [OF fr2 ok1] sc2(1)] sc2(2)
      obtain x w' where "ssl_read_loop goon client fd p w2 = Some (x, w')" "conn_frame fd p w2 w'" by auto
      then show ?thesis using rd True sc1 cl c0 conn_frame_trans [OF fr02] by (subst ssl_read_loop.simps) auto
    qed
  qed
qed

lemma rxfxn_ends:
  assumes "conn_ok fd p w" "sw_heap w p = Some sc" "sc_rxfxn sc \<noteq> None"
  shows "\<exists>w'. ssl_rxfxn client fd p w = Some w' \<and> conn_ends fd p w w'"
proof -
  obtain x w1 where l: "ssl_read_loop (\<lambda>r. r \<ge> 0) client fd p w = Some (x, w1)" and fr: "conn_frame fd p w w1"
    using read_loop_returns [OF assms, of "\<lambda>r. r \<ge> 0"] by auto
  obtain err w2 where e: "ssl_get_error w1 = (err, w2)" by (cases "ssl_get_error w1")
  have "conn_ok fd p w1 \<Longrightarrow> \<exists>w'. ssl_rxfxn client fd p w = Some w' \<and> conn_ends fd p w1 w'"
  proof -
    assume ok1: "conn_ok fd p w1"
    note fr2 = ssl_get_error_frame [OF e ok1]
    show ?thesis
      using ssl_err_ends [OF ok1] ends_after [OF ok1 fr2 set_restore_ends] ends_after [OF ok1 fr2 ssl_restore_ends]
        ends_after [OF ok1 fr2 ssl_err_ends] l e
      by (cases x) (auto simp: ssl_rxfxn_def)
  qed
  from ends_after [OF assms(1) fr this] show ?thesis .
qed

lemma txrxfxn_ends:
  assumes "conn_ok fd p w" "sw_heap w p = Some sc" "sc_rxfxn sc \<noteq> None"
  shows "\<exists>w'. ssl_txrxfxn client fd p w = Some w' \<and> conn_ends fd p w w'"
proof -
  obtain x w1 where l: "ssl_read_loop (\<lambda>r. r > 0) client fd p w = Some (x, w1)" and fr: "conn_frame fd p w w1"
    using read_loop_returns [OF assms, of "\<lambda>r. r > 0"] by auto
  obtain err w2 where e: "ssl_get_error w1 = (err, w2)" by (cases "ssl_get_error w1")
  have "conn_ok fd p w1 \<Longrightarrow> \<exists>w'. ssl_txrxfxn client fd p w = Some w' \<and> conn_ends fd p w1 w'"
  proof -
    assume ok1: "conn_ok fd p w1"
    note fr2 = ssl_get_error_frame [OF e ok1]
    show ?thesis
      using ssl_err_ends [OF ok1] ends_after [OF ok1 fr2 set_restore_ends] ends_after [OF ok1 fr2 ssl_restore_ends]
        ends_after [OF ok1 fr2 ssl_err_ends] l e
      by (cases x) (auto simp: ssl_txrxfxn_def)
  qed
  from ends_after [OF assms(1) fr this] show ?thesis .
qed

lemma txfxn_ends:
  assumes "conn_ok fd p w"
  shows "\<exists>w'. ssl_txfxn client fd p w = Some w' \<and> conn_ends fd p w w'"
proof -
  obtain sc where sc: "sw_heap w p = Some sc" using conn_ok_heap [OF assms] by auto
  show ?thesis
  proof (cases "sc_txfxn sc")
    case None
    then show ?thesis using sc ssl_err_ends [OF assms] by (simp add: ssl_txfxn_def)
  next
    case (Some f)
    obtain c w1 where cl: "client f fd p w = Some (c, w1)" and fr: "conn_frame fd p w w1" using returns [OF assms] by blast
    from ends_after [OF assms fr ssl_err_ends] fr sc Some cl show ?thesis by (auto simp: ssl_txfxn_def conn_ends_def)
  qed
qed

end

section \<open>Sending\<close>

text \<open>The descriptor has just been armed again, for reading at least.\<close>

definition rearmed :: "int \<Rightarrow> sysst \<Rightarrow> bool" where
  "rearmed fd s \<longleftrightarrow> (\<exists>ev. ev AND EVREAD \<noteq> 0 \<and> calls s \<noteq> [] \<and> last (calls s) = Sys_epoll_ctl ''MOD'' fd ev)"

lemma restorefd_rearms:
  assumes "w_sys (restorefd fd fl) w = (r, w')" "fl AND EVREAD \<noteq> 0"
  shows "rearmed fd (sw_sys w')"
proof -
  let ?ev = "(EVEDGET OR EVONESHOT) OR fl"
  obtain q s' where "sys_int (Sys_epoll_ctl ''MOD'' fd ?ev) (sw_sys w) = (q, s')" "w' = w\<lparr>sw_sys := s'\<rparr>"
    using assms(1) by (auto simp: w_sys_def restorefd_def split: prod.splits)
  then have "calls (sw_sys w') = calls (sw_sys w) @ [Sys_epoll_ctl ''MOD'' fd ?ev]"
    by (auto simp: sys_int_def split: prod.splits dest!: sys_call_calls)
  moreover have "?ev AND EVREAD \<noteq> 0"
    using assms(2) by (simp add: bit.conj_disj_distrib2 EVEDGET_def EVONESHOT_def EVREAD_def)
  ultimately show ?thesis by (auto simp: rearmed_def)
qed

lemma rearm_events [simp]: "EVREAD \<noteq> 0" "EVREAD AND EVREAD \<noteq> 0" "(EVREAD OR EVWRITE) AND EVREAD \<noteq> 0"
  by (simp_all add: EVREAD_def EVWRITE_def)

lemma ssl_tx_loop_outcome:
  assumes "conn_ok fd p w" "ret \<le> len"
  shows "\<exists>r w'. ssl_tx_loop fd p len ret w = Some (r, w') \<and> conn_frame fd p w w' \<and>
    (r = - 1 \<or> int ret \<le> r \<and> r \<le> int len \<and> (r < int len \<longrightarrow> rearmed fd (sw_sys w')))"
  using assms
proof (induction fd p len ret w rule: ssl_tx_loop.induct)
  case (1 fd p len ret w)
  obtain sc where sc: "ssl_conn p w = Some sc" "sw_heap w p = Some sc" using conn_ok_heap [OF 1(2)] by auto
  obtain r w1 where wr: "ssl_write (len - ret) w = (r, w1)" by (cases "ssl_write (len - ret) w")
  note fr = ssl_write_frame [OF wr 1(2)]
  note ok1 = conn_frame_ok [OF fr 1(2)]
  have rl: "r \<le> int (len - ret)" using wr by (auto simp: ssl_write_def split: prod.splits)
  obtain err w2 where e: "ssl_get_error w1 = (err, w2)" by (cases "ssl_get_error w1")
  note fr2 = conn_frame_trans [OF fr ssl_get_error_frame [OF e ok1]]
  note ok2 = conn_frame_ok [OF fr2 1(2)]
  obtain w3 where w3: "set_sources fd (Some Cb_ssl_rxfxn) None w2 = Some w3" and fr3: "conn_frame fd p w2 w3"
    using set_sources_frame [OF ok2] by blast
  obtain q w4 where q: "w_sys (restorefd fd EVREAD) w3 = (q, w4)" by (cases "w_sys (restorefd fd EVREAD) w3")
  obtain q' w4' where q': "w_sys (restorefd fd (EVREAD OR EVWRITE)) w2 = (q', w4')"
    by (cases "w_sys (restorefd fd (EVREAD OR EVWRITE)) w2")
  note fr4 = conn_frame_trans [OF conn_frame_trans [OF fr2 fr3] restorefd_frame [OF q conn_frame_ok [OF fr3 ok2]]]
  note fr4' = conn_frame_trans [OF fr2 restorefd_frame [OF q' ok2]]
  consider "\<not> ret < len" | "ret < len" "0 \<le> r" | "ret < len" "r < 0" by linarith
  then show ?case
  proof cases
    case 1
    then show ?thesis using \<open>ret \<le> len\<close> conn_frame_sys [of w p fd "sw_sys w"] sc
      by (subst ssl_tx_loop.simps) (simp add: sys_quiet_refl)
  next
    case 2
    have "ret + nat r \<le> len" using 2 rl by linarith
    from "1.IH" [OF 2(1) sc(1) wr [symmetric] 2(2) ok1 this] obtain x w' where
      "ssl_tx_loop fd p len (ret + nat r) w1 = Some (x, w')" "conn_frame fd p w1 w'"
      "x = - 1 \<or> int (ret + nat r) \<le> x \<and> x \<le> int len \<and> (x < int len \<longrightarrow> rearmed fd (sw_sys w'))" by blast
    then show ?thesis using 2 sc wr conn_frame_trans [OF fr] by (subst ssl_tx_loop.simps) auto
  next
    case 3
    then show ?thesis
      using sc wr e w3 q q' fr2 fr4 fr4' restorefd_rearms [OF q] restorefd_rearms [OF q']
      by (subst ssl_tx_loop.simps) auto
  qed
qed

text \<open>The echo client of the test tool keeps the contract.\<close>

interpretation echo: tls_client ssl_conn_handler
proof
  fix fd p w f
  assume ok: "conn_ok fd p w"
  obtain sc where sc: "sw_heap w p = Some sc" using conn_ok_heap [OF ok] by auto
  obtain len buf where v: "rxbuffer_valid (sc_rxb sc) = (len, buf)" by (cases "rxbuffer_valid (sc_rxb sc)")
  obtain r w1 where t: "ssl_tx fd p buf w = Some (r, w1)" and fr: "conn_frame fd p w w1"
    using ssl_tx_loop_outcome [OF ok, of 0 "length buf"] by (auto simp: ssl_tx_def)
  obtain sc1 where sc1: "sw_heap w1 p = Some sc1" using fr by (auto simp: conn_frame_def)
  have adv: "conn_frame fd p w1 (w1\<lparr>sw_heap := (sw_heap w1)(p \<mapsto> sc1\<lparr>sc_rxb := rxbuffer_advance len (sc_rxb sc1)\<rparr>)\<rparr>)"
    using sc1 by (auto simp: conn_frame_def same_conn_refl sys_quiet_refl world_table_def)
  have "conn_frame fd p w w" using conn_frame_sys [of w p fd "sw_sys w"] sc by (simp add: sys_quiet_refl)
  then show "\<exists>c w'. ssl_conn_handler f fd p w = Some (c, w') \<and> conn_frame fd p w w'"
    using sc v t fr sc1 conn_frame_trans [OF fr adv] by (simp add: ssl_conn_handler_def)
qed

section \<open>The handshake\<close>

lemma conn_rxbuffer_frame:
  assumes "conn_rxbuffer p sc w = (r, w')" "conn_ok fd p w" "sw_heap w p = Some sc"
  shows "conn_frame fd p w w'"
  using assms
  by (auto simp: conn_rxbuffer_def reinitialize_rxbuffer_def conn_frame_def same_conn_refl world_table_def
      split: prod.splits if_splits dest: sys_quiet_big_page)

lemma accept_contrx_ends:
  assumes "conn_ok fd p w"
  shows "\<exists>w'. accept_contrxfxn fd p w = Some w' \<and> conn_ends fd p w w'"
proof -
  obtain sc where sc: "ssl_conn p w = Some sc" "sw_heap w p = Some sc" using conn_ok_heap [OF assms] by auto
  obtain ret w1 where a: "ssl_accept w = (ret, w1)" by (cases "ssl_accept w")
  note fr1 = ssl_accept_frame [OF a assms]
  note ok1 = conn_frame_ok [OF fr1 assms]
  have h1: "sw_heap w1 p = Some sc" using a sc by (auto simp: ssl_accept_def w_sys_def split: prod.splits)
  obtain r w2 where b: "conn_rxbuffer p sc w1 = (r, w2)" by (cases "conn_rxbuffer p sc w1")
  note fr2 = conn_frame_trans [OF fr1 conn_rxbuffer_frame [OF b ok1 h1]]
  obtain err w2' where e: "ssl_get_error w1 = (err, w2')" by (cases "ssl_get_error w1")
  note fr2' = conn_frame_trans [OF fr1 ssl_get_error_frame [OF e ok1]]
  show ?thesis
    using sc a b e ends_after [OF assms fr2 set_restore_ends] ends_after [OF assms fr2 ssl_err_ends]
      ends_after [OF assms fr2' set_restore_ends] ends_after [OF assms fr2' ssl_restore_ends]
      ends_after [OF assms fr2' ssl_err_ends]
    by (auto simp: accept_contrxfxn_def)
qed

text \<open>The write continuation never touches the event queue.\<close>

fun is_epoll_ctl :: "syscall \<Rightarrow> bool" where
  "is_epoll_ctl (Sys_epoll_ctl _ _ _) = True"
| "is_epoll_ctl _ = False"

definition epoll_calls :: "sysst \<Rightarrow> syscall list" where
  "epoll_calls s = filter is_epoll_ctl (calls s)"

lemma epoll_calls_note: "\<not> is_epoll_ctl c \<Longrightarrow> epoll_calls (sys_note c s) = epoll_calls s"
  by (simp add: epoll_calls_def sys_note_def)

lemma epoll_calls_int: "sys_int c s = (r, s') \<Longrightarrow> \<not> is_epoll_ctl c \<Longrightarrow> epoll_calls s' = epoll_calls s"
  by (auto simp: epoll_calls_def sys_int_def split: prod.splits dest!: sys_call_calls)

lemma epoll_calls_big_page: "get_big_page ctx s = (ok, sz, s') \<Longrightarrow> epoll_calls s' = epoll_calls s"
  by (auto simp: get_big_page_def get_pages_def Let_def epoll_calls_def split: if_splits prod.splits dest!: sys_alloc_calls)

lemma ssl_err_epoll: "ssl_err fd p w = Some w' \<Longrightarrow> epoll_calls (sw_sys w') = epoll_calls (sw_sys w)"
  by (auto simp: ssl_err_def free_ssl_cbstate_def Let_def w_note_def free_rxbuffer_def dealloc_def epoll_calls_note
      split: if_splits option.splits)

lemma set_sources_sys: "set_sources fd rx tx w = Some w' \<Longrightarrow> sw_sys w' = sw_sys w"
  by (auto simp: set_sources_def split: option.splits)

lemma accept_conttx_ends:
  assumes "conn_ok fd p w"
  shows "\<exists>w'. accept_conttxfxn fd p w = Some w' \<and> conn_ends fd p w w' \<and>
    epoll_calls (sw_sys w') = epoll_calls (sw_sys w)"
proof -
  obtain sc where sc: "ssl_conn p w = Some sc" "sw_heap w p = Some sc" using conn_ok_heap [OF assms] by auto
  obtain ret w1 where a: "ssl_accept w = (ret, w1)" by (cases "ssl_accept w")
  note fr1 = ssl_accept_frame [OF a assms]
  note ok1 = conn_frame_ok [OF fr1 assms]
  have h1: "sw_heap w1 p = Some sc" and q1: "epoll_calls (sw_sys w1) = epoll_calls (sw_sys w)"
    using a sc by (auto simp: ssl_accept_def w_sys_def split: prod.splits dest!: epoll_calls_int)
  obtain r w2 where b: "conn_rxbuffer p sc w1 = (r, w2)" by (cases "conn_rxbuffer p sc w1")
  note fr2 = conn_frame_trans [OF fr1 conn_rxbuffer_frame [OF b ok1 h1]]
  note ok2 = conn_frame_ok [OF fr2 assms]
  have q2: "epoll_calls (sw_sys w2) = epoll_calls (sw_sys w)"
    using b q1 by (auto simp: conn_rxbuffer_def reinitialize_rxbuffer_def split: prod.splits if_splits
        dest!: epoll_calls_big_page)
  obtain err w3 where e: "ssl_get_error w1 = (err, w3)" by (cases "ssl_get_error w1")
  note fr3 = conn_frame_trans [OF fr1 ssl_get_error_frame [OF e ok1]]
  note ok3 = conn_frame_ok [OF fr3 assms]
  have q3: "epoll_calls (sw_sys w3) = epoll_calls (sw_sys w)"
    using e q1 by (auto simp: ssl_get_error_def w_sys_def split: prod.splits dest!: epoll_calls_int)
  have set: "\<exists>w'. set_sources fd rx tx v = Some w' \<and> conn_ends fd p v w' \<and> sw_sys w' = sw_sys v"
    if "conn_ok fd p v" for rx tx v
    using set_sources_frame [OF that, of rx tx] by (auto simp: conn_ends_def)
  have err: "\<exists>w'. ssl_err fd p v = Some w' \<and> conn_ends fd p v w' \<and> epoll_calls (sw_sys w') = epoll_calls (sw_sys v)"
    if "conn_ok fd p v" for v
    using ssl_err_ends [OF that] ssl_err_epoll by blast
  show ?thesis
    using sc a b e q2 q3 set [OF ok2, of "conn_rx sc" "conn_tx sc"] set [OF ok3, of "Some Cb_accept_contrxfxn" None]
      err [OF ok2] err [OF ok3] conn_frame_ends [OF fr2] conn_frame_ends [OF fr3] fr3
    by (auto simp: accept_conttxfxn_def conn_ends_def [of fd p w w3])
qed

text \<open>
  The entry of the descriptor after a step of the handshake that keeps the connection: the
  callbacks that its next event needs.
\<close>

definition handshake_entries :: "ssl_cbstate \<Rightarrow> (cbfn option \<times> cbfn option) set" where
  "handshake_entries sc =
     {(conn_rx sc, conn_tx sc), (None, Some Cb_accept_conttxfxn), (Some Cb_accept_contrxfxn, None)}"

section \<open>The listener\<close>

text \<open>The addresses that the system may still hand out.\<close>

definition addrs :: "ssl_world \<Rightarrow> nat set" where
  "addrs w = {nat (rv a) | a. a \<in> set (answers (sw_sys w)) \<and> 0 < rv a}"

lemma addrs_quiet: "sys_quiet fd (sw_sys w) (sw_sys w') \<Longrightarrow> addrs w' \<subseteq> addrs w"
  using sys_quiet_answers(2) unfolding addrs_def by blast

lemma sys_ptr_addr:
  assumes "sys_ptr c (sw_sys w) = (Some p, s)"
  shows "p \<in> addrs w \<and> p \<noteq> 0"
  using assms
  by (auto simp: sys_ptr_def sys_call_def failed_ret_def addrs_def split: list.splits prod.splits if_splits)

lemma create_ssl_cbstate_heap:
  assumes "create_ssl_cbstate ctxp st rx tx w = (q, w')"
  shows "case q of
      None \<Rightarrow> sw_heap w' = sw_heap w
    | Some c \<Rightarrow> c \<noteq> 0 \<and> c \<in> addrs w \<and> (\<exists>rxb. rxbuf_content rxb = [] \<and> sw_heap w' = (sw_heap w)(c \<mapsto>
        \<lparr>sc_sslctx = ctxp, sc_ssl = None, sc_cbstate = st, sc_rxfxn = rx, sc_txfxn = tx, sc_rxb = rxb\<rparr>))"
proof -
  obtain x s1 where p: "sys_ptr (Sys_malloc ''ssl_cbstate'') (sw_sys w) = (x, s1)" by (cases rule: prod.exhaust)
  obtain y s2 where i: "initialize_rxbuffer (sw_ctx w) s1 = (y, s2)" by (cases rule: prod.exhaust)
  show ?thesis
  proof (cases x)
    case None
    then show ?thesis using assms(1) p by (auto simp: create_ssl_cbstate_def w_sys_def)
  next
    case x: (Some c)
    note f = sys_ptr_addr [OF p [unfolded x]]
    show ?thesis
    proof (cases y)
      case None
      then show ?thesis using assms(1) p x i by (auto simp: create_ssl_cbstate_def w_sys_def w_note_def)
    next
      case (Some rxb)
      then show ?thesis using assms(1) p x i f initialize_rxbuffer_empty [OF i [unfolded Some]]
        by (auto simp: create_ssl_cbstate_def w_sys_def intro!: exI [of _ rxb])
    qed
  qed
qed

text \<open>
  The outcome of setting up the connection of object \<open>c\<close> on the descriptor \<open>sd\<close>: registered with the
  callbacks that its handshake needs, or freed.
\<close>

definition setup_outcome :: "int \<Rightarrow> nat \<Rightarrow> ssl_cbstate \<Rightarrow> ssl_world \<Rightarrow> int \<Rightarrow> ssl_world \<Rightarrow> bool" where
  "setup_outcome sd c csc w r w' \<longleftrightarrow>
     tables_wf (sw_ctx w') \<and> sys_quiet sd (sw_sys w) (sw_sys w') \<and>
     (r = 0 \<and> (\<exists>csc'. same_conn csc csc' \<and> sw_heap w' = (sw_heap w)(c \<mapsto> csc')) \<and>
        (\<exists>(rx, tx)\<in>handshake_entries csc. fd_entry (sw_ctx w') (nat sd) = Some (rx, tx, Ptr_obj c)) \<or>
      r \<noteq> 0 \<and> sw_heap w' = (sw_heap w)(c := None))"

lemma setup_outcome_after:
  assumes "setup_outcome sd c csc w1 r w'" "sys_quiet sd (sw_sys w) (sw_sys w1)"
    and "\<And>x. (sw_heap w1)(c := x) = (sw_heap w)(c := x)"
  shows "setup_outcome sd c csc w r w'"
  using assms sys_quiet_trans by (fastforce simp: setup_outcome_def)

lemma free_ssl_cbstate_eq:
  assumes "sw_heap w c = Some csc" "c \<noteq> 0"
  shows "\<exists>w'. free_ssl_cbstate c w = Some w' \<and> sw_heap w' = (sw_heap w)(c := None) \<and> sw_ctx w' = sw_ctx w \<and>
    sys_quiet sd (sw_sys w) (sw_sys w')"
proof -
  let ?s1 = "sys_note (Sys_ssl ''SSL_free'') (sw_sys w)"
  let ?s2 = "free_rxbuffer (sc_rxb csc) ?s1"
  have "sys_quiet sd (sw_sys w) ?s1" "sys_quiet sd ?s1 ?s2" "sys_quiet sd ?s2 (sys_note (Sys_free ''ssl_cbstate'') ?s2)"
    by (simp_all add: sys_quiet_note free_rxbuffer_def dealloc_def)
  then have "sys_quiet sd (sw_sys w) (sys_note (Sys_free ''ssl_cbstate'') ?s2)" by (meson sys_quiet_trans)
  then show ?thesis using assms by (simp add: free_ssl_cbstate_def Let_def w_note_def)
qed

lemma accept_fail_outcome:
  assumes "sw_heap w c = Some csc'" "c \<noteq> 0" "tables_wf (sw_ctx w)"
  shows "\<exists>r w'. accept_fail c w = Some (r, w') \<and> setup_outcome sd c csc w r w'"
  using free_ssl_cbstate_eq [OF assms(1,2), of sd] assms(3) by (auto simp: accept_fail_def setup_outcome_def)

lemma accept_register_outcome:
  assumes "sw_heap w c = Some csc'" "same_conn csc csc'" "c \<noteq> 0" "tables_wf (sw_ctx w)" "(rx, tx) \<in> handshake_entries csc"
  shows "\<exists>r w'. accept_register sd rx tx c w = Some (r, w') \<and> setup_outcome sd c csc w r w'"
proof -
  obtain r ctx s where a: "torque_addfd_unbuffered (sw_ctx w) sd rx tx (Ptr_obj c) (sw_sys w) = Some (r, ctx, s)"
    and wf: "tables_wf ctx" and q: "sys_quiet sd (sw_sys w) s"
    and e: "r = 0 \<longrightarrow> fd_entry ctx (nat sd) = Some (rx, tx, Ptr_obj c)"
  proof (cases "sd < 0")
    case True
    then show ?thesis using that assms(4) by (simp add: torque_addfd_unbuffered_def sys_quiet_refl)
  next
    case False
    then show ?thesis
      using add_fd_cases [OF assms(4), of sd rx tx "Ptr_obj c" EVONESHOT "sw_sys w"] that
      by (fastforce simp: torque_addfd_unbuffered_def split: if_splits dest: sys_quiet_add_fd)
  qed
  let ?w = "w\<lparr>sw_ctx := ctx, sw_sys := s\<rparr>"
  show ?thesis
  proof (cases "r = 0")
    case True
    have "sw_heap w = (sw_heap w)(c \<mapsto> csc')" using assms(1) by auto
    then show ?thesis using a True wf q e assms(2,5) by (force simp: accept_register_def setup_outcome_def)
  next
    case False
    obtain r' w' where "accept_fail c ?w = Some (r', w')" "setup_outcome sd c csc ?w r' w'"
      using accept_fail_outcome [of ?w c csc' sd csc] assms(1,3) wf by auto
    then show ?thesis using a False setup_outcome_after [of sd c csc ?w r' w' w] q
      by (simp add: accept_register_def)
  qed
qed

lemma accept_start_outcome:
  assumes "sw_heap w c = Some csc" "c \<noteq> 0" "tables_wf (sw_ctx w)"
  shows "\<exists>r w'. accept_start sd c csc w = Some (r, w') \<and> setup_outcome sd c csc w r w'"
proof -
  obtain ret s1 where a: "sys_int (Sys_ssl ''SSL_accept'') (sw_sys w) = (ret, s1)" by (cases rule: prod.exhaust)
  let ?w1 = "w\<lparr>sw_sys := s1\<rparr>"
  have q1: "sys_quiet sd (sw_sys w) s1" using sys_quiet_int [OF a] by simp
  obtain r rxb s2 where b: "reinitialize_rxbuffer (sw_ctx w) (sc_rxb csc) s1 = (r, rxb, s2)" by (cases rule: prod_cases3)
  let ?w2 = "w\<lparr>sw_sys := s2, sw_heap := (sw_heap w)(c \<mapsto> csc\<lparr>sc_rxb := rxb\<rparr>)\<rparr>"
  have q2: "sys_quiet sd (sw_sys w) s2"
    using b sys_quiet_trans [OF q1] by (auto simp: reinitialize_rxbuffer_def split: prod.splits if_splits dest: sys_quiet_big_page)
  obtain err s3 where e: "sys_int (Sys_ssl ''SSL_get_error'') s1 = (err, s3)" by (cases rule: prod.exhaust)
  let ?w3 = "w\<lparr>sw_sys := s3\<rparr>"
  have q3: "sys_quiet sd (sw_sys w) s3" using sys_quiet_trans [OF q1 sys_quiet_int [OF e]] by simp
  have ent: "(conn_rx csc, conn_tx csc) \<in> handshake_entries csc" "(None, Some Cb_accept_conttxfxn) \<in> handshake_entries csc"
    "(Some Cb_accept_contrxfxn, None) \<in> handshake_entries csc" by (simp_all add: handshake_entries_def)
  have lift2: "\<exists>r w'. x = Some (r, w') \<and> setup_outcome sd c csc w r w'"
    if "\<exists>r w'. x = Some (r, w') \<and> setup_outcome sd c csc ?w2 r w'" for x
    using that setup_outcome_after [of sd c csc ?w2 _ _ w] q2 by auto
  have lift3: "\<exists>r w'. x = Some (r, w') \<and> setup_outcome sd c csc w r w'"
    if "\<exists>r w'. x = Some (r, w') \<and> setup_outcome sd c csc ?w3 r w'" for x
    using that setup_outcome_after [of sd c csc ?w3 _ _ w] q3 by auto
  have "\<exists>r w'. accept_fail c ?w2 = Some (r, w') \<and> setup_outcome sd c csc w r w'"
    "\<exists>r w'. accept_register sd (conn_rx csc) (conn_tx csc) c ?w2 = Some (r, w') \<and> setup_outcome sd c csc w r w'"
    using accept_fail_outcome [of ?w2 c "csc\<lparr>sc_rxb := rxb\<rparr>" sd csc] assms(2,3) ent(1)
      accept_register_outcome [of ?w2 c "csc\<lparr>sc_rxb := rxb\<rparr>" csc "conn_rx csc" "conn_tx csc" sd]
    by (auto intro!: lift2 simp: same_conn_refl)
  moreover have "\<exists>r w'. accept_fail c ?w3 = Some (r, w') \<and> setup_outcome sd c csc w r w'"
    "\<exists>r w'. accept_register sd None (Some Cb_accept_conttxfxn) c ?w3 = Some (r, w') \<and> setup_outcome sd c csc w r w'"
    "\<exists>r w'. accept_register sd (Some Cb_accept_contrxfxn) None c ?w3 = Some (r, w') \<and> setup_outcome sd c csc w r w'"
    using accept_fail_outcome [of ?w3 c csc sd csc] assms ent(2,3)
      accept_register_outcome [of ?w3 c csc csc None "Some Cb_accept_conttxfxn" sd]
      accept_register_outcome [of ?w3 c csc csc "Some Cb_accept_contrxfxn" None sd]
    by (auto intro!: lift3 simp: same_conn_refl)
  ultimately show ?thesis using a b e
    by (simp add: accept_start_def ssl_accept_def ssl_get_error_def conn_rxbuffer_def w_sys_def)
qed

text \<open>A new connection's object has the listener's functions.\<close>

definition child_of :: "ssl_cbstate \<Rightarrow> ssl_cbstate \<Rightarrow> bool" where
  "child_of sc csc \<longleftrightarrow> sc_sslctx csc = sc_sslctx sc \<and> sc_cbstate csc = sc_cbstate sc \<and>
     sc_rxfxn csc = sc_rxfxn sc \<and> sc_txfxn csc = sc_txfxn sc \<and> sc_ssl csc \<noteq> None"

lemma child_of_same: "child_of sc csc \<Longrightarrow> same_conn csc csc' \<Longrightarrow> child_of sc csc'"
  by (cases csc; cases csc') (simp add: child_of_def same_conn_def)

lemma child_of_entries: "child_of sc csc \<Longrightarrow> handshake_entries csc = handshake_entries sc"
  by (simp add: child_of_def handshake_entries_def conn_rx_def conn_tx_def)

text \<open>The outcomes for an accepted descriptor: a connection in place, or nothing left of it.\<close>

definition accepted :: "int \<Rightarrow> ssl_cbstate \<Rightarrow> ssl_world \<Rightarrow> ssl_world \<Rightarrow> bool" where
  "accepted sd sc w w' \<longleftrightarrow> (\<exists>c csc. c \<noteq> 0 \<and> c \<in> addrs w \<and> sw_heap w' = (sw_heap w)(c \<mapsto> csc) \<and> child_of sc csc \<and>
     (\<exists>(rx, tx)\<in>handshake_entries sc. fd_entry (sw_ctx w') (nat sd) = Some (rx, tx, Ptr_obj c)))"

definition released :: "ssl_world \<Rightarrow> ssl_world \<Rightarrow> bool" where
  "released w w' \<longleftrightarrow> sw_heap w' = sw_heap w \<or> (\<exists>c\<in>addrs w. sw_heap w' = (sw_heap w)(c := None))"

definition tried :: "int \<Rightarrow> ssl_cbstate \<Rightarrow> ssl_world \<Rightarrow> int \<Rightarrow> ssl_world \<Rightarrow> bool" where
  "tried sd sc w r w' \<longleftrightarrow> tables_wf (sw_ctx w') \<and> sys_quiet sd (sw_sys w) (sw_sys w') \<and>
     (if r = 0 then accepted sd sc w w' else released w w')"

lemma sys_quiet_create:
  "create_ssl_cbstate ctxp st rx tx w = (q, w') \<Longrightarrow> sys_quiet sd (sw_sys w) (sw_sys w') \<and> sw_ctx w' = sw_ctx w"
  by (auto simp: create_ssl_cbstate_def w_sys_def w_note_def initialize_rxbuffer_def
      split: prod.splits option.splits if_splits
      dest!: sys_quiet_ptr [of _ _ _ _ sd] sys_quiet_big_page [of _ _ _ _ _ sd] intro: sys_quiet_trans
      simp: sys_quiet_after_note)

lemma setup_tried:
  assumes "setup_outcome sd c csc v r w'" "sys_quiet sd (sw_sys w) (sw_sys v)" "c \<noteq> 0" "c \<in> addrs w"
    and v: "\<And>x. (sw_heap v)(c := x) = (sw_heap w)(c := x)" and "r = 0 \<longrightarrow> child_of sc csc"
  shows "tried sd sc w r w'"
proof -
  have q: "sys_quiet sd (sw_sys w) (sw_sys w')" "tables_wf (sw_ctx w')"
    using assms(1,2) sys_quiet_trans unfolding setup_outcome_def by blast+
  show ?thesis
  proof (cases "r = 0")
    case True
    then have ch: "child_of sc csc" using assms(6) by simp
    from True assms(1) obtain csc' where "same_conn csc csc'" "sw_heap w' = (sw_heap w)(c \<mapsto> csc')"
      "\<exists>(rx, tx)\<in>handshake_entries csc. fd_entry (sw_ctx w') (nat sd) = Some (rx, tx, Ptr_obj c)"
      using v by (auto simp: setup_outcome_def)
    then have "accepted sd sc w w'"
      using assms(3,4) child_of_same [OF ch] child_of_entries [OF ch] unfolding accepted_def by blast
    then show ?thesis using q True by (simp add: tried_def)
  next
    case False
    then show ?thesis using assms(1,4) q v by (auto simp: tried_def setup_outcome_def released_def)
  qed
qed

lemma ssl_accept_internal_outcome:
  assumes "sw_heap w p = Some sc" "tables_wf (sw_ctx w)"
  shows "\<exists>r w'. ssl_accept_internal sd p w = Some (r, w') \<and> tried sd sc w r w'"
proof -
  obtain x w1 where c: "create_ssl_cbstate (sc_sslctx sc) (sc_cbstate sc) (sc_rxfxn sc) (sc_txfxn sc) w = (x, w1)"
    by (cases rule: prod.exhaust)
  note q1 = sys_quiet_create [OF c]
  show ?thesis
  proof (cases x)
    case None
    then show ?thesis using c assms create_ssl_cbstate_heap [OF c] q1 [of sd]
      by (simp add: ssl_accept_internal_def tried_def released_def)
  next
    case (Some c0)
    obtain rxb where c0: "c0 \<noteq> 0" "c0 \<in> addrs w" and h1: "sw_heap w1 = (sw_heap w)(c0 \<mapsto>
        \<lparr>sc_sslctx = sc_sslctx sc, sc_ssl = None, sc_cbstate = sc_cbstate sc, sc_rxfxn = sc_rxfxn sc,
         sc_txfxn = sc_txfxn sc, sc_rxb = rxb\<rparr>)" (is "_ = (sw_heap w)(c0 \<mapsto> ?csc0)")
      using create_ssl_cbstate_heap [OF c] Some by auto
    obtain z s2 where n: "sys_ptr (Sys_ssl ''SSL_new'') (sw_sys w1) = (z, s2)" by (cases rule: prod.exhaust)
    have q2: "sys_quiet sd (sw_sys w) s2" using q1 sys_quiet_trans [OF _ sys_quiet_ptr [OF n]] by simp
    show ?thesis
    proof (cases z)
      case None
      let ?v = "w1\<lparr>sw_sys := s2\<rparr>"
      obtain r w' where "accept_fail c0 ?v = Some (r, w')" "setup_outcome sd c0 ?csc0 ?v r w'" "r \<noteq> 0"
        using accept_fail_outcome [of ?v c0 ?csc0 sd ?csc0] h1 c0 q1 assms(2) by (auto simp: accept_fail_def)
      then show ?thesis using assms(1) c Some n None setup_tried [of sd c0 ?csc0 ?v r w' w sc] q2 c0 h1
        by (simp add: ssl_accept_internal_def w_sys_def)
    next
      case z: (Some q)
      let ?csc = "?csc0\<lparr>sc_ssl := Some q\<rparr>"
      obtain r s3 where f: "sys_int (Sys_ssl ''SSL_set_fd'') s2 = (r, s3)" by (cases rule: prod.exhaust)
      let ?v = "w1\<lparr>sw_heap := (sw_heap w)(c0 \<mapsto> ?csc), sw_sys := s3\<rparr>"
      have q3: "sys_quiet sd (sw_sys w) s3" using sys_quiet_trans [OF q2 sys_quiet_int [OF f]] by simp
      have "\<exists>r w'. accept_fail c0 ?v = Some (r, w') \<and> setup_outcome sd c0 ?csc ?v r w'"
        "\<exists>r w'. accept_start sd c0 ?csc ?v = Some (r, w') \<and> setup_outcome sd c0 ?csc ?v r w'"
        using accept_fail_outcome [of ?v c0 ?csc sd ?csc] accept_start_outcome [of ?v c0 ?csc sd] c0 q1 assms(2) by simp_all
      moreover have "ssl_accept_internal sd p w = (if r \<noteq> 1 then accept_fail c0 ?v else accept_start sd c0 ?csc ?v)"
        using assms(1) c Some n z f h1 by (simp add: ssl_accept_internal_def w_sys_def Let_def)
      ultimately obtain r w' where "ssl_accept_internal sd p w = Some (r, w')" "setup_outcome sd c0 ?csc ?v r w'"
        by (cases "r = 1") auto
      then show ?thesis using setup_tried [of sd c0 ?csc ?v r w' w sc] q3 c0 by (simp add: child_of_def)
    qed
  qed
qed

text \<open>One accepted descriptor: it is closed once with nothing left, or serves a new connection.\<close>

lemma accept_one_outcome:
  assumes "sw_heap w p = Some sc" "tables_wf (sw_ctx w)"
  shows "\<exists>w'. accept_one sd p w = Some w' \<and> tables_wf (sw_ctx w') \<and> (\<exists>n. answers (sw_sys w') = drop n (answers (sw_sys w))) \<and>
    (closes sd (sw_sys w') = closes sd (sw_sys w) + 1 \<and> released w w' \<or>
     closes sd (sw_sys w') = closes sd (sw_sys w) \<and> accepted sd sc w w')"
proof -
  obtain ok w1 where n: "nonblocking sd w = (ok, w1)" by (cases "nonblocking sd w")
  have w1: "sw_heap w1 = sw_heap w" "sw_ctx w1 = sw_ctx w" and q: "sys_quiet sd (sw_sys w) (sw_sys w1)"
    using n by (auto simp: nonblocking_def w_sys_def split: prod.splits if_splits
        dest!: sys_quiet_int [of _ _ _ _ sd] intro: sys_quiet_trans)
  obtain r w2 where a: "ssl_accept_internal sd p w1 = Some (r, w2)" and t: "tried sd sc w1 r w2"
    using ssl_accept_internal_outcome [of w1 p sc sd] w1 assms by auto
  have mono: "accepted sd sc w1 v \<Longrightarrow> accepted sd sc w v" "released w1 v \<Longrightarrow> released w v" for v
    using addrs_quiet [OF q] w1 unfolding accepted_def released_def by auto
  have q2: "sys_quiet sd (sw_sys w) (sw_sys w2)" using sys_quiet_trans [OF q] t by (simp add: tried_def)
  show ?thesis
  proof (cases "ok \<and> r = 0")
    case True
    then show ?thesis using n a t q2 mono(1) [of w2] by (auto simp: accept_one_def tried_def sys_quiet_def)
  next
    case False
    define v where "v = (if ok then w2 else w1)"
    have "sys_quiet sd (sw_sys w) (sw_sys v)" "tables_wf (sw_ctx v)" "released w v"
      using q q2 t w1 assms(2) False mono(2) [of w2] by (auto simp: tried_def released_def v_def)
    moreover have "accept_one sd p w = Some (w_note (Sys_close sd) v)" using n a False by (simp add: accept_one_def v_def)
    ultimately show ?thesis
      by (simp add: w_note_def closes_note sys_quiet_def released_def) (simp add: sys_note_def)
  qed
qed

lemma accept_one_keeps:
  assumes "sw_heap w p = Some sc" "tables_wf (sw_ctx w)"
  shows "\<exists>w'. accept_one sd p w = Some w' \<and> tables_wf (sw_ctx w') \<and> addrs w' \<subseteq> addrs w \<and>
    length (answers (sw_sys w')) \<le> length (answers (sw_sys w)) \<and> (\<forall>q. q \<notin> addrs w \<longrightarrow> sw_heap w' q = sw_heap w q)"
proof -
  obtain w' n where w': "accept_one sd p w = Some w'" "tables_wf (sw_ctx w')"
    and ans: "answers (sw_sys w') = drop n (answers (sw_sys w))"
    and h: "released w w' \<or> accepted sd sc w w'" using accept_one_outcome [OF assms] by blast
  have "addrs w' \<subseteq> addrs w" using ans by (auto simp: addrs_def dest: in_set_dropD)
  moreover have "\<forall>q. q \<notin> addrs w \<longrightarrow> sw_heap w' q = sw_heap w q"
    using h by (auto simp: released_def accepted_def)
  ultimately show ?thesis using w' ans by auto
qed

lemma listener_returns:
  assumes "sw_heap w p = Some sc" "p \<notin> addrs w" "tables_wf (sw_ctx w)"
  shows "\<exists>w'. ssl_accept_rxfxn fd p w = Some w' \<and> rearmed fd (sw_sys w') \<and> tables_wf (sw_ctx w') \<and>
    (\<forall>q. q \<notin> addrs w \<longrightarrow> sw_heap w' q = sw_heap w q)"
  using assms
proof (induction "length (answers (sw_sys w))" arbitrary: w rule: less_induct)
  case less
  obtain sd s1 where a: "sys_int (Sys_accept fd) (sw_sys w) = (sd, s1)" by (cases rule: prod.exhaust)
  let ?w1 = "w\<lparr>sw_sys := s1\<rparr>"
  have w1: "w_sys (sys_int (Sys_accept fd)) w = (sd, ?w1)" using a by (simp add: w_sys_def)
  have sub: "addrs ?w1 \<subseteq> addrs w" using sys_quiet_int [OF a, of 0] by (intro addrs_quiet [of 0]) simp
  have less1: "length (answers s1) < length (answers (sw_sys w))" if "0 \<le> sd \<or> errno s1 = EINTR"
    using a that by (auto simp: sys_int_def sys_call_def failed_ret_def split: list.splits)
  show ?case
  proof (cases "sd < 0 \<and> errno s1 \<noteq> EINTR")
    case True
    obtain r w2 where r: "w_sys (restorefd fd EVREAD) ?w1 = (r, w2)" by (cases "w_sys (restorefd fd EVREAD) ?w1")
    then have "sw_heap w2 = sw_heap w" "sw_ctx w2 = sw_ctx w" by (auto simp: w_sys_def split: prod.splits)
    then show ?thesis using True w1 r restorefd_rearms [OF r] less.prems by (subst ssl_accept_rxfxn.simps) simp
  next
    case False
    obtain w2 where o: "if sd < 0 then w2 = ?w1 else accept_one sd p ?w1 = Some w2"
      and wf: "tables_wf (sw_ctx w2)" and s2: "addrs w2 \<subseteq> addrs w"
      and l2: "length (answers (sw_sys w2)) \<le> length (answers s1)"
      and h2: "\<forall>q. q \<notin> addrs w \<longrightarrow> sw_heap w2 q = sw_heap w q"
    proof (cases "sd < 0")
      case True
      then show ?thesis using that [of ?w1] sub less.prems by simp
    next
      case False
      then show ?thesis using that accept_one_keeps [of ?w1 p sc sd] sub less.prems by fastforce
    qed
    have lt: "length (answers (sw_sys w2)) < length (answers (sw_sys w))" using less1 False l2 by linarith
    have p2: "sw_heap w2 p = Some sc" "p \<notin> addrs w2" using h2 s2 less.prems by auto
    obtain w' where w': "ssl_accept_rxfxn fd p w2 = Some w'" "rearmed fd (sw_sys w')" "tables_wf (sw_ctx w')"
      "\<forall>q. q \<notin> addrs w2 \<longrightarrow> sw_heap w' q = sw_heap w2 q" using less.hyps [OF lt p2 wf] by blast
    have "ssl_accept_rxfxn fd p w = ssl_accept_rxfxn fd p w2"
      using False w1 o by (subst ssl_accept_rxfxn.simps) (auto split: if_splits)
    then show ?thesis using w' h2 s2 by auto
  qed
qed

section \<open>Locks\<close>

text \<open>\<open>n\<close> mutexes, all initialised.\<close>

definition locks_ready :: "nat \<Rightarrow> ssl_globals \<Rightarrow> bool" where
  "locks_ready n g \<longleftrightarrow> numlocks g = n \<and> openssl_locks g = (if n = 0 then None else Some (replicate n True))"

definition locked_upto :: "nat \<Rightarrow> nat \<Rightarrow> ssl_globals \<Rightarrow> bool" where
  "locked_upto n z g \<longleftrightarrow> numlocks g = n \<and> openssl_locks g = Some (replicate z True @ replicate (n - z) False)"

lemma undo_locks_total:
  assumes "openssl_locks g = Some (replicate z True @ ms)"
  shows "\<exists>g' s'. undo_locks z g s = Some (g', s')"
  using assms
proof (induction z arbitrary: g s ms)
  case 0
  then show ?case by simp
next
  case (Suc z)
  obtain r s1 where r: "sys_int (Sys_pthread ''mutex_destroy'') s = (r, s1)" by (cases rule: prod.exhaust)
  let ?ms = "replicate z True @ True # ms"
  have g: "openssl_locks g = Some ?ms" using Suc.prems by (simp add: replicate_app_Cons_same)
  have "?ms[z := False] = replicate z True @ False # ms" by (simp add: list_update_append)
  then show ?case using Suc.IH [of "g\<lparr>openssl_locks := Some (?ms[z := False])\<rparr>"] g r
    by (simp add: mutex_destroy_def nth_append)
qed

lemma init_locks_outcome:
  assumes "locked_upto n z g" "z + k = n"
  shows "\<exists>r g' s'. init_locks k z g s = Some (r, g', s') \<and>
    (r = 0 \<and> locked_upto n n g' \<or> r = - 1 \<and> locks_ready 0 g')"
  using assms
proof (induction k arbitrary: z g s)
  case 0
  then show ?case by simp
next
  case (Suc k)
  obtain r s1 where r: "sys_int (Sys_pthread ''mutex_init'') s = (r, s1)" by (cases rule: prod.exhaust)
  have g: "openssl_locks g = Some (replicate z True @ replicate (n - z) False)" using Suc.prems by (simp add: locked_upto_def)
  have "n - z = Suc k" "n - Suc z = k" using Suc.prems(2) by simp_all
  then have "(replicate z True @ replicate (n - z) False)[z := True] = replicate (Suc z) True @ replicate (n - Suc z) False"
    by (simp add: list_update_append replicate_app_Cons_same)
  then have nx: "locked_upto n (z + 1) (g\<lparr>openssl_locks := map_option (\<lambda>ms. ms[z := True]) (openssl_locks g)\<rparr>)"
    using g Suc.prems by (simp add: locked_upto_def)
  obtain g' s' where u: "undo_locks z g s1 = Some (g', s')" using undo_locks_total [OF g] by blast
  show ?case using Suc.IH [OF nx] Suc.prems r u by (auto simp: locks_ready_def)
qed

lemma destroy_locks_outcome:
  assumes "openssl_locks g = Some (replicate z False @ replicate k True)"
  shows "\<exists>r g' s'. destroy_locks k z ret g s = Some (r, g', s')"
  using assms
proof (induction k arbitrary: z ret g s)
  case 0
  then show ?case by simp
next
  case (Suc k)
  obtain r s1 where r: "sys_int (Sys_pthread ''mutex_destroy'') s = (r, s1)" by (cases rule: prod.exhaust)
  let ?ms = "replicate z False @ True # replicate k True"
  have "?ms[z := False] = replicate (Suc z) False @ replicate k True"
    by (simp add: list_update_append replicate_app_Cons_same)
  then show ?case using Suc.IH [of "g\<lparr>openssl_locks := Some (?ms[z := False])\<rparr>" "Suc z"] Suc.prems r
    by (simp add: mutex_destroy_def nth_append)
qed

lemma torque_stop_ssl_ready:
  assumes "locks_ready n g"
  shows "\<exists>r g' s'. torque_stop_ssl g s = Some (r, g', s') \<and> locks_ready 0 g'"
proof -
  have "\<exists>r g' s'. destroy_locks n 0 0 g t = Some (r, g', s')" for t
    using assms destroy_locks_outcome [of g 0 n 0 t] by (cases "n = 0") (simp_all add: locks_ready_def)
  then show ?thesis using assms by (auto simp: torque_stop_ssl_def Let_def locks_ready_def split: option.splits prod.splits)
qed

lemma torque_init_ssl_outcome:
  assumes "locks_ready 0 g"
  shows "\<exists>r g' s'. torque_init_ssl g s = Some (r, g', s') \<and>
    (r = 0 \<and> (\<exists>n. locks_ready n g') \<or> r = - 1 \<and> (locks_ready 0 g' \<or> 0 < numlocks g' \<and> openssl_locks g' = None))"
proof -
  obtain r1 s1 where 1: "sys_int (Sys_ssl ''SSL_library_init'') s = (r1, s1)" by (cases rule: prod.exhaust)
  obtain r2 s2 where 2: "sys_int (Sys_ssl ''RAND_status'') s1 = (r2, s2)" by (cases rule: prod.exhaust)
  obtain n s3 where 3: "sys_int (Sys_ssl ''CRYPTO_num_locks'') s2 = (n, s3)" by (cases rule: prod.exhaust)
  obtain ok s4 where 4: "sys_alloc (Sys_malloc ''openssl_locks'') s3 = (ok, s4)" by (cases rule: prod.exhaust)
  let ?g = "g\<lparr>numlocks := nat n, openssl_locks := Some (replicate (nat n) False)\<rparr>"
  obtain r g' s' where 5: "init_locks (nat n) 0 ?g s4 = Some (r, g', s')"
    and o: "r = 0 \<and> locked_upto (nat n) (nat n) g' \<or> r = - 1 \<and> locks_ready 0 g'"
    using init_locks_outcome [of "nat n" 0 ?g "nat n" s4] by (auto simp: locked_upto_def)
  have rdy: "locked_upto (nat n) (nat n) g' \<Longrightarrow> 0 < n \<Longrightarrow> locks_ready (nat n) g'"
    by (simp add: locked_upto_def locks_ready_def)
  show ?thesis using assms 1 2 3 4 5 o rdy
    by (auto simp: torque_init_ssl_def Let_def locks_ready_def)
qed

section \<open>Properties\<close>

text \<open>A world with one connection, for the witnesses: object 1 on descriptor 0, with the echo client.\<close>

definition sample_conn :: ssl_cbstate where
  "sample_conn = \<lparr>sc_sslctx = 7, sc_ssl = Some 8, sc_cbstate = 9, sc_rxfxn = Some 5, sc_txfxn = None,
     sc_rxb = \<lparr>rx_buffer = [0, 0, 0, 0], rx_buftot = 4, rx_bufoff = 0, rx_bufate = 0\<rparr>\<rparr>"

definition sample_tls :: "sysret list \<Rightarrow> ssl_world" where
  "sample_tls as = \<lparr>sw_ctx = sample_table, sw_heap = [1 \<mapsto> sample_conn], sw_sys = os_answering as\<rparr>"

lemma sample_tls_ok: "conn_ok 0 1 (sample_tls as)" "tables_wf (sw_ctx (sample_tls as))" "sw_heap (sample_tls as) 1 = Some sample_conn"
  by (simp_all add: conn_ok_def ssl_conn_def sample_tls_def sample_conn_def world_table_def sample_table_def tables_wf_def)









text \<open>
  Fact: registering a listener. \<open>torque_addssl\<close> returns; on success the descriptor's entry is the
  accepting callback with the new object, on failure the error is \<open>TORQUE_ERR_RESOURCE\<close> and no object is left.
\<close>

theorem torque_addssl_outcomes:
  assumes "tables_wf (sw_ctx w)"
  shows "\<exists>r w'. torque_addssl fd sslctx rx tx state w = Some (r, w') \<and> tables_wf (sw_ctx w') \<and>
    (r = 0 \<and> (\<exists>p\<in>addrs w. fd_entry (sw_ctx w') (nat fd) = Some (Some Cb_ssl_accept_rxfxn, None, Ptr_obj p) \<and>
        (\<exists>sc. sw_heap w' = (sw_heap w)(p \<mapsto> sc) \<and> sc_rxfxn sc = rx \<and> sc_txfxn sc = tx \<and> sc_cbstate sc = state)) \<or>
     r = TORQUE_ERR_RESOURCE \<and> released w w')"
proof -
  obtain x w1 where c: "create_ssl_cbstate sslctx state rx tx w = (x, w1)" by (cases rule: prod.exhaust)
  note h = create_ssl_cbstate_heap [OF c]
  have ctx: "sw_ctx w1 = sw_ctx w" using sys_quiet_create [OF c] by simp
  show ?thesis
  proof (cases x)
    case None
    then show ?thesis using c h ctx assms by (simp add: torque_addssl_def released_def)
  next
    case (Some p)
    then obtain sc where p: "p \<noteq> 0" "p \<in> addrs w" and h1: "sw_heap w1 = (sw_heap w)(p \<mapsto> sc)"
      and sc: "sc_rxfxn sc = rx" "sc_txfxn sc = tx" "sc_cbstate sc = state" using h by auto
    obtain r ctx' s where a: "torque_addfd_unbuffered (sw_ctx w1) fd (Some Cb_ssl_accept_rxfxn) None (Ptr_obj p) (sw_sys w1) =
        Some (r, ctx', s)" and wf: "tables_wf ctx'"
      and e: "r = 0 \<longrightarrow> fd_entry ctx' (nat fd) = Some (Some Cb_ssl_accept_rxfxn, None, Ptr_obj p)"
    proof (cases "fd < 0")
      case True
      then show ?thesis using that assms ctx by (simp add: torque_addfd_unbuffered_def)
    next
      case False
      then show ?thesis using that ctx
          add_fd_cases [OF assms, of fd "Some Cb_ssl_accept_rxfxn" None "Ptr_obj p" EVONESHOT "sw_sys w1"]
        by (fastforce simp: torque_addfd_unbuffered_def split: if_splits)
    qed
    let ?w2 = "w1\<lparr>sw_ctx := ctx', sw_sys := s\<rparr>"
    obtain w3 where f: "free_ssl_cbstate p ?w2 = Some w3" "sw_heap w3 = (sw_heap w1)(p := None)" "sw_ctx w3 = ctx'"
      using free_ssl_cbstate_eq [of ?w2 p sc] h1 p(1) by auto
    show ?thesis using c Some a wf e f p(2) h1 sc by (cases "r = 0") (auto simp: torque_addssl_def Let_def released_def)
  qed
qed

theorem torque_addssl_outcomes_witness:
  "\<exists>r w'. torque_addssl 0 7 (Some 5) None 9 (sample_tls []) = Some (r, w') \<and> (r = 0 \<or> released (sample_tls []) w')"
  using torque_addssl_outcomes [OF sample_tls_ok(2), of 0 7 "Some 5" None 9 "[]"] by blast



text \<open>
  Fact: a handshake that waits to write is not continued. The descriptor is registered for one
  event only, and \<open>accept_conttxfxn\<close>, which takes that event, never arms it again: it makes no call on the
  event queue, whether the handshake is complete or still wants to read or write.
\<close>

theorem accept_conttx_never_rearms:
  assumes "conn_ok fd p w"
  shows "\<exists>w'. accept_conttxfxn fd p w = Some w' \<and> epoll_calls (sw_sys w') = epoll_calls (sw_sys w)"
  using accept_conttx_ends [OF assms] by blast

theorem accept_conttx_never_rearms_witness:
  "\<exists>w'. accept_conttxfxn 0 1 (sample_tls [zero_ret, ok_ret\<lparr>rv := 3\<rparr>]) = Some w' \<and> epoll_calls (sw_sys w') = []"
proof -
  have "epoll_calls (sw_sys (sample_tls [zero_ret, ok_ret\<lparr>rv := 3\<rparr>])) = []"
    by (simp add: epoll_calls_def sample_tls_def os_answering_def)
  then show ?thesis using accept_conttx_never_rearms [OF sample_tls_ok(1), of "[zero_ret, ok_ret\<lparr>rv := 3\<rparr>]"] by simp
qed

text \<open>
  Fact: \<open>torque_ssl_ctx\<close> tests that the option \<open>SSL_OP_NO_SSLv2\<close> is among those set. Versions of OpenSSL that
  dropped SSLv2 define the option as 0, and the function then always fails.
\<close>

theorem ssl_ctx_needs_sslv2: "fst (torque_ssl_ctx 0 certfile keyfile cafile s) = None"
  by (simp add: torque_ssl_ctx_def ssl_ctx_fail_def split: prod.splits option.splits)

end
