(* ===== verification/Lifecycle.thy ===== *)
theory Lifecycle
  imports Shutdown Dispatch Echoserver Tls
begin

text \<open>
  The components together: what \<open>torque_init\<close> starts is what \<open>torque_stop\<close> ends, a round of one thread's event loop is a run of
  the step relation of all threads, and what a client registers is what is called with its own state.
\<close>

section \<open>The threads of a context\<close>

text \<open>The handlers of \<open>ctx'\<close> are those of \<open>ctx\<close> after the threads \<open>tids\<close> have entered, in this order.\<close>

definition linked :: "torque_ctx \<Rightarrow> nat list \<Rightarrow> torque_ctx \<Rightarrow> bool" where
  "linked ctx tids ctx' \<longleftrightarrow>
     ctx_ev ctx' = ctx_ev (fold link_thread tids ctx) \<and> ctx_nexttid ctx' = ctx_nexttid (fold link_thread tids ctx)"

lemma link_thread_cong:
  "ctx_ev a = ctx_ev b \<Longrightarrow> ctx_nexttid a = ctx_nexttid b \<Longrightarrow>
   ctx_ev (link_thread t a) = ctx_ev (link_thread t b) \<and> ctx_nexttid (link_thread t a) = ctx_nexttid (link_thread t b)"
  by (simp add: link_thread_def split: option.splits)

lemma linked_cong:
  "ctx_ev a = ctx_ev b \<Longrightarrow> ctx_nexttid a = ctx_nexttid b \<Longrightarrow> linked a tids ctx' = linked b tids ctx'"
proof (induction tids arbitrary: a b)
  case (Cons t tids)
  from Cons.IH [of "link_thread t a" "link_thread t b"] link_thread_cong [OF Cons.prems, of t] show ?case
    by (simp add: linked_def)
qed (simp add: linked_def)

lemma linked_nil: "linked ctx [] ctx' \<longleftrightarrow> ctx_ev ctx' = ctx_ev ctx \<and> ctx_nexttid ctx' = ctx_nexttid ctx"
  by (simp add: linked_def)

lemma linked_trans: "linked a xs b \<Longrightarrow> linked b ys c \<Longrightarrow> linked a (xs @ ys) c"
  using linked_cong [of "fold link_thread xs a" b ys c] by (simp add: linked_def)

lemma spawn_thread_linked: "spawn_thread ctx s = (0, ctx', s') \<Longrightarrow> \<exists>tid. linked ctx [tid] ctx'"
  using spawn_thread_cases [of ctx s 0 ctx' s'] by (auto simp: linked_def)

lemma record_cputype_linked: "record_cputype ctx d s = (r, ctx', s') \<Longrightarrow> linked ctx [] ctx'"
  by (auto simp: record_cputype_def add_cputype_def linked_nil split: option.splits prod.splits if_splits)

lemma cputype_step_linked:
  assumes "cputype_step avail cpuids aid ctx tm s = Some (0, ctx', tm', s')"
  shows "\<exists>tid. linked ctx [tid] ctx'"
proof -
  obtain d s1 i ctx1 s2 zs s3 where r: "record_cputype ctx d s1 = (Some i, ctx1, s2)"
    and sp: "spawn_thread (ctx1\<lparr>ctx_sched_zone := zs\<rparr>) s3 = (0, ctx', s')"
    using assms by (auto simp: cputype_step_def Let_def split: option.splits prod.splits if_splits)
  obtain tid where "linked (ctx1\<lparr>ctx_sched_zone := zs\<rparr>) [tid] ctx'" using spawn_thread_linked [OF sp] by blast
  moreover have "linked ctx [] (ctx1\<lparr>ctx_sched_zone := zs\<rparr>)" using record_cputype_linked [OF r] by (simp add: linked_nil)
  ultimately have "linked ctx ([] @ [tid]) ctx'" using linked_trans by blast
  then show ?thesis by auto
qed

lemma cputypes_loop_linked:
  assumes "cputypes_loop avail cpuids cset n z aid ctx tm s = Some (0, ctx', s')"
  shows "\<exists>tids. length tids = n - z \<and> linked ctx tids ctx'"
  using assms
proof (induction avail cpuids cset n z aid ctx tm s rule: cputypes_loop.induct)
  case (1 avail cpuids cset n z aid ctx tm s)
  show ?case
  proof (cases "z < n")
    case False
    then show ?thesis using "1.prems" by (simp add: cputypes_loop.simps [of _ _ _ n z] linked_nil)
  next
    case True
    let ?a = "scan_aid cset aid"
    have ne: "?a \<noteq> CPU_SETSIZE" using "1.prems" True by (auto simp: cputypes_loop.simps [of _ _ _ n z] Let_def)
    obtain ctx1 tm1 s1 where st: "cputype_step avail cpuids ?a ctx tm s = Some (0, ctx1, tm1, s1)"
      and go: "cputypes_loop avail cpuids cset n (z + 1) (?a + 1) ctx1 tm1 s1 = Some (0, ctx', s')"
      using "1.prems" True ne by (auto simp: cputypes_loop.simps [of _ _ _ n z] Let_def split: option.splits prod.splits if_splits)
    obtain tids where t: "length tids = n - (z + 1)" "linked ctx1 tids ctx'"
      using "1.IH" [OF True refl ne st refl refl refl] go by auto
    obtain tid where "linked ctx [tid] ctx1" using cputype_step_linked [OF st] by blast
    from linked_trans [OF this t(2)] show ?thesis using t(1) True by (intro exI [of _ "[tid] @ tids"]) simp
  qed
qed

lemma detect_cputypes_linked:
  assumes "detect_cputypes avail cpuids ctx s = Some (0, ctx', s')"
  shows "\<exists>tids. length tids = card (affinity_mask s) \<and> linked ctx tids ctx'"
proof -
  obtain n cset s1 where c: "detect_cpucount s = (n, cset, s1)" by (cases rule: prod_cases3)
  have err: "q \<noteq> 0 \<Longrightarrow> cputypes_err q m c t \<noteq> Some (0, ctx', s')" for q m c t
    by (auto simp: cputypes_err_def split: option.splits)
  let ?ctx0 = "ctx\<lparr>ctx_cpu_typecount := 0, ctx_cpudescs := []\<rparr>"
  obtain s2 s3 where n0: "n \<noteq> 0" and go: "cputypes_loop avail cpuids cset n 0 0 ?ctx0 (replicate n zero_top_map) s2 = Some (0, ctx', s3)"
    using assms c err by (auto simp: detect_cputypes_def Let_def split: option.splits prod.splits if_splits)
  have "n = card (affinity_mask s)"
    using n0 c by (auto simp: affinity_mask_def detect_cpucount_def portable_cpuset_count_def cpuset_count_from_eq
        atLeast0LessThan split: prod.splits if_splits)
  moreover obtain tids where "length tids = n" "linked ?ctx0 tids ctx'" using cputypes_loop_linked [OF go] by auto
  moreover have "linked ?ctx0 tids ctx' = linked ctx tids ctx'" by (rule linked_cong) simp_all
  ultimately show ?thesis by auto
qed

lemma cuda_loop_linked: "cuda_loop devs i ctx s = (r, ctx', s') \<Longrightarrow> linked ctx [] ctx'"
  by (rule cuda_loop_preserves [where Q = "linked ctx []"]) (auto simp: linked_nil dest!: record_cputype_linked)

lemma detect_architecture_linked:
  assumes "detect_architecture avail cpuids ver ctx s = Some (0, ctx', s')"
  shows "\<exists>tids. length tids = card (affinity_mask s) \<and> linked ctx tids ctx'"
proof -
  obtain ctx1 s1 ctx2 s2 where d: "detect_cputypes avail cpuids ctx s = Some (0, ctx1, s1)"
    "detect_cuda ver ctx1 s1 = (0, ctx2, s2)" "detect_memories ctx2 s2 = (0, ctx', s')"
    using detect_architecture_cases [OF assms] by auto
  obtain tids where t: "length tids = card (affinity_mask s)" "linked ctx tids ctx1" using detect_cputypes_linked [OF d(1)] by blast
  have "linked ctx1 [] ctx2" using d(2) cuda_loop_linked by (auto simp: detect_cuda_def split: prod.splits if_splits)
  moreover have "linked ctx2 [] ctx'" using detect_memories_result(3) [OF d(3)] by (auto simp: linked_nil)
  ultimately show ?thesis using t by (auto simp: linked_def)
qed

lemma linked_dom:
  "dom (ctx_nexttid (fold link_thread tids ctx)) \<subseteq> dom (ctx_nexttid ctx) \<union> set_option (ctx_ev ctx) \<union> set tids"
proof (induction tids arbitrary: ctx)
  case (Cons t tids)
  have "dom (ctx_nexttid (link_thread t ctx)) \<union> set_option (ctx_ev (link_thread t ctx)) \<subseteq>
      dom (ctx_nexttid ctx) \<union> set_option (ctx_ev ctx) \<union> {t}"
    by (auto simp: link_thread_def split: option.splits if_splits)
  then show ?case using Cons.IH [of "link_thread t ctx"] by (simp, blast)
qed simp

text \<open>When no identifier was given twice, the threads form the circle that the shutdown relies on.\<close>

lemma linked_thread_ring:
  assumes "linked ctx0 tids ctx" "ctx_ev ctx0 = None" "ctx_nexttid ctx0 = Map.empty"
    and "card (dom (ctx_nexttid ctx)) = length tids"
  shows "\<exists>ts. thread_ring ctx ts \<and> set ts = dom (ctx_nexttid ctx)"
proof -
  have "dom (ctx_nexttid ctx) \<subseteq> set tids" using linked_dom [of tids ctx0] assms(1-3) by (simp add: linked_def)
  then have "length tids \<le> card (set tids)" using assms(4) card_mono [OF finite_set] by metis
  then have "distinct tids" by (simp add: card_distinct card_length le_antisym)
  then obtain ts where "thread_ring (fold link_thread tids ctx0) ts" using linked_ring [OF assms(2,3)] by blast
  then have "thread_ring ctx ts" using assms(1) by (cases ts) (simp_all add: linked_def thread_ring_def)
  then show ?thesis by (auto simp: thread_ring_def)
qed

definition placed_cpus :: "zone list \<Rightarrow> nat set" where
  "placed_cpus zs = (\<Union>z\<in>set zs. schedulable z)"

lemma topo_rep_placed: "topo_rep zs pm \<Longrightarrow> placed_cpus zs = dom pm"
  by (fastforce simp: topo_rep_def package_ok_def placed_cpus_def dom_def)

lemma create_torque_ctx_threads:
  "create_torque_ctx raw s = Some (e, Some ctx, s') \<Longrightarrow> ctx_ev ctx = None \<and> ctx_nexttid ctx = Map.empty"
  by (auto simp: create_torque_ctx_def split: prod.splits option.splits if_splits)

lemma torque_init_threads:
  assumes "torque_init avail cpuids ver raw s = Some (e, Some ctx, s')"
  shows "\<exists>ctx0 tids. linked ctx0 tids ctx \<and> ctx_ev ctx0 = None \<and> ctx_nexttid ctx0 = Map.empty \<and>
    length tids = card (placed_cpus (ctx_sched_zone ctx)) \<and> tids \<noteq> []"
proof -
  obtain s2 s3 e0 ctx0 s4 where c: "create_torque_ctx raw s2 = Some (e0, Some ctx0, s3)"
    and d: "detect_architecture avail cpuids ver ctx0 s3 = Some (0, ctx, s4)"
    using torque_init_cases [OF assms] by blast
  have "ctx_sched_zone ctx0 = []" using create_torque_ctx_ok [OF c] by (simp add: hw_empty_def)
  then obtain pm where pm: "topo_rep (ctx_sched_zone ctx) pm" "dom pm = affinity_mask s3" "affinity_mask s3 \<noteq> {}"
    using detect_architecture_lookup [OF d] by blast
  obtain tids where t: "length tids = card (affinity_mask s3)" "linked ctx0 tids ctx"
    using detect_architecture_linked [OF d] by blast
  have "finite (affinity_mask s3)" by (auto simp: affinity_mask_def split: prod.splits)
  then have "tids \<noteq> []" using t(1) pm(3) by auto
  then show ?thesis using t pm topo_rep_placed create_torque_ctx_threads [OF c] by metis
qed

section \<open>A round of the event loop\<close>

text \<open>The kernel after callbacks have ended one after the other, each in its own way.\<close>

definition apply_exits :: "(invocation \<times> rx_exit) list \<Rightarrow> epoll \<Rightarrow> epoll" where
  "apply_exits ps k = foldl (\<lambda>k ((f, n, v), x). exit_effect (int n) x k) k ps"

lemma apply_exits_simps [simp]:
  "apply_exits [] k = k"
  "apply_exits (((f, n, v), x) # ps) k = apply_exits ps (exit_effect (int n) x k)"
  "apply_exits (ps @ qs) k = apply_exits qs (apply_exits ps k)"
  by (simp_all add: apply_exits_def)

lemma handle_event_source:
  assumes "handle_event (\<lambda>_ c. c) ctx e = Some (c', ivs)"
  shows "c' = ctx" "\<forall>(f, n, v)\<in>set ivs. n = nat (fst e)"
  using assms
  by (auto simp: handle_event_def handle_evsource_read_def handle_evsource_write_def run_invocations_def Let_def
      split: if_splits option.splits)

abbreviation move :: "nat \<Rightarrow> thread_pos \<Rightarrow> epoll \<Rightarrow> threads_st \<Rightarrow> threads_st" where
  "move i p k d \<equiv> d\<lparr>kern := k, thr := (thr d)[i := p]\<rparr>"

lemma run_calls:
  assumes "i < length (thr d)" "thr d ! i = Calling fd ivs es" "\<forall>(f, n, v)\<in>set ivs. int n = fd" "length xs = length ivs"
  shows "(dispatch ctx flags vsizes)\<^sup>*\<^sup>* d (move i (Handling es) (apply_exits (zip ivs xs) (kern d)) d)"
  using assms
proof (induction ivs arbitrary: d xs)
  case Nil
  then show ?case using dispatch.handled [OF Nil.prems(1,2)] by (simp add: r_into_rtranclp)
next
  case (Cons iv ivs)
  obtain f n v where iv: "iv = (f, n, v)" by (cases iv)
  obtain x ys where xs: "xs = x # ys" using Cons.prems(4) by (cases xs) auto
  let ?d = "move i (Calling fd ivs es) (exit_effect fd x (kern d)) d"
  have "dispatch ctx flags vsizes d ?d" using dispatch.finish [OF Cons.prems(1,2)] .
  moreover have "(dispatch ctx flags vsizes)\<^sup>*\<^sup>* ?d (move i (Handling es) (apply_exits (zip ivs ys) (kern ?d)) ?d)"
    using Cons.prems xs by (intro Cons.IH) auto
  ultimately show ?case using Cons.prems(3) iv xs by (simp add: converse_rtranclp_into_rtranclp)
qed

lemma run_events:
  assumes "handle_events (\<lambda>_ c. c) ctx es = Some (c', ivs)" "\<forall>e\<in>set es. 0 \<le> fst e" "length xs = length ivs"
    and "i < length (thr d)" "thr d ! i = Handling es"
  shows "(dispatch ctx flags vsizes)\<^sup>*\<^sup>* d (move i Polling (apply_exits (zip ivs xs) (kern d)) d)"
  using assms
proof (induction es arbitrary: d ivs xs)
  case Nil
  then show ?case using dispatch.again [OF Nil.prems(4,5)] by (simp add: r_into_rtranclp)
next
  case (Cons e es)
  obtain c1 inv1 inv2 where h1: "handle_event (\<lambda>_ c. c) ctx e = Some (c1, inv1)"
    and hs1: "handle_events (\<lambda>_ c. c) c1 es = Some (c', inv2)" and ivs: "ivs = inv1 @ inv2"
    using Cons.prems(1) by (auto split: option.splits)
  note c1 = handle_event_source(1) [OF h1]
  note h = h1 [unfolded c1] and hs = hs1 [unfolded c1]
  define x1 x2 where "x1 = take (length inv1) xs" and "x2 = drop (length inv1) xs"
  have len: "length x1 = length inv1" "length x2 = length inv2" using Cons.prems(3) ivs by (auto simp: x1_def x2_def)
  have "xs = x1 @ x2" by (simp add: x1_def x2_def)
  then have z: "zip ivs xs = zip inv1 x1 @ zip inv2 x2" using ivs len by (simp add: zip_append)
  let ?d1 = "move i (Calling (fst e) inv1 es) (kern d) d" and ?k = "apply_exits (zip inv1 x1) (kern d)"
  have s1: "dispatch ctx flags vsizes d ?d1" using dispatch.handle [OF Cons.prems(4,5) h] by simp
  have "\<forall>(f, n, v)\<in>set inv1. int n = fst e" using handle_event_source(2) [OF h] Cons.prems(2) by auto
  then have s2: "(dispatch ctx flags vsizes)\<^sup>*\<^sup>* ?d1 (move i (Handling es) ?k d)"
    using run_calls [of i ?d1 "fst e" inv1 es x1] Cons.prems(4) len by simp
  have s3: "(dispatch ctx flags vsizes)\<^sup>*\<^sup>* (move i (Handling es) ?k d) (move i Polling (apply_exits (zip inv2 x2) ?k) d)"
    using Cons.IH [OF hs, of x2 "move i (Handling es) ?k d"] Cons.prems(2,4) len by simp
  show ?case unfolding z apply_exits_simps
    by (rule converse_rtranclp_into_rtranclp [OF s1 rtranclp_trans [OF s2 s3]])
qed

section \<open>Properties\<close>


lemma sample_start_threads:
  "\<exists>ctx s'. torque_init True (\<lambda>_. sample_intel) 2020 zero_ctx (os_answering sample_start) = Some (0, Some ctx, s') \<and>
     card (dom (ctx_nexttid ctx)) = card (placed_cpus (ctx_sched_zone ctx))"
proof -
  obtain ctx s' ctx0 s2 s3 s4 where run: "torque_init True (\<lambda>_. sample_intel) 2020 zero_ctx (os_answering sample_start) = Some (0, Some ctx, s')"
    and c: "create_torque_ctx zero_ctx s2 = Some (0, Some ctx0, s3)" and a: "answers s3 = sample_answers @ [zero_ret]"
    and d: "detect_architecture True (\<lambda>_. sample_intel) 2020 ctx0 s3 = Some (0, ctx, s4)" using sample_start_parts by blast
  have m: "affinity_mask s3 = {0}"
    using a by (simp add: affinity_mask_def detect_cpucount_def sample_answers_def sys_call_def zero_ret_def)
  have "ctx_sched_zone ctx0 = []" using create_torque_ctx_ok [OF c] by (simp add: hw_empty_def)
  then have "placed_cpus (ctx_sched_zone ctx) = {0}" using detect_architecture_lookup [OF d] topo_rep_placed m by metis
  moreover obtain t where "linked ctx0 [t] ctx"
    using detect_architecture_linked [OF d] m by (auto simp: length_Suc_conv)
  then have "dom (ctx_nexttid ctx) = {t}"
    using create_torque_ctx_threads [OF c] by (simp add: linked_def link_thread_def)
  ultimately show ?thesis using run by auto
qed




text \<open>
  Property C16: a connection from its acceptance to its echo. What the echo server accepts it closes once, or registers; then every report that
  the descriptor is readable, whatever else it says, calls the library's read callback and nothing else, on the connection's own object; and any number of such calls
  return, whatever the system answers, with the bytes sent back since then followed by those still in the object's buffer the bytes received, in order (a prefix of them once
  the server has given the connection up).
\<close>

theorem connection_served:
  assumes "tables_wf ctx" "0 \<le> sd"
  shows "\<exists>ctx' h' s'. conn_one ctx sd h s = Some (ctx', h', s') \<and> tables_wf ctx' \<and>
    (closes sd s' = closes sd s + 1 \<or> closes sd s' = closes sd s \<and> (\<exists>p cb. h' p = Some cb \<and>
      (\<forall>ev. ev AND EVREAD \<noteq> 0 \<longrightarrow>
        handle_event (\<lambda>_ c. c) ctx' (sd, ev) = Some (ctx', [(Cb_buffered_rxfxn, nat sd, Ptr_obj p)])) \<and>
      (\<forall>n t. \<exists>x got rxb' t'. echo_session n sd (cb_rxbuf cb) t = Some (x, got, rxb', t') \<and>
        (if x = RX_client then \<exists>rest. sent sd (calls t') @ rest = sent sd (calls t) @ got
         else rxbuf_inv rxb' \<and> sent sd (calls t') @ rxbuf_content rxb' = sent sd (calls t) @ got))))"
proof -
  obtain ctx' h' s' where c: "conn_one ctx sd h s = Some (ctx', h', s')" "tables_wf ctx'"
    and o: "conn_served sd ctx' h' \<and> closes sd s' = closes sd s \<or> closes sd s' = closes sd s + 1"
    using conn_one_outcome [OF assms] by blast
  have "\<exists>p cb. h' p = Some cb \<and>
      (\<forall>ev. ev AND EVREAD \<noteq> 0 \<longrightarrow>
        handle_event (\<lambda>_ c. c) ctx' (sd, ev) = Some (ctx', [(Cb_buffered_rxfxn, nat sd, Ptr_obj p)])) \<and>
      (\<forall>n t. \<exists>x got rxb' t'. echo_session n sd (cb_rxbuf cb) t = Some (x, got, rxb', t') \<and>
        (if x = RX_client then \<exists>rest. sent sd (calls t') @ rest = sent sd (calls t) @ got
         else rxbuf_inv rxb' \<and> sent sd (calls t') @ rxbuf_content rxb' = sent sd (calls t) @ got))"
    if served: "conn_served sd ctx' h'"
  proof -
    obtain p rxb where e: "fd_entry ctx' (nat sd) = Some (Some Cb_buffered_rxfxn, None, Ptr_obj p)"
      and h: "h' p = Some \<lparr>cb_rxbuf = rxb, cb_rx = Some echo_server_fn, cb_tx = None, cb_cbstate = 0\<rparr>"
      and rxb: "rxbuf_inv rxb" "rxbuf_content rxb = []" using served by (auto simp: conn_served_def)
    have "echoed (sent sd (calls t)) sd [] rxb t" for t using rxb by (simp add: echoed_def)
    note s = echo_session_keeps [OF this, unfolded echoed_def echo_ended_def append_Nil]
    show ?thesis using s handle_read_entry [OF e] handle_write_entry [OF e]
      by (intro exI [of _ p] exI [of _ "\<lparr>cb_rxbuf = rxb, cb_rx = Some echo_server_fn, cb_tx = None, cb_cbstate = 0\<rparr>"])
        (simp add: h handle_event_def run_invocations_def Let_def)
  qed
  then show ?thesis using c o by blast
qed

definition paged_table :: torque_ctx where
  "paged_table = sample_table\<lparr>ctx_nodecount := 1,
     ctx_manodes := [\<lparr>node_size = 1, node_psizevals = [4096], node_psizes = 1, node_count = 1\<rparr>]\<rparr>"

theorem connection_served_witness:
  "\<exists>ctx' h' s' p. conn_one paged_table 0 Map.empty (os_answering [zero_ret, zero_ret, ok_ret, ok_ret, zero_ret]) = Some (ctx', h', s') \<and>
     handle_event (\<lambda>_ c. c) ctx' (0, EVREAD) = Some (ctx', [(Cb_buffered_rxfxn, 0, Ptr_obj p)])"
proof -
  let ?s = "os_answering [zero_ret, zero_ret, ok_ret, ok_ret, zero_ret]"
  have wf: "tables_wf paged_table" by (simp add: paged_table_def tables_wf_def sample_table_def)
  obtain ctx' h' s' where run: "conn_one paged_table 0 Map.empty ?s = Some (ctx', h', s')" and c: "closes 0 s' = 0"
    by (simp add: conn_one_def paged_table_def sample_table_def torque_addfd_def create_rxbuffercb_def initialize_rxbuffer_def
        get_big_page_def get_pages_def large_system_pagesize_def add_fd_to_evhandler_def setup_evsource_eq add_fd_event_def
        Kevent_def io_simps sys_ptr_def sys_alloc_def out_def Let_def EVONESHOT_def closes_def torque_mem_nodecount_def
        torque_node_getdesc_def)
  from connection_served [OF wf, of 0 Map.empty ?s] run c show ?thesis
    by (fastforce simp: EVREAD_def closes_def os_answering_def)
qed

end
