(* ===== verification/Torquehost.thy ===== *)
theory Torquehost
  imports Archdetect
begin

text \<open>
  The program \<^verbatim>\<open>src/src/torquehost/torquehost.c\<close>: it resolves host names with the library and waits for
  all answers. The sequential parts are functions as before; the counter that the main thread shares
  with the library's threads is a step relation.
\<close>

section \<open>Arguments\<close>

definition DEFAULT_TIMEOUT :: u32 where "DEFAULT_TIMEOUT = 60"

record host_opts =
  opt_pipe :: bool
  opt_timeout :: u32

text \<open>
  An answer of \<open>getopt_long\<close>: the option, and through \<open>rout\<close> the flag of a long option, or the number that \<open>atoi\<close>
  makes of the argument of \<open>-t\<close>. The version string comes from the build. 102, 104, 116 and 118 are the characters f, h, t and v.
\<close>

definition host_flag :: "string \<Rightarrow> int \<Rightarrow> host_opts \<Rightarrow> sysst \<Rightarrow> args option \<times> host_opts \<times> sysst" where
  "host_flag version lflag ops s =
     (if lflag = 102 then
        if opt_pipe ops then (Some Args_bad, ops, complain s) else (None, ops\<lparr>opt_pipe := True\<rparr>, s)
      else if lflag = 104 then (Some (Args_exit EXIT_SUCCESS), ops, complain s)
      else if lflag = 118 then (Some (Args_exit EXIT_SUCCESS), ops, out (''torquehost from libtorque '' @ version @ [CHR 0x0A]) s)
      else (Some Args_bad, ops, s))"

definition host_option :: "string \<Rightarrow> sysret \<Rightarrow> host_opts \<Rightarrow> sysst \<Rightarrow> args option \<times> host_opts \<times> sysst" where
  "host_option version a ops s =
     (if rv a = 116 then (None, ops\<lparr>opt_timeout := of_int (rout a)\<rparr>, s)
      else if rv a = 102 \<or> rv a = 104 \<or> rv a = 118 then host_flag version (rv a) ops s
      else if rv a = 0 then host_flag version (rout a) ops s
      else (Some Args_bad, ops, s))"

lemma host_option_answers: "host_option version a ops s = (r, ops', s') \<Longrightarrow> answers s' = answers s"
  by (auto simp: host_option_def host_flag_def complain_def out_def sys_note_def split: if_splits)

function host_args :: "string \<Rightarrow> host_opts \<Rightarrow> sysst \<Rightarrow> args \<times> host_opts \<times> sysst" where
  "host_args version ops s =
     (case sys_call (Sys_libc ''getopt_long'') s of
        (a, s1) \<Rightarrow>
          if rv a < 0 then (Args_ok, ops, s1)
          else
            (case host_option version a ops s1 of
               (Some r, ops1, s2) \<Rightarrow> (r, ops1, s2)
             | (None, ops1, s2) \<Rightarrow> host_args version ops1 s2))"
  by pat_completeness auto
termination
  by (relation "measure (\<lambda>(version, ops, s). length (answers s))")
    (auto simp: sys_call_def failed_ret_def split: list.splits dest!: host_option_answers [OF sym])

declare host_args.simps [simp del]

section \<open>Lookups\<close>

text \<open>The names of the callbacks and of the state they share.\<close>

definition lookup_callback_fn :: nat where "lookup_callback_fn = 0"
definition timeoutcb_fn :: nat where "timeoutcb_fn = 1"
definition results_ptr :: nat where "results_ptr = 0"

definition add_lookup ::
  "torque_ctx \<Rightarrow> int \<Rightarrow> dns_heap \<Rightarrow> sysst \<Rightarrow> (int \<times> int \<times> torque_ctx \<times> dns_heap \<times> sysst) option" where
  "add_lookup ctx results h s =
     (case sys_int (Sys_pthread ''mutex_lock'') s of
        (r, s1) \<Rightarrow>
          if r \<noteq> 0 then Some (- 1, results, ctx, h, s1)
          else
            (case sys_int (Sys_pthread ''mutex_unlock'') s1 of
               (r, s2) \<Rightarrow>
                 if r \<noteq> 0 then Some (- 1, results + 1, ctx, h, s2)
                 else
                   (case torque_addlookup_dns ctx lookup_callback_fn results_ptr h s2 of
                      None \<Rightarrow> None
                    | Some (e, ctx1, h1, s3) \<Rightarrow>
                        if e \<noteq> 0 then Some (- 1, results + 1, ctx1, h1, complain s3)
                        else Some (0, results + 1, ctx1, h1, s3))))"

text \<open>
  A callback: the counter after it, whether it signalled the condition, and the output. The answer carries
  its status; \<open>inet_ntop\<close> yields the text of the address.
\<close>

definition lookup_callback :: "int \<Rightarrow> int \<Rightarrow> sysst \<Rightarrow> int \<times> bool \<times> sysst" where
  "lookup_callback status results s =
     (let s1 = (if status \<noteq> 0 then complain s
                else (case sys_call (Sys_libc ''inet_ntop'') s of
                        (a, s1) \<Rightarrow>
                          if rv a \<le> 0 then complain s1 else out (bytes_string (rdata a) @ [CHR 0x0A]) s1));
          s2 = sys_note (Sys_pthread ''mutex_unlock'') (sys_note (Sys_pthread ''mutex_lock'') s1);
          returns = results - 1
      in if returns \<le> 0 then
           let s3 = (if returns < 0 then complain s2
                     else (case sys_int (Sys_libc ''isatty'') s2 of
                             (r, s3) \<Rightarrow> if r \<noteq> 0 then out (''Got all returns'' @ [CHR 0x0A]) s3 else s3))
           in (returns, True, sys_note (Sys_pthread ''cond_signal'') s3)
         else (returns, False, s2))"

text \<open>
  Standard input is the list of what \<open>fgets\<close> stores, at most 79 characters at a time; the end of the list is
  its null result. A piece without a newline makes \<open>fpgetline\<close> return null.
\<close>

definition fpgetline :: "string list \<Rightarrow> sysst \<Rightarrow> string option \<times> string list \<times> sysst" where
  "fpgetline input s =
     (case input of
        [] \<Rightarrow> (None, [], s)
      | l # ls \<Rightarrow>
          if CHR 0x0A \<notin> set l then (None, ls, s)
          else
            (case sys_alloc Sys_strdup s of
               (ok, s1) \<Rightarrow> (if ok then Some (takeWhile (\<lambda>c. c \<noteq> CHR 0x0A) l) else None, ls, s1)))"

lemma fpgetline_shorter: "fpgetline input s = (Some l, rest, s') \<Longrightarrow> length rest < length input"
  by (auto simp: fpgetline_def split: list.splits prod.splits if_splits)

type_synonym spooled = "int \<times> int \<times> torque_ctx \<times> dns_heap \<times> sysst"

function spool_pipe :: "string list \<Rightarrow> torque_ctx \<Rightarrow> int \<Rightarrow> dns_heap \<Rightarrow> sysst \<Rightarrow> spooled option" where
  "spool_pipe input ctx results h s =
     (case fpgetline input (s\<lparr>errno := 0\<rparr>) of
        (None, rest, s1) \<Rightarrow>
          if errno s1 \<noteq> 0 then Some (- 1, results, ctx, h, complain s1)
          else
            (case sys_int (Sys_libc ''ferror'') s1 of
               (r, s2) \<Rightarrow>
                 if r \<noteq> 0 then Some (- 1, results, ctx, h, complain s2) else Some (0, results, ctx, h, s2))
      | (Some l, rest, s1) \<Rightarrow>
          (case add_lookup ctx results h s1 of
             None \<Rightarrow> None
           | Some (r, results1, ctx1, h1, s2) \<Rightarrow>
               let s3 = sys_note (Sys_free ''line'') s2 in
               if r \<noteq> 0 then Some (- 1, results1, ctx1, h1, s3) else spool_pipe rest ctx1 results1 h1 s3))"
  by pat_completeness auto
termination
  by (relation "measure (\<lambda>(input, ctx, results, h, s). length input)") (auto dest!: fpgetline_shorter [OF sym])

declare spool_pipe.simps [simp del]

fun spool_args :: "string list \<Rightarrow> torque_ctx \<Rightarrow> int \<Rightarrow> dns_heap \<Rightarrow> sysst \<Rightarrow> spooled option" where
  "spool_args [] ctx results h s = Some (0, results, ctx, h, s)"
| "spool_args (host # hosts) ctx results h s =
     (case add_lookup ctx results h s of
        None \<Rightarrow> None
      | Some (r, results1, ctx1, h1, s1) \<Rightarrow>
          if r \<noteq> 0 then Some (- 1, results1, ctx1, h1, s1) else spool_args hosts ctx1 results1 h1 s1)"

definition spool_targets ::
  "bool \<Rightarrow> string list \<Rightarrow> string list \<Rightarrow> torque_ctx \<Rightarrow> dns_heap \<Rightarrow> sysst \<Rightarrow> spooled option" where
  "spool_targets pipe input hosts ctx h s =
     (if pipe then spool_pipe input ctx 1 h s else spool_args hosts ctx 1 h s)"

section \<open>The program\<close>

text \<open>
  Up to the wait: the program has exited, or waits with a context and the counter that it has when no callback
  ran in between.
\<close>

datatype host_outcome = Host_exit int | Host_waits torque_ctx int

definition host_err :: "torque_ctx option \<Rightarrow> sysst \<Rightarrow> (host_outcome \<times> sysst) option" where
  "host_err octx s =
     (case torque_stop octx s of
        None \<Rightarrow> None
      | Some (e, s1) \<Rightarrow> Some (Host_exit EXIT_FAILURE, if e \<noteq> 0 then complain s1 else s1))"

definition host_wait_text :: "u32 \<Rightarrow> string" where
  "host_wait_text timeout =
     (if timeout \<noteq> 0 then ''Waiting '' @ dec_string (unat timeout) @ ''s for resolutions...'' @ [CHR 0x0A]
      else ''Waiting for resolutions, timeouts disabled...'' @ [CHR 0x0A])"

definition host_run ::
  "host_opts \<Rightarrow> string list \<Rightarrow> string list \<Rightarrow> torque_ctx \<Rightarrow> timer_heap \<Rightarrow> dns_heap \<Rightarrow> sysst \<Rightarrow> (host_outcome \<times> sysst) option" where
  "host_run ops input hosts ctx th h s =
     (case (if opt_timeout ops \<noteq> 0 then torque_addtimer ctx timeoutcb_fn 0 th s else Some (0, ctx, th, s)) of
        None \<Rightarrow> None
      | Some (e, ctx1, th1, s1) \<Rightarrow>
          if e \<noteq> 0 then host_err (Some ctx1) (complain s1)
          else
            (case spool_targets (opt_pipe ops) input hosts ctx1 h s1 of
               None \<Rightarrow> None
             | Some (r, results, ctx2, h1, s2) \<Rightarrow>
                 if r \<noteq> 0 then host_err (Some ctx2) (complain s2)
                 else
                   (case sys_int (Sys_libc ''isatty'') s2 of
                      (t, s3) \<Rightarrow>
                        Some (Host_waits ctx2 results, if t \<noteq> 0 then out (host_wait_text (opt_timeout ops)) s3 else s3))))"

definition host_start ::
  "string \<Rightarrow> bool \<Rightarrow> (nat \<Rightarrow> cpuid_fn) \<Rightarrow> int \<Rightarrow> torque_ctx \<Rightarrow> string list \<Rightarrow> string list \<Rightarrow> timer_heap \<Rightarrow> dns_heap \<Rightarrow> sysst \<Rightarrow>
     (host_outcome \<times> sysst) option" where
  "host_start version avail cpuids CUDA_VERSION raw input hosts th h s =
     (case sys_alloc (Sys_libc ''setlocale'') s of
        (ok, s1) \<Rightarrow>
          if \<not> ok then host_err None (complain s1)
          else
            (case host_args version \<lparr>opt_pipe = False, opt_timeout = DEFAULT_TIMEOUT\<rparr> s1 of
               (Args_exit c, ops, s2) \<Rightarrow> Some (Host_exit c, s2)
             | (Args_bad, ops, s2) \<Rightarrow> host_err None (complain s2)
             | (Args_ok, ops, s2) \<Rightarrow>
                 if opt_pipe ops = (hosts \<noteq> []) then host_err None (complain s2)
                 else
                   (case torque_init avail cpuids CUDA_VERSION raw s2 of
                      None \<Rightarrow> None
                    | Some (e, None, s3) \<Rightarrow> host_err None (complain s3)
                    | Some (e, Some ctx, s3) \<Rightarrow> host_run ops input hosts ctx th h s3)))"

text \<open>After the wait.\<close>

definition host_finish :: "torque_ctx \<Rightarrow> sysst \<Rightarrow> (int \<times> sysst) option" where
  "host_finish ctx s =
     (case torque_stop (Some ctx) s of
        None \<Rightarrow> None
      | Some (e, s1) \<Rightarrow> if e \<noteq> 0 then Some (EXIT_FAILURE, complain s1) else Some (EXIT_SUCCESS, s1))"

section \<open>The shared counter\<close>

text \<open>
  The main thread has lookups left to add; has counted one and has to submit it; has to take its own
  count off; sleeps on the condition; was woken; goes on to stop the library; or has given up. The
  callbacks of the submitted lookups run on the library's threads: pending ones have not run, and those in
  \<open>h_signals\<close> have taken their count off and are about to signal. Each step is what its thread does while
  it holds the lock, or one call outside it.
\<close>

datatype host_pc = H_add | H_submit | H_dec | H_sleep | H_awake | H_stop | H_failed

record host =
  h_results :: int
  h_left :: nat
  h_pc :: host_pc
  h_pending :: nat
  h_signals :: nat
  h_answered :: nat

definition host_init :: "nat \<Rightarrow> host" where
  "host_init n = \<lparr>h_results = 1, h_left = n, h_pc = H_add, h_pending = 0, h_signals = 0, h_answered = 0\<rparr>"

definition host_test :: "int \<Rightarrow> host_pc" where
  "host_test results = (if results \<noteq> 0 then H_sleep else H_stop)"

inductive host_step :: "host \<Rightarrow> host \<Rightarrow> bool" where
  host_inc: "h_pc g = H_add \<Longrightarrow> 0 < h_left g \<Longrightarrow>
    host_step g (g\<lparr>h_results := h_results g + 1, h_pc := H_submit\<rparr>)"
| host_submit: "h_pc g = H_submit \<Longrightarrow>
    host_step g (g\<lparr>h_left := h_left g - 1, h_pending := h_pending g + 1, h_pc := H_add\<rparr>)"
| host_submit_fails: "h_pc g = H_submit \<Longrightarrow> host_step g (g\<lparr>h_pc := H_failed\<rparr>)"
| host_spooled: "h_pc g = H_add \<Longrightarrow> h_left g = 0 \<Longrightarrow> host_step g (g\<lparr>h_pc := H_dec\<rparr>)"
| host_dec: "h_pc g = H_dec \<Longrightarrow>
    host_step g (g\<lparr>h_results := h_results g - 1, h_pc := host_test (h_results g - 1)\<rparr>)"
| host_callback: "0 < h_pending g \<Longrightarrow> lookup_callback status (h_results g) s = (r, sig, s') \<Longrightarrow>
    host_step g (g\<lparr>h_results := r, h_pending := h_pending g - 1, h_answered := h_answered g + 1,
      h_signals := (if sig then h_signals g + 1 else h_signals g)\<rparr>)"
| host_signal: "0 < h_signals g \<Longrightarrow>
    host_step g (g\<lparr>h_signals := h_signals g - 1, h_pc := (if h_pc g = H_sleep then H_awake else h_pc g)\<rparr>)"
| host_spurious: "h_pc g = H_sleep \<Longrightarrow> host_step g (g\<lparr>h_pc := H_awake\<rparr>)"
| host_retest: "h_pc g = H_awake \<Longrightarrow> host_step g (g\<lparr>h_pc := host_test (h_results g)\<rparr>)"

lemma lookup_callback_counts:
  "lookup_callback status results s = (r, sig, s') \<Longrightarrow> r = results - 1 \<and> (sig \<longleftrightarrow> results \<le> 1)"
  by (auto simp: lookup_callback_def Let_def split: if_splits)

lemma host_callback_run:
  "0 < h_pending g \<Longrightarrow> host_step g (g\<lparr>h_results := h_results g - 1, h_pending := h_pending g - 1,
     h_answered := h_answered g + 1, h_signals := (if h_results g \<le> 1 then h_signals g + 1 else h_signals g)\<rparr>)"
proof -
  assume p: "0 < h_pending g"
  obtain r sig s' where c: "lookup_callback 0 (h_results g) (os_answering []) = (r, sig, s')" by (cases rule: prod_cases3)
  from lookup_callback_counts [OF c] host_callback [OF p c] show ?thesis by auto
qed

text \<open>
  The counter is the main thread's own count, the lookup counted but not yet submitted, and the lookups not
  yet answered; a sleeper with nothing left to wait for has a signal coming.
\<close>

definition host_inv :: "nat \<Rightarrow> host \<Rightarrow> bool" where
  "host_inv n g \<longleftrightarrow>
     h_results g = (if h_pc g \<in> {H_add, H_submit, H_dec, H_failed} then 1 else 0) +
       (if h_pc g \<in> {H_submit, H_failed} then 1 else 0) + int (h_pending g) \<and>
     h_answered g + h_pending g + h_left g = n \<and>
     (h_pc g \<in> {H_dec, H_sleep, H_awake, H_stop} \<longrightarrow> h_left g = 0) \<and>
     (h_pc g = H_submit \<longrightarrow> 0 < h_left g) \<and>
     (h_pc g = H_stop \<longrightarrow> h_pending g = 0) \<and>
     (h_pc g = H_sleep \<and> h_pending g = 0 \<longrightarrow> 0 < h_signals g)"

lemma host_inv_init: "host_inv n (host_init n)"
  by (simp add: host_inv_def host_init_def)

lemma host_inv_step: "host_step g g' \<Longrightarrow> host_inv n g \<Longrightarrow> host_inv n g'"
proof (induction rule: host_step.induct)
  case (host_callback g status s r sig s')
  then show ?case using lookup_callback_counts [OF host_callback(2)]
    by (cases "h_pc g") (auto simp: host_inv_def)
qed (auto simp: host_inv_def host_test_def split: if_splits)

interpretation host_kept: step_invariant host_step "host_inv n" for n
  by unfold_locales (rule host_inv_step)

lemma host_reach_inv: "host_step\<^sup>*\<^sup>* (host_init n) g \<Longrightarrow> host_inv n g"
  using host_kept.reach_keeps host_inv_init by blast

text \<open>The way to the end.\<close>

fun host_pc_left :: "host_pc \<Rightarrow> nat" where
  "host_pc_left H_add = 5"
| "host_pc_left H_submit = 4"
| "host_pc_left H_dec = 4"
| "host_pc_left H_sleep = 2"
| "host_pc_left H_awake = 1"
| "host_pc_left _ = 0"

definition host_left :: "host \<Rightarrow> nat" where
  "host_left g = 5 * h_left g + 2 * h_pending g + h_signals g + host_pc_left (h_pc g)"

lemma host_closer:
  assumes "host_inv n g" "h_pc g \<notin> {H_stop, H_failed}"
  shows "\<exists>g'. host_step g g' \<and> host_left g' < host_left g \<and> h_pc g' \<noteq> H_failed"
proof (cases "0 < h_pending g")
  case True
  then show ?thesis using host_callback_run [OF True] assms(2)
    by (intro exI conjI) (assumption, auto simp: host_left_def)
next
  case False
  show ?thesis
  proof (cases "h_pc g")
    case H_add
    then show ?thesis by (cases "h_left g = 0") (auto intro!: exI host_inc host_spooled simp: host_left_def)
  qed (use assms False in \<open>auto simp: host_inv_def host_left_def host_test_def
      intro!: exI host_submit host_dec host_signal host_retest\<close>)
qed

interpretation host: step_variant host_step "\<lambda>g. host_inv n g \<and> h_pc g \<noteq> H_failed" host_left "\<lambda>g. h_pc g = H_stop" for n
  by unfold_locales (use host_closer host_inv_step in blast)

section \<open>Adding lookups\<close>

lemma add_lookup_counts:
  "add_lookup ctx results h s = Some (0, results', ctx', h', s') \<Longrightarrow> results' = results + 1"
  by (auto simp: add_lookup_def split: prod.splits option.splits if_splits)

lemma spool_args_counts:
  "spool_args hosts ctx results h s = Some (0, results', ctx', h', s') \<Longrightarrow> results' = results + int (length hosts)"
  by (induction hosts ctx results h s rule: spool_args.induct)
    (auto split: option.splits prod.splits if_splits dest!: add_lookup_counts)

abbreviation whole_lines :: "string list \<Rightarrow> string list" where
  "whole_lines input \<equiv> takeWhile (\<lambda>l. CHR 0x0A \<in> set l) input"

lemma fpgetline_line:
  "fpgetline input s = (Some l, rest, s') \<Longrightarrow> length (whole_lines input) = Suc (length (whole_lines rest))"
  by (auto simp: fpgetline_def split: list.splits prod.splits if_splits)

lemma spool_pipe_counts:
  "spool_pipe input ctx results h s = Some (0, results', ctx', h', s') \<Longrightarrow>
   results \<le> results' \<and> results' \<le> results + int (length (whole_lines input))"
proof (induction input ctx results h s rule: spool_pipe.induct)
  case (1 input ctx results h s)
  obtain ol rest s1 where f: "fpgetline input (s\<lparr>errno := 0\<rparr>) = (ol, rest, s1)" by (cases rule: prod_cases3)
  show ?case
  proof (cases ol)
    case None
    then show ?thesis using "1.prems" f
      by (auto simp: spool_pipe.simps [of input] split: prod.splits if_splits)
  next
    case (Some l)
    obtain results1 ctx1 h1 s2 where a: "add_lookup ctx results h s1 = Some (0, results1, ctx1, h1, s2)"
      and r: "spool_pipe rest ctx1 results1 h1 (sys_note (Sys_free ''line'') s2) = Some (0, results', ctx', h', s')"
      using "1.prems" f Some by (auto simp: spool_pipe.simps [of input] Let_def split: option.splits if_splits)
    show ?thesis
      using "1.IH" [OF f [symmetric] Some refl a refl refl refl refl refl _ r]
        add_lookup_counts [OF a] fpgetline_line [of input _ l rest s1] f Some by simp
  qed
qed

section \<open>Properties\<close>

text \<open>
  Property C19: the program waits for every answer. In every interleaving of the main thread with the
  callbacks, spurious wakeups included, the counter is never negative and a callback never finds it
  already at 0; and when the main thread goes on to stop the library, all lookups have been answered.
\<close>

theorem host_waits_for_all:
  assumes "host_step\<^sup>*\<^sup>* (host_init n) g"
  shows "0 \<le> h_results g \<and> (0 < h_pending g \<longrightarrow> 1 \<le> h_results g) \<and>
    (h_pc g = H_stop \<longrightarrow> h_answered g = n \<and> h_pending g = 0 \<and> h_results g = 0)"
  using host_reach_inv [OF assms] by (auto simp: host_inv_def split: if_splits)

theorem host_waits_for_all_witness:
  "\<exists>g. host_step\<^sup>*\<^sup>* (host_init 2) g \<and> h_pc g = H_stop \<and> h_answered g = 2"
proof -
  obtain g where g: "host_step\<^sup>*\<^sup>* (host_init 2) g" "h_pc g = H_stop"
    using host.completes [of 2 "host_init 2"] host_inv_init [of 2] by (auto simp: host_init_def)
  from host_waits_for_all [OF g(1)] g show ?thesis by blast
qed

text \<open>
  Property C20: the wait ends. From every state that can be reached without a failed submission there is a way to the
  end, and every wakeup that it needs is sent: no signal is lost between the test of the counter and the
  wait.
\<close>

theorem host_wait_ends:
  assumes "host_step\<^sup>*\<^sup>* (host_init n) g" "h_pc g \<noteq> H_failed"
  shows "(\<exists>g'. host_step\<^sup>*\<^sup>* g g' \<and> h_pc g' = H_stop) \<and>
    (h_pc g = H_sleep \<and> h_pending g = 0 \<longrightarrow> 0 < h_signals g)"
proof -
  note inv = host_reach_inv [OF assms(1)]
  then have "\<exists>g'. host_step\<^sup>*\<^sup>* g g' \<and> h_pc g' = H_stop" using host.completes [of n g] assms(2) by blast
  then show ?thesis using inv by (simp add: host_inv_def)
qed

theorem host_wait_ends_witness:
  "\<exists>g'. host_step\<^sup>*\<^sup>* (host_init 3) g' \<and> h_pc g' = H_stop"
  using host_wait_ends [of 3 "host_init 3"] by (simp add: host_init_def)

text \<open>
  Fact: the counter after adding the lookups. With queries as arguments it is one more than their number; with queries on
  standard input it is at most one more than the number of lines before the first piece without a newline.
\<close>

theorem spool_counts:
  assumes "spool_targets pipe input hosts ctx h s = Some (0, results, ctx', h', s')"
  shows "if pipe then 1 \<le> results \<and> results \<le> 1 + int (length (whole_lines input))
    else results = 1 + int (length hosts)"
  using assms spool_args_counts [of hosts ctx 1 h s] spool_pipe_counts [of input ctx 1 h s]
  by (auto simp: spool_targets_def split: if_splits)

theorem spool_counts_witness:
  "\<exists>results ctx' h' s'. spool_targets False [] [''a''] zero_ctx Map.empty
       (os_answering [zero_ret, zero_ret, ok_ret, zero_ret, zero_ret]) = Some (0, results, ctx', h', s') \<and> results = 2"
proof -
  obtain results ctx' h' s' where run: "spool_targets False [] [''a''] zero_ctx Map.empty
      (os_answering [zero_ret, zero_ret, ok_ret, zero_ret, zero_ret]) = Some (0, results, ctx', h', s')"
    by (simp add: spool_targets_def add_lookup_def torque_addlookup_dns_def create_dnsmarshal_def load_dns_fds_def io_simps)
  from spool_counts [OF run] run show ?thesis by simp
qed

text \<open>
  Fact: a long line ends the input. A piece of standard input without a newline, such as a line of more
  than 78 characters, makes the program take no further query, and no error is reported.
\<close>

theorem pipe_drops_rest:
  assumes "CHR 0x0A \<notin> set l" "sys_int (Sys_libc ''ferror'') (s\<lparr>errno := 0\<rparr>) = (0, s')"
  shows "spool_targets True (l # rest) hosts ctx h s = Some (0, 1, ctx, h, s')"
  using assms by (simp add: spool_targets_def spool_pipe.simps [of "l # rest"] fpgetline_def)

theorem pipe_drops_rest_witness:
  "spool_targets True (replicate 79 (CHR ''a'') # [''b'' @ [CHR 0x0A]]) [] zero_ctx Map.empty (os_answering [zero_ret]) =
     Some (0, 1, zero_ctx, Map.empty, \<lparr>answers = [], calls = [Sys_libc ''ferror''], errno = 0\<rparr>)"
  by (rule pipe_drops_rest) (simp_all add: io_simps)

end
