(* ===== verification/Signal_Tools.thy ===== *)
theory Signal_Tools
  imports Archdetect
begin

text \<open>
  The programs that count and send signals: \<^verbatim>\<open>src/tools/libev/signalrx.c\<close>, over libev, its counterpart \<^verbatim>\<open>src/tools/testing/signalrx.c\<close>, over this
  library, and the sender \<^verbatim>\<open>src/tools/testing/signaltx.c\<close>. The calls of libev are answered like those of the system; what its loop delivers is a
  parameter.
\<close>

section \<open>The table of counters\<close>

text \<open>An entry of \<open>signals_watched\<close>: the signal and how often it was received. Its lock is in the trace.\<close>

record watched =
  sw_sig :: nat
  sw_rx :: u64

definition fresh :: "nat \<Rightarrow> watched" where
  "fresh n = \<lparr>sw_sig = n, sw_rx = 0\<rparr>"

definition libev_watched :: "watched list" where
  "libev_watched = map fresh [1, 13, 14, 10, 12, 15, 29, 29, 23, 28]"

definition torque_watched :: "watched list" where
  "torque_watched = map fresh [1, 13, 14, 10, 12, 17, 29, 29, 23, 28]"

text \<open>The loop that both handlers share: count at the first entry of the signal.\<close>

fun count_signal :: "nat \<Rightarrow> watched list \<Rightarrow> sysst \<Rightarrow> watched list \<times> sysst" where
  "count_signal sig [] s = ([], s)"
| "count_signal sig (w # ws) s =
     (if sw_sig w = sig then
        (w\<lparr>sw_rx := sw_rx w + 1\<rparr> # ws,
         sys_note (Sys_pthread ''mutex_unlock'') (sys_note (Sys_pthread ''mutex_lock'') s))
      else (case count_signal sig ws s of (ws', s') \<Rightarrow> (w # ws', s')))"

definition signalrx :: "nat \<Rightarrow> watched list \<Rightarrow> sysst \<Rightarrow> watched list \<times> sysst" where
  "signalrx sig ws s = count_signal sig ws s"

definition rxsignal :: "nat \<Rightarrow> watched list \<Rightarrow> sysst \<Rightarrow> watched list \<times> sysst" where
  "rxsignal sig ws s = count_signal sig ws (if sig = SIGINT then sys_note (Sys_libc ''ev_unloop'') s else s)"

text \<open>The callbacks for a sequence of signals.\<close>

fun deliver :: "(nat \<Rightarrow> watched list \<Rightarrow> sysst \<Rightarrow> watched list \<times> sysst) \<Rightarrow> nat list \<Rightarrow> watched list \<Rightarrow> sysst \<Rightarrow> watched list \<times> sysst" where
  "deliver h [] ws s = (ws, s)"
| "deliver h (sig # sigs) ws s = (case h sig ws s of (ws', s') \<Rightarrow> deliver h sigs ws' s')"

section \<open>Arguments\<close>

text \<open>118 is the character v. A turn of the loop leaves it.\<close>

definition signalrx_args :: "sysst \<Rightarrow> args \<times> sysst" where
  "signalrx_args s =
     (case sys_call (Sys_libc ''getopt_long'') s of
        (a, s1) \<Rightarrow>
          if rv a < 0 then (Args_ok, s1)
          else if rv a = 0 \<and> rout a = 118 then (Args_exit EXIT_SUCCESS, complain s1)
          else (Args_bad, complain s1))"

section \<open>The program over libev\<close>

definition libev_args :: "sysst \<Rightarrow> args \<times> sysst" where
  "libev_args s =
     (case sys_call (Sys_libc ''getopt_long'') s of
        (a, s1) \<Rightarrow>
          if rv a < 0 then (Args_ok, s1)
          else if rv a = 0 \<and> rout a = 118 then (Args_exit EXIT_SUCCESS, complain s1)
          else (Args_bad, complain s1))"

text \<open>
  \<open>strsignal\<close> is the text of a signal. The loop that starts a watcher for each signal: the new loops are numbered from 1 (0 is the default
  loop), and \<open>started\<close> lists the loops and signals of the watchers.
\<close>

definition watching_text :: "(nat \<Rightarrow> string) \<Rightarrow> nat \<Rightarrow> string" where
  "watching_text strsignal sig = ''Watching signal '' @ dec_string sig @ '' ('' @ strsignal sig @ '')'' @ [CHR 0x0A]"

fun libev_watch ::
  "(nat \<Rightarrow> string) \<Rightarrow> watched list \<Rightarrow> nat set \<Rightarrow> (nat \<times> nat) list \<Rightarrow> sysst \<Rightarrow> bool \<times> (nat \<times> nat) list \<times> sysst" where
  "libev_watch strsignal [] ss started s = (True, started, s)"
| "libev_watch strsignal (w # ws) ss started s =
     (if sw_sig w \<in> ss then libev_watch strsignal ws ss started s
      else
        (case sigaddset ss (sw_sig w) of
           None \<Rightarrow> (False, started, complain s)
         | Some ss1 \<Rightarrow>
             (case sys_alloc (Sys_libc ''ev_loop_new'') s of
                (ok, s1) \<Rightarrow>
                  if \<not> ok then (False, started, complain s1)
                  else
                    libev_watch strsignal ws ss1 (started @ [(Suc (length started), sw_sig w)])
                      (out (watching_text strsignal (sw_sig w)) (sys_note (Sys_libc ''ev_signal_start'') s1)))))"

definition received_text :: "(nat \<Rightarrow> string) \<Rightarrow> watched \<Rightarrow> string" where
  "received_text strsignal w =
     ''Received signal '' @ dec_string (sw_sig w) @ '' ('' @ strsignal (sw_sig w) @ '') '' @ dec_string (unat (sw_rx w)) @
     '' time'' @ (if sw_rx w = 1 then [] else ''s'') @ [CHR 0x0A]"

fun libev_report :: "(nat \<Rightarrow> string) \<Rightarrow> watched list \<Rightarrow> int \<Rightarrow> sysst \<Rightarrow> int \<times> sysst" where
  "libev_report strsignal [] ret s = (ret, s)"
| "libev_report strsignal (w # ws) ret s =
     (if sw_rx w \<noteq> 0 then libev_report strsignal ws EXIT_SUCCESS (out (received_text strsignal w) s)
      else libev_report strsignal ws ret s)"

definition libev_err :: "sysst \<Rightarrow> int \<times> sysst" where
  "libev_err s =
     (EXIT_FAILURE, out (''done.'' @ [CHR 0x0A])
        (sys_note (Sys_libc ''ev_default_destroy'') (sys_note (Sys_libc ''fflush'') (out ''Shutting down libev...'' s))))"

text \<open>\<open>delivered\<close> are the signals for which \<open>ev_loop\<close>, run on the default loop with the watchers started on it, calls back.\<close>

definition libev_main :: "(nat \<Rightarrow> string) \<Rightarrow> ((nat \<times> nat) list \<Rightarrow> nat list) \<Rightarrow> sysst \<Rightarrow> int \<times> sysst" where
  "libev_main strsignal delivered s =
     (case libev_args s of
        (Args_exit c, s1) \<Rightarrow> (c, s1)
      | (Args_bad, s1) \<Rightarrow> (EXIT_FAILURE, s1)
      | (Args_ok, s1) \<Rightarrow>
          (case sys_alloc (Sys_libc ''ev_default_loop'') s1 of
             (ok, s2) \<Rightarrow>
               if \<not> ok then libev_err (complain s2)
               else
                 (case sigaddset {} 17 of
                    None \<Rightarrow> libev_err (complain s2)
                  | Some ss \<Rightarrow>
                      (case libev_watch strsignal libev_watched ss [] s2 of
                         (ok, started, s3) \<Rightarrow>
                           if \<not> ok then libev_err s3
                           else
                             (case deliver rxsignal (delivered (started @ [(0, SIGINT)])) libev_watched
                                     (sys_note (Sys_libc ''ev_loop'') (sys_note (Sys_libc ''ev_signal_start'') s3)) of
                                (ws, s4) \<Rightarrow>
                                  (case libev_report strsignal ws EXIT_FAILURE s4 of
                                     (ret, s5) \<Rightarrow>
                                       (ret, out (''Successfully cleaned up.'' @ [CHR 0x0A])
                                          (if ret \<noteq> EXIT_SUCCESS then complain s5 else s5))))))))"

section \<open>The program over this library\<close>

definition signalrx_fn :: nat where "signalrx_fn = 0"

fun torque_watch :: "(nat \<Rightarrow> string) \<Rightarrow> watched list \<Rightarrow> nat set \<Rightarrow> sysst \<Rightarrow> nat set option \<times> sysst" where
  "torque_watch strsignal [] ss s = (Some ss, s)"
| "torque_watch strsignal (w # ws) ss s =
     (if sw_sig w \<in> ss then torque_watch strsignal ws ss s
      else
        (case sigaddset ss (sw_sig w) of
           None \<Rightarrow> (None, complain s)
         | Some ss1 \<Rightarrow> torque_watch strsignal ws ss1 (out (watching_text strsignal (sw_sig w)) s)))"

fun torque_report :: "(nat \<Rightarrow> string) \<Rightarrow> watched list \<Rightarrow> u64 \<Rightarrow> sysst \<Rightarrow> u64 \<times> sysst" where
  "torque_report strsignal [] totalsigs s = (totalsigs, s)"
| "torque_report strsignal (w # ws) totalsigs s =
     (if sw_rx w \<noteq> 0 then torque_report strsignal ws (totalsigs + sw_rx w) (out (received_text strsignal w) s)
      else torque_report strsignal ws totalsigs s)"

definition signalrx_err :: "torque_ctx option \<Rightarrow> sysst \<Rightarrow> (int \<times> sysst) option" where
  "signalrx_err octx s =
     (case torque_stop octx s of
        None \<Rightarrow> None
      | Some (e, s1) \<Rightarrow> Some (EXIT_FAILURE, if e \<noteq> 0 then complain s1 else s1))"

text \<open>
  \<open>delivered\<close> are the signals that the library called back for before its threads ended. \<open>torque_block\<close> frees the context, also when it reports an
  error, and the error exit stops it again: a use of freed memory, with the value \<open>None\<close>, unless it failed before it began.
\<close>

definition signalrx_main ::
  "(nat \<Rightarrow> string) \<Rightarrow> nat list \<Rightarrow> bool \<Rightarrow> (nat \<Rightarrow> cpuid_fn) \<Rightarrow> int \<Rightarrow> torque_ctx \<Rightarrow> sysst \<Rightarrow> (int \<times> sysst) option" where
  "signalrx_main strsignal delivered avail cpuids CUDA_VERSION raw s =
     (case signalrx_args s of
        (Args_exit c, s1) \<Rightarrow> Some (c, s1)
      | (Args_bad, s1) \<Rightarrow> Some (EXIT_FAILURE, s1)
      | (Args_ok, s1) \<Rightarrow>
          (case torque_init avail cpuids CUDA_VERSION raw s1 of
             None \<Rightarrow> None
           | Some (e, None, s2) \<Rightarrow> signalrx_err None (complain s2)
           | Some (e, Some ctx, s2) \<Rightarrow>
               (case torque_watch strsignal torque_watched {} s2 of
                  (None, s3) \<Rightarrow> signalrx_err (Some ctx) s3
                | (Some ss, s3) \<Rightarrow>
                    (case torque_addsignal ctx ss signalrx_fn 0 s3 of
                       None \<Rightarrow> None
                     | Some (e, ctx1, s4) \<Rightarrow>
                         if e \<noteq> 0 then signalrx_err (Some ctx1) (complain s4)
                         else
                           (case deliver signalrx delivered torque_watched s4 of
                              (ws, s5) \<Rightarrow>
                                (case torque_block (Some ctx1) s5 of
                                   None \<Rightarrow> None
                                 | Some (e, s6) \<Rightarrow>
                                     if e \<noteq> 0 then
                                       (if fst (torque_sigmask s5) \<noteq> 0 then signalrx_err (Some ctx1) (complain s6) else None)
                                     else
                                       (case torque_report strsignal ws 0 s6 of
                                          (n, s7) \<Rightarrow>
                                            if n = 0 then Some (EXIT_FAILURE, complain s7)
                                            else
                                              Some (EXIT_SUCCESS, out (''Received '' @ dec_string (unat n) @ '' total signal'' @
                                                (if n = 1 then [] else ''s'') @ ''.'' @ [CHR 0x0A]) s7))))))))"

section \<open>The sender\<close>

text \<open>
  An answer of \<open>getopt_long\<close>: the option in \<open>rv\<close>, the flag of a long option in \<open>rerr\<close> and the number of the argument in \<open>rout\<close>; 99, 115 and 118 are the
  characters c, s and v. \<open>strtol\<close> yields a number and, in \<open>rdata\<close>, what it left of the text.
\<close>

definition tx_flag :: "nat \<Rightarrow> int \<Rightarrow> int \<times> u64 \<Rightarrow> sysst \<Rightarrow> args option \<times> (int \<times> u64) \<times> sysst" where
  "tx_flag lflag n opts s =
     (case opts of
        (sig, cnt) \<Rightarrow>
          if lflag = 99 then
            if cnt = 0 then (None, (sig, of_int n), s) else (Some Args_bad, opts, complain (complain s))
          else if lflag = 115 then
            if sig = 0 then (None, (n, cnt), s) else (Some Args_bad, opts, complain (complain s))
          else if lflag = 118 then (Some (Args_exit EXIT_SUCCESS), opts, complain s)
          else (Some Args_bad, opts, complain s))"

function tx_options :: "int \<times> u64 \<Rightarrow> sysst \<Rightarrow> args \<times> (int \<times> u64) \<times> sysst" where
  "tx_options opts s =
     (case sys_call (Sys_libc ''getopt_long'') s of
        (a, s1) \<Rightarrow>
          if rv a < 0 then (Args_ok, opts, s1)
          else if rv a = 99 \<or> rv a = 115 \<or> rv a = 0 then
            (case tx_flag (if rv a = 0 then rerr a else nat (rv a)) (rout a) opts s1 of
               (Some r, opts1, s2) \<Rightarrow> (r, opts1, s2)
             | (None, opts1, s2) \<Rightarrow> tx_options opts1 s2)
          else (Args_bad, opts, complain s1))"
  by pat_completeness auto
termination
  by (relation "measure (\<lambda>(opts, s). length (answers s))")
    (auto simp: sys_call_def failed_ret_def tx_flag_def complain_def sys_note_def split: list.splits if_splits prod.splits)

declare tx_options.simps [simp del]

definition LONG_MAX :: int where "LONG_MAX = 2 ^ 63 - 1"
definition ERANGE :: nat where [simp]: "ERANGE = 34"

definition tx_args :: "string list \<Rightarrow> sysst \<Rightarrow> args \<times> int \<times> int \<times> u64 \<times> sysst" where
  "tx_args argv s =
     (case tx_options (0, 0) s of
        (Args_ok, (sig, cnt), s1) \<Rightarrow>
          (case argv of
             [target] \<Rightarrow>
               (case sys_call (Sys_libc ''strtol'') s1 of
                  (a, s2) \<Rightarrow>
                    if rout a \<le> 0 \<or> rout a = LONG_MAX \<and> errno s2 = ERANGE \<or> target = [] \<or> rdata a \<noteq> []
                    then (Args_bad, 0, sig, cnt, complain (complain s2))
                    else (Args_ok, rout a, if sig = 0 then int SIGTERM else sig, cnt, s2))
           | _ \<Rightarrow> (Args_bad, 0, sig, cnt, complain s1))
      | (r, (sig, cnt), s1) \<Rightarrow> (r, 0, sig, cnt, s1))"

datatype tx_end = Tx_failed | Tx_done | Tx_stopped int

text \<open>The loop. \<open>stopsending\<close>, which a signal handler writes, is read once per turn.\<close>

function tx_loop :: "int \<Rightarrow> u64 \<Rightarrow> u64 \<Rightarrow> sysst \<Rightarrow> tx_end \<times> u64 \<times> sysst" where
  "tx_loop sig cnt n s =
     (case sys_int (Sys_libc ''stopsending'') s of
        (stop, s1) \<Rightarrow>
          if stop \<noteq> 0 then (Tx_stopped stop, n, s1)
          else
            (case sys_int (Sys_kill (nat sig)) s1 of
               (r, s2) \<Rightarrow>
                 if r \<noteq> 0 then (Tx_failed, n, complain s2)
                 else if n + 1 = cnt then (Tx_done, n + 1, s2)
                 else tx_loop sig cnt (n + 1) s2))"
  by pat_completeness auto
termination
  by (relation "measure (\<lambda>(sig, cnt, n, s). length (answers s))")
    (auto simp: sys_int_def sys_call_def failed_ret_def split: list.splits)

declare tx_loop.simps [simp del]

definition signaltx_main :: "(int \<Rightarrow> string) \<Rightarrow> string list \<Rightarrow> sysst \<Rightarrow> int \<times> sysst" where
  "signaltx_main strsignal argv s =
     (case tx_args argv s of
        (Args_exit c, pid, sig, cnt, s1) \<Rightarrow> (c, s1)
      | (Args_bad, pid, sig, cnt, s1) \<Rightarrow> (EXIT_FAILURE, s1)
      | (Args_ok, pid, sig, cnt, s1) \<Rightarrow>
          (case sys_int (Sys_sigaction SIGINT) s1 of (r, s2) \<Rightarrow>
           if r \<noteq> 0 then (EXIT_FAILURE, complain s2)
           else
          (case sys_int (Sys_sigaction SIGTERM) s2 of (r, s3) \<Rightarrow>
           if r \<noteq> 0 then (EXIT_FAILURE, complain s3)
           else
          (case tx_loop sig cnt 0 (sys_note (Sys_libc ''fflush'')
                  (out (''Using signal '' @ dec_string (nat sig) @ '' ('' @ strsignal sig @ '')...'') s3)) of
             (e, n, s4) \<Rightarrow>
               let s5 = (case e of
                           Tx_failed \<Rightarrow> s4
                         | Tx_done \<Rightarrow> out (''done.'' @ [CHR 0x0A]) s4
                         | Tx_stopped g \<Rightarrow> out (''got '' @ strsignal g @ ''.'' @ [CHR 0x0A]) s4)
               in (EXIT_SUCCESS, out (''Sent '' @ dec_string (unat n) @ '' signal'' @ (if n = 1 then [] else ''s'') @ ''.'' @
                     [CHR 0x0A]) s5)))))"

section \<open>Counting\<close>

lemma count_signal_entries:
  "fst (count_signal sig ws s) =
     (if sig \<in> sw_sig ` set ws then
        takeWhile (\<lambda>w. sw_sig w \<noteq> sig) ws @
        (case dropWhile (\<lambda>w. sw_sig w \<noteq> sig) ws of [] \<Rightarrow> [] | w # us \<Rightarrow> w\<lparr>sw_rx := sw_rx w + 1\<rparr> # us)
      else ws)"
  by (induction ws) (auto split: prod.splits)

text \<open>What is counted of a signal in all, over the entries that it has.\<close>

definition counted :: "nat \<Rightarrow> watched list \<Rightarrow> u64" where
  "counted sig ws = sum_list (map sw_rx (filter (\<lambda>w. sw_sig w = sig) ws))"

lemma count_signal_sigs: "map sw_sig (fst (count_signal sig ws s)) = map sw_sig ws"
  by (induction ws) (auto split: prod.splits)

lemma count_signal_counted:
  "counted g (fst (count_signal sig ws s)) = counted g ws + (if g = sig \<and> sig \<in> sw_sig ` set ws then 1 else 0)"
  by (induction ws) (auto simp: counted_def split: prod.splits)

definition counts_as :: "(nat \<Rightarrow> watched list \<Rightarrow> sysst \<Rightarrow> watched list \<times> sysst) \<Rightarrow> bool" where
  "counts_as h \<longleftrightarrow> (\<forall>sig ws s. \<exists>s'. fst (h sig ws s) = fst (count_signal sig ws s'))"

lemma handlers_count: "counts_as signalrx" "counts_as rxsignal"
  unfolding counts_as_def signalrx_def rxsignal_def by blast+

lemma deliver_counted:
  assumes "counts_as h" "g \<in> sw_sig ` set ws"
  shows "counted g (fst (deliver h sigs ws s)) = counted g ws + of_nat (count_list sigs g)"
  using assms(2)
proof (induction sigs arbitrary: ws s)
  case (Cons sig sigs)
  obtain ws1 s1 where h: "h sig ws s = (ws1, s1)" by fastforce
  then obtain s' where c: "ws1 = fst (count_signal sig ws s')" using assms(1) unfolding counts_as_def by (metis fst_conv)
  have "sw_sig ` set ws1 = sw_sig ` set ws" using count_signal_sigs [of sig ws s'] c by (metis list.set_map)
  then show ?case using Cons h count_signal_counted [of g sig ws s'] c by (auto simp: add.commute)
qed simp

lemma libev_report_exit: "fst (libev_report strsignal ws ret s) = (if \<exists>w\<in>set ws. sw_rx w \<noteq> 0 then EXIT_SUCCESS else ret)"
  by (induction ws arbitrary: ret s) auto

lemma deliver_unwatched:
  assumes "counts_as h" "set sigs \<inter> sw_sig ` set ws = {}"
  shows "fst (deliver h sigs ws s) = ws"
  using assms(2)
proof (induction sigs arbitrary: s)
  case (Cons sig sigs)
  obtain ws1 s1 where h: "h sig ws s = (ws1, s1)" by fastforce
  then have "ws1 = ws" using assms(1) count_signal_entries [of sig ws] Cons.prems unfolding counts_as_def by (metis (no_types) Int_iff empty_iff fst_conv list.set_intros(1))
  then show ?case using Cons h by simp
qed simp

lemma libev_watch_started:
  "libev_watch strsignal ws ss started s = (ok, started', s') \<Longrightarrow> \<forall>p\<in>set started. fst p \<noteq> 0 \<Longrightarrow> \<forall>p\<in>set started'. fst p \<noteq> 0"
  by (induction strsignal ws ss started s rule: libev_watch.induct) (auto split: if_splits option.splits prod.splits)

lemma torque_report_total:
  "fst (torque_report strsignal ws n s) = n + sum_list (map sw_rx ws)"
  by (induction ws arbitrary: n s) (auto simp: add.assoc)

fun is_kill :: "syscall \<Rightarrow> bool" where
  "is_kill (Sys_kill _) = True"
| "is_kill _ = False"

definition kills :: "sysst \<Rightarrow> nat" where
  "kills s = length (filter is_kill (calls s))"

lemma kills_int: "sys_int c s = (r, s') \<Longrightarrow> kills s' = kills s + (if is_kill c then 1 else 0)"
  by (auto simp: sys_int_def kills_def split: prod.splits dest!: sys_call_calls)

lemma tx_loop_mono: "tx_loop sig cnt n s = (e, m, s') \<Longrightarrow> kills s \<le> kills s'"
proof (induction sig cnt n s rule: tx_loop.induct)
  case (1 sig cnt n s)
  obtain stop s1 where st: "sys_int (Sys_libc ''stopsending'') s = (stop, s1)" by fastforce
  obtain r s2 where kl: "sys_int (Sys_kill (nat sig)) s1 = (r, s2)" by fastforce
  have kc: "kills (complain s2) = kills s2" by (simp add: kills_def complain_def sys_note_def)
  show ?case using "1.IH" [OF st [symmetric] _ kl [symmetric]] "1.prems" st kl kc kills_int [OF st] kills_int [OF kl]
    by (auto simp: tx_loop.simps [of sig cnt n s] split: if_splits)
qed

lemma tx_loop_sent:
  "tx_loop sig cnt n s = (e, m, s') \<Longrightarrow>
   kills s' = kills s + k \<Longrightarrow> m = n + of_nat (if e = Tx_failed then k - 1 else k) \<and> (e = Tx_failed \<longrightarrow> 0 < k) \<and> (e = Tx_done \<longrightarrow> m = cnt)"
proof (induction sig cnt n s arbitrary: k rule: tx_loop.induct)
  case (1 sig cnt n s)
  obtain stop s1 where st: "sys_int (Sys_libc ''stopsending'') s = (stop, s1)" by fastforce
  obtain r s2 where kl: "sys_int (Sys_kill (nat sig)) s1 = (r, s2)" by fastforce
  have ks: "kills s1 = kills s" "kills s2 = kills s + 1" using kills_int [OF st] kills_int [OF kl] by simp_all
  have kc: "kills (complain s2) = kills s2" by (simp add: kills_def complain_def sys_note_def)
  show ?case
  proof (cases "stop = 0 \<and> r = 0 \<and> n + 1 \<noteq> cnt")
    case True
    then have go: "tx_loop sig cnt (n + 1) s2 = (e, m, s')"
      using "1.prems"(1) st kl by (simp add: tx_loop.simps [of sig cnt n s])
    have mono: "kills s2 \<le> kills s'" using tx_loop_mono [OF go] .
    then obtain j where j: "k = Suc j" using "1.prems"(2) ks by (cases k) auto
    have "kills s' = kills s2 + j" using "1.prems"(2) ks j by simp
    from "1.IH" [OF st [symmetric] _ kl [symmetric] _ _ go this] True j show ?thesis
      by (cases j) (auto simp: ac_simps)
  next
    case False
    then show ?thesis using "1.prems" st kl ks kc by (auto simp: tx_loop.simps [of sig cnt n s] split: if_splits)
  qed
qed

section \<open>Properties\<close>

text \<open>
  Fact: every signal is counted once. After any sequence of signals, what the table of either program holds for a signal it
  watches, over all its entries, is the number of its occurrences (modulo the range of the 64-bit counters), although two entries of the table stand for
  the same signal.
\<close>

theorem signals_counted:
  assumes "g \<in> {1, 10, 12, 13, 14, 23, 28, 29}"
  shows "counted g (fst (deliver signalrx sigs torque_watched s)) = of_nat (count_list sigs g) \<and>
    counted g (fst (deliver rxsignal sigs libev_watched s)) = of_nat (count_list sigs g)"
proof -
  have "g \<in> sw_sig ` set torque_watched" "g \<in> sw_sig ` set libev_watched"
    using assms by (auto simp: torque_watched_def libev_watched_def fresh_def)
  moreover have "counted g torque_watched = 0" "counted g libev_watched = 0"
    by (simp_all add: counted_def torque_watched_def libev_watched_def fresh_def)
  ultimately show ?thesis using deliver_counted handlers_count by auto
qed

theorem signals_counted_witness:
  "counted 29 (fst (deliver signalrx [29, 1, 29] torque_watched (os_answering []))) = 2"
  using signals_counted [of 29 "[29, 1, 29]" "os_answering []"] by simp

text \<open>
  Fact: the program over libev never reports a signal. It starts the watcher of each signal on a loop of its own, and runs only the default
  loop, on which it watches SIGINT; as a loop calls back only for its own watchers (\<open>delivered\<close>), every run that is not a request for the version fails.
\<close>

theorem libev_never_receives:
  assumes "\<And>st. set (delivered st) \<subseteq> {sig. (0, sig) \<in> set st}" "libev_main strsignal delivered s = (ret, s')"
  shows "ret = EXIT_FAILURE \<or> (\<exists>s1. libev_args s = (Args_exit ret, s1))"
proof -
  have none: "fst (deliver rxsignal (delivered (st @ [(0, SIGINT)])) libev_watched t) = libev_watched"
    if "\<forall>p\<in>set st. fst p \<noteq> 0" for st t
  proof (rule deliver_unwatched [OF handlers_count(2)])
    have "set (delivered (st @ [(0, SIGINT)])) \<subseteq> {SIGINT}" using assms(1) [of "st @ [(0, SIGINT)]"] that by force
    then show "set (delivered (st @ [(0, SIGINT)])) \<inter> sw_sig ` set libev_watched = {}"
      by (auto simp: libev_watched_def fresh_def)
  qed
  have fail: "fst (libev_report strsignal libev_watched EXIT_FAILURE t) = EXIT_FAILURE" for t
    by (simp add: libev_report_exit libev_watched_def fresh_def)
  obtain r s1 where a: "libev_args s = (r, s1)" by fastforce
  obtain ok s2 where l: "sys_alloc (Sys_libc ''ev_default_loop'') s1 = (ok, s2)" by fastforce
  obtain ok' st s3 where w: "libev_watch strsignal libev_watched {17} [] s2 = (ok', st, s3)" by (cases rule: prod_cases3)
  let ?s = "sys_note (Sys_libc ''ev_loop'') (sys_note (Sys_libc ''ev_signal_start'') s3)"
  obtain ws s4 where d: "deliver rxsignal (delivered (st @ [(0, SIGINT)])) libev_watched ?s = (ws, s4)" by fastforce
  have "ws = libev_watched" using none [of st ?s] libev_watch_started [OF w] d by simp
  then have rep: "fst (libev_report strsignal ws EXIT_FAILURE s4) = EXIT_FAILURE" using fail by simp
  show ?thesis using assms(2) a l w d rep
    by (cases r) (auto simp: libev_main_def libev_err_def sigaddset_def split: prod.splits if_splits)
qed

theorem libev_never_receives_witness:
  "fst (libev_main (\<lambda>_. []) (\<lambda>st. map snd (filter (\<lambda>p. fst p = 0) st)) (os_answering (failed_ret # replicate 11 ok_ret))) = EXIT_FAILURE"
proof -
  let ?d = "\<lambda>st :: (nat \<times> nat) list. map snd (filter (\<lambda>p. fst p = 0) st)"
  obtain ret s' where run: "libev_main (\<lambda>_. []) ?d (os_answering (failed_ret # replicate 11 ok_ret)) = (ret, s')" by fastforce
  have d: "set (?d st) \<subseteq> {sig. (0, sig) \<in> set st}" for st by auto
  have "fst (libev_args (os_answering (failed_ret # replicate 11 ok_ret))) = Args_ok"
    by (simp add: libev_args_def io_simps)
  with libev_never_receives [OF d run] run show ?thesis by auto
qed

text \<open>
  Fact: the sender sends what it was asked for. When its loop ends by itself, it has made exactly as many successful calls of \<open>kill\<close>, modulo the
  range of the counter, as the count; when it is stopped, as many as it reports.
\<close>

theorem sender_counts:
  assumes "tx_loop sig cnt 0 s = (e, n, s')" "e \<noteq> Tx_failed"
  shows "kills s \<le> kills s' \<and> n = of_nat (kills s' - kills s) \<and> (e = Tx_done \<longrightarrow> n = cnt)"
  using tx_loop_sent [OF assms(1), of "kills s' - kills s"] tx_loop_mono [OF assms(1)] assms(2) by auto

theorem sender_counts_witness:
  "\<exists>s'. tx_loop 10 2 0 (os_answering [zero_ret, zero_ret, zero_ret, zero_ret]) = (Tx_done, 2, s') \<and> kills s' = 2"
proof -
  obtain s' where run: "tx_loop 10 2 0 (os_answering [zero_ret, zero_ret, zero_ret, zero_ret]) = (Tx_done, 2, s')"
    by (simp add: tx_loop.simps io_simps)
  moreover have "kills s' = 2"
    using run by (auto simp: tx_loop.simps io_simps kills_def)
  ultimately show ?thesis using sender_counts [OF run] by simp
qed

end
