(* ===== verification/Net_Tools.thy ===== *)
theory Net_Tools
  imports Echoserver Tls
begin

text \<open>
  The other two network tools: \<^verbatim>\<open>src/tools/testing/spinconn.c\<close>, which makes connections as fast as it can, and the program of \<^verbatim>\<open>src/tools/testing/torquessl.c\<close>
  around the echo handler that theory \<open>Ssl\<close> holds.
\<close>

section \<open>Spinning connections: arguments\<close>

datatype fdmaker = Fd_ssl | Fd_udp | Fd_tcp

text \<open>
  An answer of \<open>getopt_long\<close>: the option in \<open>rv\<close>, the flag of a long option in \<open>rerr\<close>, the number of the argument in \<open>rout\<close>; 104, 115, 116,
  117 and 118 are the characters h, s, t, u and v. The long options are declared without arguments, so \<open>optarg\<close> is then a null pointer, which \<open>atoi\<close>
  follows. After a port has been stored, the inner \<open>break\<close> leads to the \<open>default\<close> of the outer \<open>switch\<close>.
\<close>

definition spin_port :: "fdmaker \<Rightarrow> int \<Rightarrow> 16 word \<Rightarrow> sysst \<Rightarrow> args \<times> 16 word \<times> fdmaker option \<times> sysst" where
  "spin_port mk p port s =
     (if p > 0xffff \<or> p = 0 then (Args_bad, port, None, complain s)
      else if port \<noteq> 0 then (Args_bad, port, None, complain (complain s))
      else (Args_bad, of_int p, Some mk, complain s))"

definition spin_args :: "sysst \<Rightarrow> (args \<times> 16 word \<times> fdmaker \<times> sysst) option" where
  "spin_args s =
     (case sys_call (Sys_libc ''getopt_long'') s of
        (a, s1) \<Rightarrow>
          if rv a < 0 then Some (Args_ok, DEFAULT_PORT, Fd_tcp, s1)
          else
            let short = (rv a = 104 \<or> rv a = 115 \<or> rv a = 116 \<or> rv a = 117);
                lflag = (if short then nat (rv a) else rerr a);
                ported = (\<lambda>mk. if short
                   then (case spin_port mk (rout a) 0 s1 of (r, port, m, s2) \<Rightarrow> Some (r, port, mk, s2)) else None)
            in if \<not> short \<and> rv a \<noteq> 0 then Some (Args_bad, 0, Fd_tcp, complain s1)
               else if lflag = 104 then Some (Args_exit EXIT_SUCCESS, 0, Fd_tcp, complain s1)
               else if lflag = 115 then ported Fd_ssl
               else if lflag = 116 then ported Fd_tcp
               else if lflag = 117 then ported Fd_udp
               else if lflag = 118 then Some (Args_exit EXIT_SUCCESS, 0, Fd_tcp, complain s1)
               else Some (Args_bad, 0, Fd_tcp, complain s1))"

section \<open>Spinning connections: the callback and the program\<close>

definition nb_socket :: "sysst \<Rightarrow> int \<times> sysst" where
  "nb_socket s =
     (case sys_int (Sys_libc ''socket'') s of
        (fd, s1) \<Rightarrow>
          if fd < 0 then (fd, s1)
          else
            (case sys_int (Sys_fcntl fd) s1 of
               (flags, s2) \<Rightarrow>
                 if flags < 0 then (- 1, sys_note (Sys_close fd) s2)
                 else
                   (case sys_int (Sys_fcntl fd) s2 of
                      (r, s3) \<Rightarrow> if r \<noteq> 0 then (- 1, sys_note (Sys_close fd) s3) else (fd, s3))))"

fun make_fd :: "fdmaker \<Rightarrow> sysst \<Rightarrow> int \<times> sysst" where
  "make_fd Fd_ssl s = (- 1, s)"
| "make_fd Fd_udp s = nb_socket s"
| "make_fd Fd_tcp s = nb_socket s"

definition conn_complete_fn :: nat where "conn_complete_fn = 2"

partial_function (option) conn_spin ::
  "torque_ctx \<Rightarrow> fdmaker \<Rightarrow> conn_heap \<Rightarrow> sysst \<Rightarrow> (torque_ctx \<times> conn_heap \<times> sysst) option" where
  "conn_spin ctx mk ch s =
     (case make_fd mk s of
        (sd, s1) \<Rightarrow>
          if sd < 0 then Some (ctx, ch, s1)
          else
            Option.bind (torque_addconnector_unbuffered ctx sd None (Some conn_complete_fn) 0 ch s1)
              (\<lambda>(e, ctx1, ch1, s2).
                 if e \<noteq> 0 then Some (ctx1, ch1, sys_note (Sys_close sd) (complain s2))
                 else conn_spin ctx1 mk ch1 s2))"

declare conn_spin.simps [code]

definition conn_complete_cb ::
  "torque_ctx \<Rightarrow> fdmaker \<Rightarrow> int \<Rightarrow> conn_heap \<Rightarrow> sysst \<Rightarrow> (torque_ctx \<times> conn_heap \<times> sysst) option" where
  "conn_complete_cb ctx mk fd ch s = conn_spin ctx mk ch (sys_note (Sys_close fd) s)"

definition spin_run :: "16 word \<Rightarrow> fdmaker \<Rightarrow> torque_ctx \<Rightarrow> conn_heap \<Rightarrow> sysst \<Rightarrow> (int \<times> sysst) option" where
  "spin_run port mk ctx ch s =
     (case make_fd mk s of
        (sd, s1) \<Rightarrow>
          if sd < 0 then echo_err (Some ctx) sd (complain s1)
          else
            (case torque_addconnector_unbuffered ctx sd None (Some conn_complete_fn) 0 ch
                    (out (''Spinning connections to port '' @ dec_string (unat port) @ ''...'' @ [CHR 0x0A]) s1) of
               None \<Rightarrow> None
             | Some (e, ctx1, ch1, s2) \<Rightarrow>
                 if e \<noteq> 0 then echo_err (Some ctx1) sd (complain s2)
                 else
                   (case torque_block (Some ctx1) s2 of
                      None \<Rightarrow> None
                    | Some (e, s3) \<Rightarrow>
                        if e \<noteq> 0 then Some (EXIT_FAILURE, complain s3)
                        else Some (EXIT_SUCCESS, out (''Successfully cleaned up.'' @ [CHR 0x0A]) s3))))"

definition spin_main ::
  "bool \<Rightarrow> (nat \<Rightarrow> cpuid_fn) \<Rightarrow> int \<Rightarrow> torque_ctx \<Rightarrow> conn_heap \<Rightarrow> sysst \<Rightarrow> (int \<times> sysst) option" where
  "spin_main avail cpuids CUDA_VERSION raw ch s =
     (case spin_args s of
        None \<Rightarrow> None
      | Some (Args_exit c, port, mk, s1) \<Rightarrow> Some (c, s1)
      | Some (Args_bad, port, mk, s1) \<Rightarrow> Some (EXIT_FAILURE, s1)
      | Some (Args_ok, port, mk, s1) \<Rightarrow>
          (case torque_sigmask s1 of
             (e, os, s2) \<Rightarrow>
               if e \<noteq> 0 then Some (EXIT_FAILURE, complain s2)
               else
                 (case torque_init avail cpuids CUDA_VERSION raw s2 of
                    None \<Rightarrow> None
                  | Some (e, None, s3) \<Rightarrow> echo_err None (- 1) (complain s3)
                  | Some (e, Some ctx, s3) \<Rightarrow> spin_run port mk ctx ch s3)))"

section \<open>The TLS server\<close>

text \<open>
  The options: certificate, key and authority, and the port. The argument of an option that names a file is in \<open>rdata\<close>, the number of \<open>-p\<close> in \<open>rout\<close>, the flag of
  a long option in \<open>rerr\<close>; 67, 99, 104, 107, 112 and 118 are the characters C, c, h, k, p and v.
\<close>

record tls_opts =
  o_cert :: "string option"
  o_key :: "string option"
  o_ca :: "string option"
  o_port :: "16 word"

definition tls_option :: "sysret \<Rightarrow> tls_opts \<Rightarrow> sysst \<Rightarrow> args option \<times> tls_opts \<times> sysst" where
  "tls_option a ops s =
     (let bad = (Some Args_bad, ops, complain s); twice = (Some Args_bad, ops, complain (complain s));
          file = Some (bytes_string (rdata a))
      in if rv a = 112 then
           if rout a > 0xffff \<or> rout a = 0 then bad
           else if o_port ops \<noteq> 0 then twice
           else (None, ops\<lparr>o_port := of_int (rout a)\<rparr>, s)
         else if rv a = 99 then if o_cert ops = None then (None, ops\<lparr>o_cert := file\<rparr>, s) else twice
         else if rv a = 107 then if o_key ops = None then (None, ops\<lparr>o_key := file\<rparr>, s) else twice
         else if rv a = 67 then if o_ca ops = None then (None, ops\<lparr>o_ca := file\<rparr>, s) else twice
         else if rv a = 104 then (Some (Args_exit EXIT_SUCCESS), ops, complain s)
         else if rv a = 0 \<and> rerr a = 118 then (Some (Args_exit EXIT_SUCCESS), ops, complain s)
         else bad)"

function tls_args :: "tls_opts \<Rightarrow> sysst \<Rightarrow> args \<times> tls_opts \<times> sysst" where
  "tls_args ops s =
     (case sys_call (Sys_libc ''getopt_long'') s of
        (a, s1) \<Rightarrow>
          if rv a < 0 then (Args_ok, ops, s1)
          else
            (case tls_option a ops s1 of
               (Some r, ops1, s2) \<Rightarrow> (r, ops1, s2)
             | (None, ops1, s2) \<Rightarrow> tls_args ops1 s2))"
  by pat_completeness auto
termination
  by (relation "measure (\<lambda>(ops, s). length (answers s))")
    (auto simp: sys_call_def failed_ret_def tls_option_def Let_def split: list.splits if_splits)

declare tls_args.simps [simp del]

definition ssl_conn_handler_fn :: nat where "ssl_conn_handler_fn = 3"

text \<open>\<open>make_ssl_fd\<close> has the text of \<open>make_echo_fd\<close>.\<close>

definition make_ssl_fd :: "sysst \<Rightarrow> int \<times> sysst" where
  "make_ssl_fd s = make_echo_fd s"

text \<open>The error exit: a context of OpenSSL that is not there is the null pointer, which \<open>SSL_CTX_free\<close> takes.\<close>

definition tls_err :: "torque_ctx option \<Rightarrow> ssl_globals \<Rightarrow> int \<Rightarrow> sysst \<Rightarrow> (int \<times> sysst) option" where
  "tls_err octx g sd s =
     (case torque_stop octx s of
        None \<Rightarrow> None
      | Some (e, s1) \<Rightarrow>
          if e \<noteq> 0 then Some (EXIT_FAILURE, complain s1)
          else
            (case torque_stop_ssl g s1 of
               None \<Rightarrow> None
             | Some (r, g1, s2) \<Rightarrow>
                 if r \<noteq> 0 then Some (EXIT_FAILURE, complain s2)
                 else
                   let s3 = sys_note (Sys_ssl ''SSL_CTX_free'') s2 in
                   if sd \<ge> 0 then
                     (case sys_int (Sys_close sd) s3 of
                        (r, s4) \<Rightarrow> Some (EXIT_FAILURE, if r \<noteq> 0 then complain s4 else s4))
                   else Some (EXIT_FAILURE, s3)))"

text \<open>From the context of OpenSSL on; \<open>no_sslv2\<close> is the constant of the OpenSSL headers that \<open>torque_ssl_ctx\<close> tests.\<close>

definition tls_serve ::
  "(int \<Rightarrow> string) \<Rightarrow> u32 \<Rightarrow> tls_opts \<Rightarrow> int \<Rightarrow> ssl_globals \<Rightarrow> torque_ctx \<Rightarrow> ssl_heap \<Rightarrow> sysst \<Rightarrow> (int \<times> sysst) option" where
  "tls_serve strsignal no_sslv2 ops sd g ctx h s =
     (case torque_ssl_ctx no_sslv2 (o_cert ops) (o_key ops) (o_ca ops) s of
        (None, s1) \<Rightarrow> tls_err (Some ctx) g sd (complain s1)
      | (Some sslctx, s1) \<Rightarrow>
          (case torque_addssl sd sslctx (Some ssl_conn_handler_fn) None 0 \<lparr>sw_ctx = ctx, sw_heap = h, sw_sys = s1\<rparr> of
             None \<Rightarrow> None
           | Some (e, w) \<Rightarrow>
               if e \<noteq> 0 then tls_err (Some (sw_ctx w)) g sd (complain (sw_sys w))
               else
                 (case sys_call (Sys_libc ''sigwait'') (out (''Waiting on termination signal...'' @ [CHR 0x0A]) (sw_sys w)) of
                    (a, s2) \<Rightarrow>
                      if rv a \<noteq> 0 then tls_err (Some (sw_ctx w)) g sd (complain s2)
                      else
                        (case torque_stop (Some (sw_ctx w))
                                (out (''Got signal '' @ int_string (rout a) @ '' ('' @ strsignal (rout a) @ ''), closing down...'' @ [CHR 0x0A]) s2) of
                           None \<Rightarrow> None
                         | Some (e, s3) \<Rightarrow>
                             if e \<noteq> 0 then Some (EXIT_FAILURE, complain s3)
                             else
                               (case torque_stop_ssl g s3 of
                                  None \<Rightarrow> None
                                | Some (r, g1, s4) \<Rightarrow>
                                    if r \<noteq> 0 then Some (EXIT_FAILURE, complain s4)
                                    else Some (EXIT_SUCCESS, out (''Successfully cleaned up.'' @ [CHR 0x0A]) s4))))))"

definition tls_main ::
  "(int \<Rightarrow> string) \<Rightarrow> u32 \<Rightarrow> bool \<Rightarrow> (nat \<Rightarrow> cpuid_fn) \<Rightarrow> int \<Rightarrow> torque_ctx \<Rightarrow> ssl_globals \<Rightarrow> ssl_heap \<Rightarrow> sysst \<Rightarrow> (int \<times> sysst) option" where
  "tls_main strsignal no_sslv2 avail cpuids CUDA_VERSION raw g h s =
     (case tls_args \<lparr>o_cert = None, o_key = None, o_ca = None, o_port = 0\<rparr> s of
        (Args_exit c, ops, s1) \<Rightarrow> Some (c, s1)
      | (Args_bad, ops, s1) \<Rightarrow> Some (EXIT_FAILURE, s1)
      | (Args_ok, ops, s1) \<Rightarrow>
          (case sys_int (Sys_sigmask ''SETMASK'' {SIGINT, SIGTERM}) s1 of
             (r, s2) \<Rightarrow>
               if r \<noteq> 0 then Some (EXIT_FAILURE, complain s2)
               else
                 (case torque_init avail cpuids CUDA_VERSION raw s2 of
                    None \<Rightarrow> None
                  | Some (e, None, s3) \<Rightarrow> tls_err None g (- 1) (complain s3)
                  | Some (e, Some ctx, s3) \<Rightarrow>
                      (case make_ssl_fd s3 of
                         (sd, s4) \<Rightarrow>
                           if sd < 0 then tls_err (Some ctx) g sd (complain s4)
                           else
                             (case torque_init_ssl g s4 of
                                None \<Rightarrow> None
                              | Some (r, g1, s5) \<Rightarrow>
                                  if r \<noteq> 0 then tls_err (Some ctx) g1 sd (complain s5)
                                  else tls_serve strsignal no_sslv2 ops sd g1 ctx h s5)))))"

section \<open>Facts\<close>

text \<open>
  Fact: no port can be chosen. Every option of \<^verbatim>\<open>spinconn\<close> that names a port ends the program with an error (or, as a long option, follows a null
  pointer): the program can only be run with its defaults.
\<close>

theorem spin_args_only_default:
  "case spin_args s of None \<Rightarrow> True
   | Some (r, port, mk, s') \<Rightarrow> r = Args_ok \<longrightarrow> port = DEFAULT_PORT \<and> mk = Fd_tcp"
  by (auto simp: spin_args_def spin_port_def Let_def split: prod.splits)

lemma connecting_returns:
  assumes "tables_wf ctx" "0 \<le> fd"
  shows "\<exists>e ctx' ch' s'. connecting ctx fd rx tx v ch s = Some (e, ctx', ch', s') \<and> tables_wf ctx' \<and> sys_quiet sd s s'"
proof (cases "errno s = EINPROGRESS")
  case False
  then show ?thesis using assms by (simp add: connecting_def sys_quiet_refl)
next
  case True
  obtain q s1 where p: "sys_ptr (Sys_malloc ''conncb'') s = (q, s1)" by fastforce
  have q1: "sys_quiet sd s s1" by (rule sys_quiet_ptr [OF p]) simp
  show ?thesis
  proof (cases q)
    case None
    then show ?thesis using True p assms q1 by (simp add: connecting_def create_conncb_def)
  next
    case (Some a)
    obtain r ctx' s2 where f: "add_fd_to_evhandler ctx fd None (Some Cb_conn_unbuffered_txfxn) (Ptr_obj a) EVONESHOT s1 = Some (r, ctx', s2)"
      and wf: "tables_wf ctx'"
      using add_fd_cases [OF assms(1), of fd None "Some Cb_conn_unbuffered_txfxn" "Ptr_obj a" EVONESHOT s1] by blast
    have "sys_quiet sd s s2" by (rule sys_quiet_trans [OF q1 sys_quiet_add_fd [OF f]])
    then show ?thesis using True p Some f wf
      by (simp add: connecting_def create_conncb_def free_conncb_def sys_quiet_after_note)
  qed
qed

lemma addconnector_returns:
  assumes "tables_wf ctx" "0 \<le> fd"
  shows "\<exists>e ctx' ch' s'. torque_addconnector_unbuffered ctx fd rx tx v ch s = Some (e, ctx', ch', s') \<and> tables_wf ctx' \<and>
    sys_quiet sd s s'"
proof -
  obtain r s1 where c: "sys_int (Sys_connect fd) s = (r, s1)" by fastforce
  have q1: "sys_quiet sd s s1" by (rule sys_quiet_int [OF c]) simp
  show ?thesis
  proof (cases "r = 0")
    case True
    obtain e ctx' s2 where f: "add_fd_to_evhandler ctx fd (map_option Cb_user rx) (map_option Cb_user tx) (Ptr_user v) EVONESHOT s1 =
        Some (e, ctx', s2)" and wf: "tables_wf ctx'"
      using add_fd_cases [OF assms(1), of fd "map_option Cb_user rx" "map_option Cb_user tx" "Ptr_user v" EVONESHOT s1] by blast
    have "sys_quiet sd s s2" by (rule sys_quiet_trans [OF q1 sys_quiet_add_fd [OF f]])
    then show ?thesis using True c f wf assms(2)
      by (simp add: torque_addconnector_unbuffered_def torque_addfd_unbuffered_def)
  next
    case False
    then show ?thesis using connecting_returns [OF assms, of rx tx v ch s1 sd] c assms(2) sys_quiet_trans [OF q1]
      by (auto simp: torque_addconnector_unbuffered_def)
  qed
qed

lemma nb_socket_fd:
  assumes "nb_socket s = (fd, s')" "0 \<le> fd"
  shows "length (answers s') < length (answers s) \<and> closes fd s' = closes fd s"
proof -
  obtain sd s1 where a: "sys_int (Sys_libc ''socket'') s = (sd, s1)" by fastforce
  obtain fl s2 where b: "sys_int (Sys_fcntl sd) s1 = (fl, s2)" by fastforce
  obtain r s3 where c: "sys_int (Sys_fcntl sd) s2 = (r, s3)" by fastforce
  have r: "fd = sd \<and> s' = s3" using assms a b c by (auto simp: nb_socket_def split: if_splits)
  have q: "sys_quiet fd s1 s3" "sys_quiet fd s s1"
    using sys_quiet_trans [OF sys_quiet_int [OF b] sys_quiet_int [OF c], of fd] sys_quiet_int [OF a, of fd] by simp_all
  show ?thesis using r q sys_quiet_answers(1) [OF q(1)] sys_accept_answers [OF a] assms(2) by (auto simp: sys_quiet_def)
qed

lemma make_fd_answers: "make_fd mk s = (fd, s') \<Longrightarrow> 0 \<le> fd \<Longrightarrow> length (answers s') < length (answers s)"
  using nb_socket_fd by (cases mk) auto

lemma conn_spin_returns:
  "tables_wf ctx \<Longrightarrow> \<exists>ctx' ch' s'. conn_spin ctx mk ch s = Some (ctx', ch', s') \<and> tables_wf ctx'"
proof (induction "length (answers s)" arbitrary: ctx ch s rule: less_induct)
  case less
  obtain sd s1 where m: "make_fd mk s = (sd, s1)" by fastforce
  show ?case
  proof (cases "sd < 0")
    case True
    then show ?thesis using m less.prems by (subst conn_spin.simps) simp
  next
    case False
    obtain e ctx1 ch1 s2 where c: "torque_addconnector_unbuffered ctx sd None (Some conn_complete_fn) 0 ch s1 = Some (e, ctx1, ch1, s2)"
      and wf: "tables_wf ctx1" and q: "sys_quiet sd s1 s2"
      using addconnector_returns [OF less.prems, of sd None "Some conn_complete_fn" 0 ch s1 sd] False by auto
    have "length (answers s2) < length (answers s)"
      using make_fd_answers [OF m] False sys_quiet_answers(1) [OF q] by simp
    from less.hyps [OF this wf, of ch1] show ?thesis using m False c wf by (subst conn_spin.simps) simp
  qed
qed

text \<open>
  Fact: completing a connection ends. \<open>conn_complete_cb\<close> closes the connection and opens others until the system or the library refuses one, which
  it does at some point; the tables of the context stay in order.
\<close>

theorem spinning_ends:
  assumes "tables_wf ctx"
  shows "\<exists>ctx' ch' s'. conn_complete_cb ctx mk fd ch s = Some (ctx', ch', s') \<and> tables_wf ctx'"
  using conn_spin_returns [OF assms] by (simp add: conn_complete_cb_def)

theorem spinning_ends_witness:
  "\<exists>ctx' ch' s'. conn_complete_cb sample_table Fd_tcp 0 Map.empty (os_answering [zero_ret, zero_ret, zero_ret, zero_ret]) = Some (ctx', ch', s') \<and>
     tables_wf ctx'"
  by (rule spinning_ends) (simp add: tables_wf_def sample_table_def)

end
