(* ===== verification/Portable.thy ===== *)
theory Portable
  imports Torque Shutdown
begin

text \<open>
  The branches of the sources for Linux without signalfd and timerfd: \<^verbatim>\<open>events/sysdep.h\<close>, \<^verbatim>\<open>events/sysdep.c\<close>,
  \<^verbatim>\<open>events/signal.c\<close>, \<^verbatim>\<open>events/timer.c\<close> and \<^verbatim>\<open>events/thread.c\<close>. A signal interrupts the wait of a thread; its
  handler leaves the number in a variable that the thread looks at before it waits again.
\<close>

section \<open>Signals without signalfd\<close>

text \<open>
  The handler of a signal; \<open>ctx\<close> is null on a thread that is not the library's. It restores the \<open>errno\<close> that it found.
  \<open>call\<close> is the effect of the callbacks on the system.
\<close>

definition signal_demultiplexer ::
  "(invocation list \<Rightarrow> sysst \<Rightarrow> sysst) \<Rightarrow> evsource list option \<Rightarrow> nat \<Rightarrow> u64 \<Rightarrow> sysst \<Rightarrow> (u64 \<times> sysst) option" where
  "signal_demultiplexer call ctx sig events s =
     (case ctx of
        None \<Rightarrow> Some (events, s)
      | Some sigs \<Rightarrow>
          (case handle_evsource_read sigs sig of
             None \<Rightarrow> None
           | Some ivs \<Rightarrow> Some (events + 1, (call ivs s)\<lparr>errno := errno s\<rparr>)))"

definition init_epoll_sigset :: "nat set \<Rightarrow> nat set option" where
  "init_epoll_sigset ss =
     (case sigdelset ss SIGTERM of None \<Rightarrow> None | Some ss1 \<Rightarrow> sigdelset ss1 SIGINT)"

text \<open>The loop over the signals: the set, the result so far, and the system.\<close>

fun epoll_sigset_loop :: "nat set \<Rightarrow> nat list \<Rightarrow> int \<Rightarrow> nat set \<Rightarrow> sysst \<Rightarrow> int \<times> nat set \<times> sysst" where
  "epoll_sigset_loop ss [] ret base s = (ret, base, s)"
| "epoll_sigset_loop ss (z # zs) ret base s =
     (if z \<notin> ss then epoll_sigset_loop ss zs ret base s
      else
        (case sys_int (Sys_sigaction z) s of
           (r, s1) \<Rightarrow>
             if r \<noteq> 0 then epoll_sigset_loop ss zs (- 1) base s1
             else
               (case sigdelset base z of
                  None \<Rightarrow> epoll_sigset_loop ss zs (- 1) base s1
                | Some base' \<Rightarrow> epoll_sigset_loop ss zs ret base' s1)))"

definition add_epoll_sigset :: "nat set \<Rightarrow> nat \<Rightarrow> nat set \<Rightarrow> sysst \<Rightarrow> int \<times> nat set \<times> sysst" where
  "add_epoll_sigset ss maxsignal base s =
     (case sys_int (Sys_pthread ''mutex_lock'') s of
        (r, s1) \<Rightarrow>
          if r \<noteq> 0 then (- 1, base, s1)
          else
            (case epoll_sigset_loop ss [1..<maxsignal] 0 base s1 of
               (ret, base', s2) \<Rightarrow> (ret, base', sys_note (Sys_pthread ''mutex_unlock'') s2)))"

section \<open>A timer without timerfd\<close>

text \<open>The one timer of the context, \<open>eventtables.timerev\<close>: absent, or the marshal that its source holds.\<close>

definition add_itimer ::
  "nat option \<Rightarrow> nat \<Rightarrow> nat \<Rightarrow> timer_heap \<Rightarrow> sysst \<Rightarrow> torque_err \<times> nat option \<times> timer_heap \<times> sysst" where
  "add_itimer timerev tfxn cbstate h s =
     (case create_timerfd_marshal tfxn cbstate h s of
        (None, h1, s1) \<Rightarrow> (TORQUE_ERR_RESOURCE, timerev, h1, s1)
      | (Some tm, h1, s1) \<Rightarrow>
          let freed = (\<lambda>t. sys_note (Sys_free ''timerfd_marshal'') t) in
          if timerev \<noteq> None then (TORQUE_ERR_RESOURCE, timerev, h1(tm := None), freed s1)
          else
            (case create_evsources 1 s1 of
               (None, s2) \<Rightarrow> (TORQUE_ERR_RESOURCE, timerev, h1(tm := None), freed s2)
             | (Some ev, s2) \<Rightarrow>
                 (case sys_int (Sys_libc ''setitimer'') s2 of
                    (r, s3) \<Rightarrow>
                      if r \<noteq> 0
                      then (TORQUE_ERR_INVAL, timerev, h1(tm := None), freed (snd (destroy_evsources s3)))
                      else (0, Some tm, h1, s3))))"

section \<open>Waiting with a signal mask\<close>

text \<open>
  The mask of the wait is in force only around \<open>epoll_wait\<close>. The result of the second \<open>pthread_sigmask\<close> is not used.
\<close>

definition kevent_retrieve_masked :: "nat set \<Rightarrow> int \<Rightarrow> nat \<Rightarrow> sysst \<Rightarrow> int \<times> (int \<times> u32) list \<times> sysst" where
  "kevent_retrieve_masked epoll_sigset epfd nevents s =
     (case sys_call (Sys_sigmask ''SETMASK'' epoll_sigset) s of
        (a, s1) \<Rightarrow>
          if rv a \<noteq> 0 then (- 1, [], s1)
          else
            (case sys_call (Sys_epoll_wait epfd nevents) s1 of
               (b, s2) \<Rightarrow> (rv b, take nevents (revents b), sys_note (Sys_sigmask ''SETMASK'' (rset a)) s2)))"

text \<open>\<open>pwait\<close> tells whether \<open>TORQUE_LINUX_PWAIT\<close> is defined.\<close>

definition Kevent_masked ::
  "bool \<Rightarrow> nat set \<Rightarrow> int \<Rightarrow> kchange list \<Rightarrow> nat \<Rightarrow> sysst \<Rightarrow> int \<times> (int \<times> u32) list \<times> sysst" where
  "Kevent_masked pwait epoll_sigset epfd changelist nevents s =
     (case kevent_changes changelist 0 s of
        (ret, s1) \<Rightarrow>
          if ret \<noteq> 0 then (ret, [], s1)
          else if nevents = 0 then (0, [], s1)
          else if pwait then
            (case sys_call (Sys_epoll_pwait epfd nevents epoll_sigset) s1 of
               (a, s2) \<Rightarrow>
                 if rv a < 0 \<and> errno s2 = ENOSYS then kevent_retrieve_masked epoll_sigset epfd nevents s2
                 else (rv a, take nevents (revents a), s2))
          else kevent_retrieve_masked epoll_sigset epfd nevents s1)"

definition add_signal_masked ::
  "torque_ctx \<Rightarrow> nat set \<Rightarrow> cbfn option \<Rightarrow> cbptr \<Rightarrow> nat set \<Rightarrow> sysst \<Rightarrow>
     (torque_err \<times> torque_ctx \<times> nat set \<times> sysst) option" where
  "add_signal_masked ctx sigs rfxn cbstate base s =
     (let evt = ctx_eventtables ctx in
      case add_signals_from sigs rfxn cbstate (sigarraysize evt) 1 (sigarray evt) of
        None \<Rightarrow> None
      | Some evs \<Rightarrow>
          (case add_epoll_sigset sigs (sigarraysize evt) base s of
             (r, base', s') \<Rightarrow> Some (if r \<noteq> 0 then TORQUE_ERR_ASSERT else 0, set_sigarray evs ctx, base', s')))"

section \<open>Termination by a flag\<close>

text \<open>The handler's argument besides the signal is unused; its result is the new content of \<open>sem_rxcommonsignal\<close>.\<close>

definition rxcommonsignal_handler :: "nat \<Rightarrow> nat" where
  "rxcommonsignal_handler sig = sig"

text \<open>
  The result has the thread's exit, or \<open>None\<close> inside when the thread goes on, and the flag.
\<close>

definition check_for_termination ::
  "nat \<Rightarrow> torque_ctx \<Rightarrow> nat \<Rightarrow> evthreadstats \<Rightarrow> sysst \<Rightarrow> (thread_result option \<times> nat \<times> sysst) option" where
  "check_for_termination sem ctx tid stats s =
     (if sem \<noteq> 0 then map_option (\<lambda>(ret, s'). (ret, 0, s')) (rxcommonsignal sem ctx tid stats s)
      else Some (None, sem, s))"

definition initialize_common_sources_masked ::
  "torque_ctx \<Rightarrow> nat set \<Rightarrow> nat set \<Rightarrow> sysst \<Rightarrow> (int \<times> torque_ctx \<times> nat set \<times> sysst) option" where
  "initialize_common_sources_masked ctx ss base s =
     (let evt = ctx_eventtables ctx in
      if SIGTERM \<ge> sigarraysize evt \<or> SIGINT \<ge> sigarraysize evt then Some (- 1, ctx, base, s)
      else
        (case setup_evsource (sigarray evt) SIGTERM (Some Cb_rxcommonsignal_handler) None Ptr_ctx of
           None \<Rightarrow> None
         | Some sigs1 \<Rightarrow>
        case setup_evsource sigs1 SIGINT (Some Cb_rxcommonsignal_handler) None Ptr_ctx of
           None \<Rightarrow> None
         | Some sigs2 \<Rightarrow>
             let ctx' = set_sigarray sigs2 ctx in
             (case init_epoll_sigset ss of
                None \<Rightarrow> Some (- 1, ctx', base, s)
              | Some base' \<Rightarrow>
                  (case init_signal_handlers s of
                     (r, s') \<Rightarrow> Some (if r \<noteq> 0 then - 1 else 0, ctx', base', s')))))"

text \<open>
  A signal that interrupts a waiting thread runs its callback; the common one stores the signal in the flag.
\<close>

definition flag_after :: "invocation list \<Rightarrow> nat \<Rightarrow> nat" where
  "flag_after ivs sem =
     foldl (\<lambda>f (cb, n, st). if cb = Cb_rxcommonsignal_handler then rxcommonsignal_handler n else f) sem ivs"

text \<open>
  One turn of the loop of \<open>event_thread\<close>. \<open>arrived\<close> are the signals that the wait is interrupted by, in order.
  The result is the thread's exit, or the state of the next turn.
\<close>

fun interrupts :: "evsource list \<Rightarrow> nat list \<Rightarrow> invocation list option" where
  "interrupts sigs [] = Some []"
| "interrupts sigs (z # zs) =
     (case handle_evsource_read sigs z of
        None \<Rightarrow> None
      | Some ivs \<Rightarrow> map_option (\<lambda>rest. ivs @ rest) (interrupts sigs zs))"

definition masked_round ::
  "callbacks \<Rightarrow> bool \<Rightarrow> nat set \<Rightarrow> nat list \<Rightarrow> torque_ctx \<Rightarrow> nat \<Rightarrow> evthreadstats \<Rightarrow> nat \<Rightarrow> nat \<Rightarrow> sysst \<Rightarrow>
     (thread_result + torque_ctx \<times> evthreadstats \<times> nat \<times> invocation list \<times> sysst) option" where
  "masked_round call pwait base arrived ctx tid stats vsizes sem s =
     (case check_for_termination sem ctx tid stats s of
        None \<Rightarrow> None
      | Some (Some ret, sem1, s1) \<Rightarrow> Some (Inl ret)
      | Some (None, sem1, s1) \<Rightarrow>
     (case Kevent_masked pwait base (efd (ctx_evq ctx)) [] vsizes s1 of
        (events, evs, s2) \<Rightarrow>
     (case interrupts (sigarray (ctx_eventtables ctx)) arrived of
        None \<Rightarrow> None
      | Some sivs \<Rightarrow>
          let sem2 = flag_after sivs sem1; ctx1 = run_invocations call sivs ctx;
              stats1 = stats\<lparr>st_rounds := st_rounds stats + 1, st_events := st_events stats + of_nat (length arrived)\<rparr>
          in
          if events < 0 then
            Some (Inr (ctx1, if errno s2 \<noteq> EINTR then stats1\<lparr>st_pollerr := st_pollerr stats1 + 1\<rparr> else stats1,
              sem2, sivs, s2))
          else
            (case handle_events call ctx1 (rev (take (nat events) evs)) of
               None \<Rightarrow> None
             | Some (ctx2, ivs) \<Rightarrow>
                 Some (Inr (ctx2, stats1\<lparr>st_events := st_events stats1 + of_nat (length (take (nat events) evs))\<rparr>,
                   sem2, sivs @ ivs, s2))))))"

section \<open>Builds without OpenSSL, adns and CUDA\<close>

definition torque_addssl_without :: torque_err where "torque_addssl_without = TORQUE_ERR_UNAVAIL"
definition torque_addlookup_dns_without :: torque_err where "torque_addlookup_dns_without = TORQUE_ERR_UNAVAIL"
definition detect_cudadevcount_without :: int where "detect_cudadevcount_without = 0"
definition cudaid_without :: torque_err where "cudaid_without = TORQUE_ERR_UNAVAIL"

section \<open>Facts\<close>

text \<open>
  Fact: a signal handler leaves \<open>errno\<close> as it found it, whatever the callbacks do, and on a foreign thread it does nothing.
\<close>

theorem demultiplexer_keeps_errno:
  assumes "signal_demultiplexer call ctx sig n s = Some (n', s')"
  shows "errno s' = errno s \<and> (ctx = None \<longrightarrow> n' = n \<and> s' = s)"
  using assms by (auto simp: signal_demultiplexer_def split: option.splits)

theorem demultiplexer_keeps_errno_witness:
  "\<exists>n' s'. signal_demultiplexer (\<lambda>_ s. s\<lparr>errno := 7\<rparr>) (Some [zero_evsource, zero_evsource]) 1 0 (os_answering []) =
     Some (n', s') \<and> errno s' = 0"
proof -
  obtain n' s' where run: "signal_demultiplexer (\<lambda>_ s. s\<lparr>errno := 7\<rparr>) (Some [zero_evsource, zero_evsource]) 1 0
      (os_answering []) = Some (n', s')"
    by (simp add: signal_demultiplexer_def handle_evsource_read_def zero_evsource_def)
  from demultiplexer_keeps_errno [OF run] run show ?thesis by (simp add: os_answering_def)
qed

lemma epoll_sigset_loop_ok:
  "epoll_sigset_loop ss zs ret base s = (0, base', s') \<Longrightarrow> base' = base - ss \<inter> set zs \<and> ret = 0"
  by (induction ss zs ret base s rule: epoll_sigset_loop.induct)
    (auto simp: sigdelset_def split: if_splits prod.splits option.splits)

text \<open>
  Fact: unblocking signals while waiting. On success exactly the given signals below the bound are gone from the mask of the wait.
\<close>

theorem epoll_sigset_deletes:
  assumes "add_epoll_sigset ss maxsignal base s = (0, base', s')"
  shows "base' = base - {z \<in> ss. 1 \<le> z \<and> z < maxsignal}"
proof -
  obtain s1 s2 where "epoll_sigset_loop ss [1..<maxsignal] 0 base s1 = (0, base', s2)"
    using assms by (auto simp: add_epoll_sigset_def split: prod.splits if_splits)
  from epoll_sigset_loop_ok [OF this] show ?thesis by auto
qed

theorem epoll_sigset_deletes_witness:
  "\<exists>base' s'. add_epoll_sigset {10} 12 {2, 10, 15} (os_answering [zero_ret, zero_ret]) = (0, base', s') \<and> base' = {2, 15}"
proof -
  obtain base' s' where run: "add_epoll_sigset {10} 12 {2, 10, 15} (os_answering [zero_ret, zero_ret]) = (0, base', s')"
    by (simp add: add_epoll_sigset_def upt_rec sigdelset_def io_simps)
  from epoll_sigset_deletes [OF run] run show ?thesis by auto
qed

text \<open>
  Fact: one timer only. While the context has its timer, every further one is refused and its marshal freed.
\<close>

theorem itimer_single:
  assumes "timerev \<noteq> None" "add_itimer timerev tfxn cbstate h s = (r, timerev', h', s')"
  shows "r = TORQUE_ERR_RESOURCE \<and> timerev' = timerev \<and> dom h' \<subseteq> dom h"
  using assms by (auto simp: add_itimer_def create_timerfd_marshal_def Let_def split: prod.splits option.splits if_splits)

theorem itimer_single_witness:
  "\<exists>r timerev' h' s'. add_itimer (Some 3) 0 0 Map.empty (os_answering [ok_ret]) = (r, timerev', h', s') \<and>
     r = TORQUE_ERR_RESOURCE"
proof -
  obtain r timerev' h' s' where run: "add_itimer (Some 3) 0 0 Map.empty (os_answering [ok_ret]) = (r, timerev', h', s')"
    by (cases rule: prod_cases4)
  from itimer_single [OF _ run] run show ?thesis by simp
qed

text \<open>
  Fact: the wait has its mask to itself. Unless the mask cannot be set, the mask that was in force before is set again after the
  wait, and the result is that of \<open>epoll_wait\<close>.
\<close>

theorem masked_wait_restores:
  assumes "sys_call (Sys_sigmask ''SETMASK'' base) s = (a, s1)" "rv a = 0"
  shows "case kevent_retrieve_masked base epfd n s of
    (ret, evs, s') \<Rightarrow> calls s' = calls s @ [Sys_sigmask ''SETMASK'' base, Sys_epoll_wait epfd n, Sys_sigmask ''SETMASK'' (rset a)] \<and>
      ret = rv (fst (sys_call (Sys_epoll_wait epfd n) s1)) \<and> errno s' = errno (snd (sys_call (Sys_epoll_wait epfd n) s1))"
  using assms
  by (auto simp: kevent_retrieve_masked_def sys_note_def split: prod.splits dest!: sys_call_calls)

theorem masked_wait_restores_witness:
  "case kevent_retrieve_masked {10} 3 8 (os_answering [zero_ret\<lparr>rset := {2, 10}\<rparr>, ok_ret]) of
    (ret, evs, s') \<Rightarrow> calls s' = [Sys_sigmask ''SETMASK'' {10}, Sys_epoll_wait 3 8, Sys_sigmask ''SETMASK'' {2, 10}]"
  using masked_wait_restores [of "{10}" "os_answering [zero_ret\<lparr>rset := {2, 10}\<rparr>, ok_ret]" "zero_ret\<lparr>rset := {2, 10}\<rparr>" _ 3 8]
  by (auto simp: io_simps)

lemma interrupts_one:
  "interrupts sigs [z] = Some ivs \<Longrightarrow> src_entry sigs z = Some (Some cb, tx, st) \<Longrightarrow> ivs = [(cb, z, st)]"
  by (auto simp: handle_evsource_read_def src_entry_def split: if_splits option.splits)

lemma check_ends:
  "sem = SIGTERM \<or> sem = SIGINT \<Longrightarrow> check_for_termination sem ctx tid stats s = Some (ret, sem', s') \<Longrightarrow> ret \<noteq> None"
  by (auto simp: check_for_termination_def rxcommonsignal_def Let_def split: option.splits prod.splits if_splits)

text \<open>
  Fact: the flag ends the thread. A termination signal that arrives while a thread waits is in the flag at the end of that turn of the
  loop, and the next turn does not go on to wait again.
\<close>

theorem flag_ends_thread:
  assumes "sig = SIGTERM \<or> sig = SIGINT"
    and "sig_entry ctx sig = Some (Some Cb_rxcommonsignal_handler, tx, st)"
    and "masked_round call pwait base [sig] ctx tid stats n 0 s = Some (Inr (ctx1, stats1, sem1, ivs, s1))"
  shows "sem1 = sig \<and> masked_round call pwait base arrived ctx1 tid stats1 n sem1 s1 \<noteq> Some (Inr next)"
proof -
  have "sem1 = sig"
    using assms(2, 3) unfolding masked_round_def
    by (auto simp: check_for_termination_def Let_def flag_after_def rxcommonsignal_handler_def
        simp del: interrupts.simps split: prod.splits option.splits if_splits dest!: interrupts_one)
  then show ?thesis using assms(1) check_ends
    by (fastforce simp: masked_round_def split: option.splits prod.splits)
qed

theorem flag_ends_thread_witness:
  "\<exists>ctx ctx1 stats1 ivs s1. masked_round (\<lambda>_ c. c) True {} [15] ctx 1 zero_stats 8 0 (os_answering []) =
      Some (Inr (ctx1, stats1, 15, ivs, s1)) \<and>
    masked_round (\<lambda>_ c. c) True {} [] ctx1 1 stats1 8 15 s1 \<noteq> Some (Inr (ctx1, stats1, 0, [], s1))"
proof -
  let ?src = "\<lparr>rxfxn = Some Cb_rxcommonsignal_handler, txfxn = None, src_cbstate = Ptr_ctx\<rparr>"
  let ?ctx = "set_sigarray (replicate 16 ?src) zero_ctx"
  have e: "sig_entry ?ctx 15 = Some (Some Cb_rxcommonsignal_handler, None, Ptr_ctx)"
    by (simp add: src_entry_def set_sigarray_def)
  obtain ctx1 stats1 sem1 ivs s1 where run:
    "masked_round (\<lambda>_ c. c) True {} [15] ?ctx 1 zero_stats 8 0 (os_answering []) = Some (Inr (ctx1, stats1, sem1, ivs, s1))"
    by (simp add: masked_round_def check_for_termination_def Kevent_masked_def handle_evsource_read_def set_sigarray_def
        Let_def io_simps)
  from flag_ends_thread [OF _ e run] run show ?thesis by fastforce
qed

end
