(* ===== verification/Freebsd.thy ===== *)
theory Freebsd
  imports Torque
begin

text \<open>
  The branches of the sources for FreeBSD: \<^verbatim>\<open>alloc.c\<close>, \<^verbatim>\<open>schedule.c\<close>, and the event notification by \<open>kevent\<close> in
  \<^verbatim>\<open>events/sysdep.h\<close>, \<^verbatim>\<open>events/sysdep.c\<close>, \<^verbatim>\<open>events/fd.c\<close>, \<^verbatim>\<open>events/signal.c\<close>, \<^verbatim>\<open>events/timer.c\<close>, \<^verbatim>\<open>events/thread.c\<close> and
  \<^verbatim>\<open>events/evq.c\<close>.
\<close>

section \<open>The interface of kevent\<close>

text \<open>The constants of \<^verbatim>\<open>sys/event.h\<close>. Filters are negative numbers, not bits.\<close>

definition EVFILT_READ :: int where [simp]: "EVFILT_READ = - 1"
definition EVFILT_WRITE :: int where [simp]: "EVFILT_WRITE = - 2"
definition EVFILT_SIGNAL :: int where [simp]: "EVFILT_SIGNAL = - 6"
definition EVFILT_TIMER :: int where [simp]: "EVFILT_TIMER = - 7"
definition EV_ADD :: u16 where [simp]: "EV_ADD = 0x1"
definition EV_DELETE :: u16 where [simp]: "EV_DELETE = 0x2"
definition EV_ONESHOT :: u16 where [simp]: "EV_ONESHOT = 0x10"
definition EV_CLEAR :: u16 where [simp]: "EV_CLEAR = 0x20"

text \<open>A change: identifier, filter, flags (an unsigned short) and data. \<open>kevent\<close> is called again while it is interrupted.\<close>

type_synonym kevent_bsd = "int \<times> int \<times> u16 \<times> int"

function Kevent_bsd :: "kevent_bsd list \<Rightarrow> nat \<Rightarrow> sysst \<Rightarrow> int \<times> (int \<times> u32) list \<times> sysst" where
  "Kevent_bsd chg n s =
     (case sys_call (Sys_kevent chg n) s of
        (a, s1) \<Rightarrow> if rv a < 0 \<and> errno s1 = EINTR then Kevent_bsd chg n s1 else (rv a, take n (revents a), s1))"
  by pat_completeness auto
termination
  by (relation "measure (\<lambda>(chg, n, s). length (answers s))")
    (auto simp: sys_call_def failed_ret_def split: list.splits)

declare Kevent_bsd.simps [simp del]

abbreviation kevent_change :: "kevent_bsd list \<Rightarrow> sysst \<Rightarrow> int \<times> sysst" where
  "kevent_change chg s \<equiv> (case Kevent_bsd chg 0 s of (r, _, s') \<Rightarrow> (r, s'))"

section \<open>Descriptors\<close>

text \<open>
  The two entries of the change list, \<open>None\<close> while not initialised; reading one of those is undefined.
\<close>

definition add_fd_event_bsd ::
  "int \<Rightarrow> cbfn option \<Rightarrow> cbfn option \<Rightarrow> u16 \<Rightarrow> sysst \<Rightarrow> (int \<times> sysst) option" where
  "add_fd_event_bsd fd rfxn tfxn eflags s =
     (let k0 = (if rfxn \<noteq> None then Some (fd, EVFILT_READ, (EV_ADD OR EV_CLEAR) OR eflags, 0) else None);
          k1 = (if tfxn \<noteq> None then Some (fd, EVFILT_WRITE, (EV_ADD OR EV_CLEAR) OR eflags, 0) else None);
          k = take (of_bool (tfxn \<noteq> None) + of_bool (rfxn \<noteq> None)) [k0, k1]
      in if None \<in> set k then None else Some (kevent_change (map the k) s))"

text \<open>\<open>EVREAD\<close> and \<open>EVWRITE\<close> are filters here.\<close>

definition restorefd_bsd :: "int \<Rightarrow> int \<Rightarrow> sysst \<Rightarrow> int \<times> sysst" where
  "restorefd_bsd fd eflags s =
     (if eflags AND (EVFILT_READ OR EVFILT_WRITE) = 0 then (- 1, s\<lparr>errno := EINVAL\<rparr>)
      else
        let flt = (if eflags AND EVFILT_READ \<noteq> 0 then EVFILT_READ else EVFILT_WRITE) in
        (case kevent_change [(fd, flt, ((EV_ADD OR EV_CLEAR) OR EV_ONESHOT) OR word_of_int eflags, 0)] s of
           (r, s') \<Rightarrow> (if r \<noteq> 0 then - 1 else 0, s')))"

section \<open>Signals and timers\<close>

fun add_signals_bsd :: "nat set \<Rightarrow> nat list \<Rightarrow> sysst \<Rightarrow> torque_err \<times> sysst" where
  "add_signals_bsd sigs [] s = (0, s)"
| "add_signals_bsd sigs (z # zs) s =
     (if z \<notin> sigs then add_signals_bsd sigs zs s
      else
        (case kevent_change [(int z, EVFILT_SIGNAL, EV_ADD OR EV_CLEAR, 0)] s of
           (r, s1) \<Rightarrow> if r \<noteq> 0 then (TORQUE_ERR_ASSERT, s1) else add_signals_bsd sigs zs s1))"

definition add_signal_bsd ::
  "torque_ctx \<Rightarrow> nat set \<Rightarrow> cbfn option \<Rightarrow> cbptr \<Rightarrow> sysst \<Rightarrow> (torque_err \<times> torque_ctx \<times> sysst) option" where
  "add_signal_bsd ctx sigs rfxn cbstate s =
     (let evt = ctx_eventtables ctx in
      case add_signals_from sigs rfxn cbstate (sigarraysize evt) 1 (sigarray evt) of
        None \<Rightarrow> None
      | Some evs \<Rightarrow>
          (case add_signals_bsd sigs [1..<sigarraysize evt] s of (r, s') \<Rightarrow> Some (r, set_sigarray evs ctx, s')))"

text \<open>
  The interval of the timer in whole milliseconds, as an \<open>uintmax_t\<close>; a \<open>timespec\<close> holds less than 1000000000 nanoseconds. The first
  expiry \<open>it_value\<close> is not looked at.
\<close>

record itimerspec =
  it_interval :: "int \<times> nat"
  it_value :: "int \<times> nat"

definition interval_ms :: "itimerspec \<Rightarrow> u64" where
  "interval_ms t = word_of_int (fst (it_interval t) * 1000 + int (snd (it_interval t) div 1000000))"

definition add_timer_bsd ::
  "itimerspec \<Rightarrow> nat \<Rightarrow> nat \<Rightarrow> timer_heap \<Rightarrow> sysst \<Rightarrow> torque_err \<times> timer_heap \<times> sysst" where
  "add_timer_bsd t tfxn cbstate h s =
     (case create_timerfd_marshal tfxn cbstate h s of
        (None, h1, s1) \<Rightarrow> (TORQUE_ERR_RESOURCE, h1, s1)
      | (Some tm, h1, s1) \<Rightarrow>
          let ms = interval_ms t in
          if ms = 0 then (case free_marshal tm h1 s1 of (h2, s2) \<Rightarrow> (TORQUE_ERR_INVAL, h2, s2))
          else
            (case kevent_change [(int tm, EVFILT_TIMER, EV_ADD OR EV_ONESHOT, sint ms)] s1 of
               (r, s2) \<Rightarrow>
                 if r \<noteq> 0 then (case free_marshal tm h1 s2 of (h2, s3) \<Rightarrow> (TORQUE_ERR_RESOURCE, h2, s3))
                 else (0, h1, s2)))"

section \<open>Dispatch\<close>

text \<open>
  An event is an identifier and its filter; the identifier of a timer is the address of its marshal. The result has
  the callbacks of sources and the callbacks of timers.
\<close>

definition handle_event_bsd ::
  "callbacks \<Rightarrow> torque_ctx \<Rightarrow> timer_heap \<Rightarrow> int \<times> int \<Rightarrow>
     (torque_ctx \<times> timer_heap \<times> invocation list \<times> (nat \<times> nat) list) option" where
  "handle_event_bsd call ctx h e =
     (let source = (\<lambda>ivs. map_option (\<lambda>l. (run_invocations call l ctx, h, l, [])) ivs) in
      case e of
        (ident, flt) \<Rightarrow>
          if flt = EVFILT_READ then source (handle_evsource_read (fdarray (ctx_eventtables ctx)) (nat ident))
          else if flt = EVFILT_WRITE then source (handle_evsource_write (fdarray (ctx_eventtables ctx)) (nat ident))
          else if flt = EVFILT_SIGNAL then source (handle_evsource_read (sigarray (ctx_eventtables ctx)) (nat ident))
          else if flt = EVFILT_TIMER then map_option (\<lambda>(c, h'). (ctx, h', [], [c])) (timer_curry (nat ident) h)
          else Some (ctx, h, [], []))"

section \<open>The queue and its threads\<close>

definition create_efd_bsd :: "sysst \<Rightarrow> int \<times> sysst" where
  "create_efd_bsd s =
     (case sys_int (Sys_libc ''kqueue'') s of
        (fd, s1) \<Rightarrow>
          if fd < 0 then (- 1, s1)
          else
            (case sys_int (Sys_fcntl fd) s1 of
               (flags, s2) \<Rightarrow>
                 if flags < 0 then (- 1, sys_note (Sys_close fd) s2)
                 else
                   (case sys_int (Sys_fcntl fd) s2 of
                      (r, s3) \<Rightarrow> if r \<noteq> 0 then (- 1, sys_note (Sys_close fd) s3) else (fd, s3))))"

definition create_evector_bsd :: "sysst \<Rightarrow> int \<times> sysst" where
  "create_evector_bsd s = (case sys_alloc (Sys_malloc ''events'') s of (ok, s1) \<Rightarrow> (if ok then 0 else - 1, s1))"

definition destroy_evector_bsd :: "sysst \<Rightarrow> sysst" where
  "destroy_evector_bsd s = sys_note (Sys_free ''events'') s"

definition initialize_common_sources_bsd :: "torque_ctx \<Rightarrow> sysst \<Rightarrow> (int \<times> torque_ctx \<times> sysst) option" where
  "initialize_common_sources_bsd ctx s =
     (let evt = ctx_eventtables ctx in
      if SIGTERM \<ge> sigarraysize evt \<or> SIGINT \<ge> sigarraysize evt then Some (- 1, ctx, s)
      else
        (case setup_evsource (sigarray evt) SIGTERM (Some Cb_rxcommonsignal) None Ptr_ctx of
           None \<Rightarrow> None
         | Some sigs1 \<Rightarrow>
        case setup_evsource sigs1 SIGINT (Some Cb_rxcommonsignal) None Ptr_ctx of
           None \<Rightarrow> None
         | Some sigs2 \<Rightarrow>
             (case init_signal_handlers s of
                (r, s') \<Rightarrow> Some (if r \<noteq> 0 then - 1 else 0, set_sigarray sigs2 ctx, s'))))"

text \<open>Registration of the common signals on the queue, after the descriptors of the resolver.\<close>

definition common_signals_bsd :: "torque_ctx \<Rightarrow> sysst \<Rightarrow> (int \<times> torque_ctx \<times> sysst) option" where
  "common_signals_bsd ctx s =
     (case add_signal_bsd ctx {SIGTERM, SIGINT} (Some Cb_rxcommonsignal) Ptr_ctx s of
        None \<Rightarrow> None
      | Some (r, ctx', s') \<Rightarrow> Some (if r \<noteq> 0 then - 1 else 0, ctx', s'))"

section \<open>Pages and thread identifiers\<close>

text \<open>
  Pages that grow: addresses are integers, with 0 for null and \<open>-1\<close> for \<open>MAP_FAILED\<close>.
\<close>

definition mod_pages_bsd :: "int \<Rightarrow> nat \<Rightarrow> nat \<Rightarrow> sysst \<Rightarrow> int \<times> sysst" where
  "mod_pages_bsd p olds news s =
     (case sys_int (Sys_mmap (news - olds)) s of
        (ret, s1) \<Rightarrow>
          if ret = - 1 then (0, s1)
          else if ret \<noteq> p + int olds then
            (case sys_int (Sys_mmap news) (sys_note (Sys_munmap (news - olds)) s1) of
               (ret2, s2) \<Rightarrow> if ret2 = - 1 then (- 1, s2) else (ret2, sys_note (Sys_munmap olds) s2))
          else (ret, s1))"

text \<open>
  Numeric thread identifiers: the next one, whether the lock is held, and each thread's own. Locking a held lock
  does not return.
\<close>

record ssl_ids =
  openssl_id_idx :: u64
  openssl_lock :: bool
  openssl_id_key :: "nat \<rightharpoonup> u64"

definition setup_new_sslid :: "nat \<Rightarrow> ssl_ids \<Rightarrow> sysst \<Rightarrow> (u64 option \<times> ssl_ids \<times> sysst) option" where
  "setup_new_sslid tid g s =
     (case sys_alloc (Sys_malloc ''sslid'') s of
        (ok, s1) \<Rightarrow>
          if \<not> ok then Some (None, g, s1)
          else
            (case sys_int (Sys_pthread ''setspecific'') s1 of
               (r, s2) \<Rightarrow>
                 if r \<noteq> 0 then Some (None, g, sys_note (Sys_free ''sslid'') s2)
                 else if openssl_lock g then None
                 else
                   (case sys_int (Sys_pthread ''mutex_lock'') s2 of
                      (r, s3) \<Rightarrow>
                        if r \<noteq> 0 then
                          Some (None, g, sys_note (Sys_free ''sslid'') (sys_note (Sys_pthread ''setspecific'') s3))
                        else
                          let n = openssl_id_idx g + 1 in
                          Some (Some n, g\<lparr>openssl_id_idx := n, openssl_lock := True,
                            openssl_id_key := (openssl_id_key g)(tid \<mapsto> n)\<rparr>, s3))))"

definition pthread_self_getnumeric :: "nat \<Rightarrow> ssl_ids \<Rightarrow> sysst \<Rightarrow> (u64 \<times> ssl_ids \<times> sysst) option" where
  "pthread_self_getnumeric tid g s =
     (case openssl_id_key g tid of
        Some n \<Rightarrow> Some (n, g, s)
      | None \<Rightarrow>
          (case setup_new_sslid tid g s of
             Some (Some n, g1, s1) \<Rightarrow> Some (n, g1, s1)
           | _ \<Rightarrow> None))"

section \<open>Facts\<close>

text \<open>
  Fact: an interrupted \<open>kevent\<close> is called again; the result is that of the first call that was not interrupted.
\<close>

theorem Kevent_bsd_result:
  "case Kevent_bsd chg n s of (ret, evs, s') \<Rightarrow> \<not> (ret < 0 \<and> errno s' = EINTR) \<and>
     (\<exists>k. calls s' = calls s @ replicate (Suc k) (Sys_kevent chg n))"
proof (induction chg n s rule: Kevent_bsd.induct)
  case (1 chg n s)
  obtain a s1 where k: "sys_call (Sys_kevent chg n) s = (a, s1)" by fastforce
  then have c: "calls s1 = calls s @ [Sys_kevent chg n]" by (rule sys_call_calls)
  show ?case
  proof (cases "rv a < 0 \<and> errno s1 = EINTR")
    case True
    have "calls s @ [Sys_kevent chg n] @ replicate (Suc k) (Sys_kevent chg n) =
        calls s @ replicate (Suc (Suc k)) (Sys_kevent chg n)" for k by simp
    then show ?thesis using "1.IH" [OF k [symmetric] True] True k c
      by (auto simp: Kevent_bsd.simps [of chg n s] simp del: replicate_Suc split: prod.splits)
  next
    case False
    then show ?thesis using k c by (auto simp: Kevent_bsd.simps [of chg n s] intro!: exI [of _ 0])
  qed
qed

text \<open>
  Fact: growing in place loses the start. When the new pages follow the old ones, \<open>mod_pages\<close> returns their address, the
  end of the old mapping, and not the start of the whole.
\<close>

theorem mod_pages_bsd_start:
  assumes "sys_int (Sys_mmap (news - olds)) s = (p + int olds, s1)" "0 \<le> p"
  shows "mod_pages_bsd p olds news s = (p + int olds, s1)"
  using assms by (simp add: mod_pages_bsd_def)

theorem mod_pages_bsd_start_witness:
  "fst (mod_pages_bsd 4096 4096 8192 (os_answering [ok_ret\<lparr>rv := 8192\<rparr>])) = 8192"
  using mod_pages_bsd_start [of 8192 4096 "os_answering [ok_ret\<lparr>rv := 8192\<rparr>]" 4096] by (simp add: io_simps)

text \<open>
  Fact: the lock of the identifiers is never released. Once a thread has been given its number, every other thread that asks for one
  waits forever, unless it runs out of memory before.
\<close>

theorem sslid_blocks_others:
  assumes "setup_new_sslid t g s = Some (Some n, g', s')" "openssl_id_key g' u = None"
  shows "pthread_self_getnumeric u g' s2 = None"
  using assms
  by (auto simp: setup_new_sslid_def pthread_self_getnumeric_def Let_def split: prod.splits if_splits option.splits)

theorem sslid_blocks_others_witness:
  "\<exists>g' s'. setup_new_sslid 1 \<lparr>openssl_id_idx = 0, openssl_lock = False, openssl_id_key = Map.empty\<rparr>
       (os_answering [ok_ret, zero_ret, zero_ret]) = Some (Some 1, g', s') \<and>
     pthread_self_getnumeric 2 g' (os_answering [ok_ret, zero_ret, zero_ret]) = None"
proof -
  obtain g' s' where run: "setup_new_sslid 1 \<lparr>openssl_id_idx = 0, openssl_lock = False, openssl_id_key = Map.empty\<rparr>
      (os_answering [ok_ret, zero_ret, zero_ret]) = Some (Some 1, g', s')" and k: "openssl_id_key g' 2 = None"
    by (simp add: setup_new_sslid_def io_simps)
  from sslid_blocks_others [OF run k] run show ?thesis by blast
qed

text \<open>
  Fact: a descriptor with only a write callback. The change list is filled from its second entry and read from its first, which is
  not initialised; in all other cases the registration is defined.
\<close>

theorem write_only_undefined:
  "add_fd_event_bsd fd rfxn tfxn eflags s = None \<longleftrightarrow> rfxn = None \<and> tfxn \<noteq> None"
  by (auto simp: add_fd_event_bsd_def Let_def)

lemma kevent_change_calls:
  "kevent_change chg s = (r, s') \<Longrightarrow> \<exists>k. calls s' = calls s @ replicate (Suc k) (Sys_kevent chg 0)"
  using Kevent_bsd_result [where chg = chg and n = 0 and s = s] by (auto split: prod.splits)

text \<open>
  Fact: a descriptor is never armed for writing again. \<open>restorefd\<close> tests the filters as if they were bits; as numbers they are \<open>-1\<close> and \<open>-2\<close>,
  so it asks for reads whichever of them it is given, with a flag word that has every bit of the filter, \<open>EV_DELETE\<close> among them.
\<close>

theorem restorefd_bsd_reads:
  assumes "eflags = EVFILT_READ \<or> eflags = EVFILT_WRITE" "restorefd_bsd fd eflags s = (r, s')"
  shows "\<exists>fl. last (calls s') = Sys_kevent [(fd, EVFILT_READ, fl, 0)] 0 \<and> fl AND EV_DELETE \<noteq> 0"
proof -
  define fl where "fl = ((EV_ADD OR EV_CLEAR) OR EV_ONESHOT) OR (word_of_int eflags :: u16)"
  have nz: "eflags AND (EVFILT_READ OR EVFILT_WRITE) \<noteq> 0" "eflags AND EVFILT_READ \<noteq> 0" using assms(1) by auto
  obtain q t where k: "kevent_change [(fd, EVFILT_READ, fl, 0)] s = (q, t)" by fastforce
  then have "s' = t" using assms(2) nz by (simp add: restorefd_bsd_def Let_def fl_def [symmetric]
        del: EVFILT_READ_def EVFILT_WRITE_def EV_ADD_def EV_CLEAR_def EV_ONESHOT_def)
  moreover obtain m where "calls t = calls s @ replicate (Suc m) (Sys_kevent [(fd, EVFILT_READ, fl, 0)] 0)"
    using kevent_change_calls [OF k] by blast
  ultimately have "last (calls s') = Sys_kevent [(fd, EVFILT_READ, fl, 0)] 0" by (simp add: last_replicate del: replicate.simps)
  moreover have "fl AND EV_DELETE \<noteq> 0" using assms(1) by (auto simp: fl_def)
  ultimately show ?thesis by blast
qed

theorem restorefd_bsd_reads_witness:
  "\<exists>s' fl. restorefd_bsd 7 EVFILT_WRITE (os_answering [zero_ret]) = (0, s') \<and> last (calls s') = Sys_kevent [(7, EVFILT_READ, fl, 0)] 0"
proof -
  obtain s' where run: "restorefd_bsd 7 EVFILT_WRITE (os_answering [zero_ret]) = (0, s')"
    by (simp add: restorefd_bsd_def Kevent_bsd.simps Let_def io_simps)
  from restorefd_bsd_reads [OF _ run] run show ?thesis by blast
qed

text \<open>
  Fact: timers on FreeBSD. An error leaves the heap of marshals as it was; after success the marshal is there and the
  event that reports the timer calls the client with its state and frees the marshal, once: the filter is a one-shot one. An interval below a
  millisecond is refused whatever the time of the first expiry.
\<close>

theorem bsd_timer_fires:
  assumes "add_timer_bsd t f c h s = (r, h', s')" "\<And>p. h p = None"
  shows "(r \<noteq> 0 \<longrightarrow> h' = h) \<and> (interval_ms t = 0 \<longrightarrow> r \<noteq> 0) \<and>
    (r = 0 \<longrightarrow> (\<exists>p. dom h' = {p} \<and> (\<exists>fl k. last (calls s') = Sys_kevent [(int p, EVFILT_TIMER, fl, k)] 0 \<and> fl AND EV_ONESHOT \<noteq> 0) \<and>
      handle_event_bsd call ctx h' (int p, EVFILT_TIMER) = Some (ctx, h, [], [(f, c)])))"
proof -
  have h: "h = Map.empty" using assms(2) by auto
  have undo: "(h(p \<mapsto> m))(p := None) = h" for p m using h by auto
  obtain tm h1 s1 where mk: "create_timerfd_marshal f c h s = (tm, h1, s1)" by (cases rule: prod_cases3)
  show ?thesis
  proof (cases tm)
    case None
    then show ?thesis using mk assms(1)
      by (auto simp: add_timer_bsd_def create_timerfd_marshal_def split: prod.splits option.splits)
  next
    case (Some p)
    then have h1: "h1 = h(p \<mapsto> \<lparr>tm_tfxn = f, tm_cbstate = c\<rparr>)"
      using mk by (auto simp: create_timerfd_marshal_def split: prod.splits option.splits)
    obtain q t2 where k: "kevent_change [(int p, EVFILT_TIMER, EV_ADD OR EV_ONESHOT, sint (interval_ms t))] s1 = (q, t2)"
      by fastforce
    then obtain m where "calls t2 = calls s1 @ replicate (Suc m) (Sys_kevent [(int p, EVFILT_TIMER, EV_ADD OR EV_ONESHOT, sint (interval_ms t))] 0)"
      using kevent_change_calls by blast
    then have last: "last (calls t2) = Sys_kevent [(int p, EVFILT_TIMER, EV_ADD OR EV_ONESHOT, sint (interval_ms t))] 0"
      by (simp add: last_replicate del: replicate.simps)
    have one: "(EV_ADD OR EV_ONESHOT) AND EV_ONESHOT \<noteq> 0" by simp
    have out: "if interval_ms t = 0 \<or> q \<noteq> 0 then r \<noteq> 0 \<and> h' = h else r = 0 \<and> h' = h1 \<and> s' = t2"
      using assms(1) mk Some k undo h1
      by (auto simp: add_timer_bsd_def free_marshal_def Let_def simp del: EVFILT_TIMER_def EV_ADD_def EV_ONESHOT_def split: if_splits)
    have "handle_event_bsd call ctx h1 (int p, EVFILT_TIMER) = Some (ctx, h, [], [(f, c)])"
      using h1 undo by (simp add: handle_event_bsd_def timer_curry_def)
    moreover have "dom h1 = {p}" using h1 h by simp
    ultimately show ?thesis using out last one by (auto simp del: EVFILT_TIMER_def EV_ADD_def EV_ONESHOT_def split: if_splits)
  qed
qed

theorem bsd_timer_fires_witness:
  "\<exists>h' s' p. add_timer_bsd \<lparr>it_interval = (1, 0), it_value = (0, 0)\<rparr> 3 4 Map.empty (os_answering [ok_ret, zero_ret]) = (0, h', s') \<and>
     handle_event_bsd (\<lambda>_ c. c) zero_ctx h' (int p, EVFILT_TIMER) = Some (zero_ctx, Map.empty, [], [(3, 4)])"
proof -
  obtain h' s' where run: "add_timer_bsd \<lparr>it_interval = (1, 0), it_value = (0, 0)\<rparr> 3 4 Map.empty (os_answering [ok_ret, zero_ret]) = (0, h', s')"
    by (simp add: add_timer_bsd_def create_timerfd_marshal_def interval_ms_def Kevent_bsd.simps Let_def io_simps)
  from bsd_timer_fires [OF run, of "\<lambda>_ c. c" zero_ctx] run show ?thesis by auto
qed

end
